(* ===== verification/Go_Prelude.thy ===== *)
theory Go_Prelude
  imports
    Main
    "HOL-Library.Word"
    "HOL-Library.Multiset"
    "HOL-Library.Char_ord"
    "HOL-Library.List_Lexorder"
begin

text \<open>
  The Go notions that every component uses, and the generic lemmas about them:
  the fixed-width integers, the byte strings with the operations of the packages
  strings and strconv that the code calls, and the error values with their
  wrapping chains.

  A Go string is a sequence of bytes, so it is a \<^typ>\<open>string\<close> (a \<open>char\<close> is a byte).
  Case mapping and white space are those of the ASCII range; a byte outside of it is
  left alone. A Go \<open>int\<close> or \<open>int64\<close> is an \<^typ>\<open>int\<close>, and the places where it may
  overflow apply \<open>i64\<close>, the two's complement value of the low 64 bits.
\<close>

named_theorems go_simps \<open>unfolding rules of the small total helpers\<close>

section \<open>Fixed-width integers\<close>

definition i64 :: "int \<Rightarrow> int" where
  "i64 x = signed_take_bit 63 x"

definition i32 :: "int \<Rightarrow> int" where
  "i32 x = signed_take_bit 31 x"

definition max_int64 :: int where
  "max_int64 = 9223372036854775807"

definition min_int64 :: int where
  "min_int64 = -9223372036854775808"

definition max_int32 :: int where
  "max_int32 = 2147483647"

definition in_i64 :: "int \<Rightarrow> bool" where
  "in_i64 x \<longleftrightarrow> min_int64 \<le> x \<and> x \<le> max_int64"

lemma i64_id: "in_i64 x \<Longrightarrow> i64 x = x"
  unfolding i64_def in_i64_def min_int64_def max_int64_def
  by (rule signed_take_bit_int_eq_self) auto

lemma i64_range: "in_i64 (i64 x)"
  unfolding i64_def in_i64_def min_int64_def max_int64_def
  using signed_take_bit_int_greater_eq_minus_exp [of 63 x] signed_take_bit_int_less_exp [of 63 x]
  by simp

lemma i32_id: "0 \<le> x \<Longrightarrow> x \<le> max_int32 \<Longrightarrow> i32 x = x"
  unfolding i32_def max_int32_def
  by (rule signed_take_bit_int_eq_self) auto

lemma i64_small: "0 \<le> x \<Longrightarrow> x < 9223372036854775808 \<Longrightarrow> i64 x = x"
  by (rule i64_id) (simp add: in_i64_def min_int64_def max_int64_def)

lemma i64_i64 [simp]: "i64 (i64 x) = i64 x"
  by (simp add: i64_id i64_range)

lemma i64_add_left [simp]: "i64 (i64 x + y) = i64 (x + y)"
  using signed_take_bit_add [of 63 "i64 x" y] signed_take_bit_add [of 63 x y]
  by (simp add: i64_def)

lemma i64_diff_left [simp]: "i64 (i64 x - y) = i64 (x - y)"
  using i64_add_left [of x "- y"] by simp

section \<open>Strings\<close>

definition lower_char :: "char \<Rightarrow> char" where
  "lower_char c = (if 65 \<le> (of_char c :: nat) \<and> (of_char c :: nat) \<le> 90
     then char_of ((of_char c :: nat) + 32) else c)"

definition upper_char :: "char \<Rightarrow> char" where
  "upper_char c = (if 97 \<le> (of_char c :: nat) \<and> (of_char c :: nat) \<le> 122
     then char_of ((of_char c :: nat) - 32) else c)"

definition ToLower :: "string \<Rightarrow> string" where
  "ToLower s = map lower_char s"

definition ToUpper :: "string \<Rightarrow> string" where
  "ToUpper s = map upper_char s"

lemma char_of_numeral [simp]:
  "(char_of (numeral n :: nat) :: char) = (let k = numeral n :: int in
     Char (odd k) (bit k 1) (bit k 2) (bit k 3) (bit k 4) (bit k 5) (bit k 6) (bit k 7))"
proof -
  have "(char_of (numeral n :: nat) :: char) = char_of (numeral n :: int)"
    by (metis char_of_nat of_nat_numeral)
  then show ?thesis by (simp add: char_of_def bit_0)
qed

definition is_space :: "char \<Rightarrow> bool" where
  "is_space c \<longleftrightarrow> c = CHR '' '' \<or> (9 \<le> (of_char c :: nat) \<and> (of_char c :: nat) \<le> 13)"

definition TrimSpace :: "string \<Rightarrow> string" where
  "TrimSpace s = rev (dropWhile is_space (rev (dropWhile is_space s)))"

definition EqualFold :: "string \<Rightarrow> string \<Rightarrow> bool" where
  "EqualFold s t \<longleftrightarrow> ToLower s = ToLower t"

fun HasPrefix :: "string \<Rightarrow> string \<Rightarrow> bool" where
  "HasPrefix s [] = True"
| "HasPrefix [] (p # ps) = False"
| "HasPrefix (c # cs) (p # ps) = (c = p \<and> HasPrefix cs ps)"

fun find_sub :: "string \<Rightarrow> string \<Rightarrow> nat option" where
  "find_sub [] sub = (if sub = [] then Some 0 else None)"
| "find_sub (c # cs) sub =
     (if HasPrefix (c # cs) sub then Some 0 else map_option Suc (find_sub cs sub))"

text \<open>\<open>strings.Index\<close>: the first position of the substring, or \<open>-1\<close>.\<close>

definition Index :: "string \<Rightarrow> string \<Rightarrow> int" where
  "Index s sub = (case find_sub s sub of None \<Rightarrow> -1 | Some i \<Rightarrow> int i)"

definition Contains :: "string \<Rightarrow> string \<Rightarrow> bool" where
  "Contains s sub \<longleftrightarrow> Index s sub \<ge> 0"

fun Join :: "string list \<Rightarrow> string \<Rightarrow> string" where
  "Join [] sep = []"
| "Join [x] sep = x"
| "Join (x # y # xs) sep = x @ sep @ Join (y # xs) sep"

text \<open>\<open>strings.SplitN\<close> with a one-byte separator and at most \<open>n\<close> parts.\<close>

fun SplitN :: "string \<Rightarrow> char \<Rightarrow> nat \<Rightarrow> string list" where
  "SplitN s sep 0 = []"
| "SplitN s sep (Suc 0) = [s]"
| "SplitN s sep (Suc (Suc n)) =
     (if sep \<in> set s
      then takeWhile (\<lambda>c. c \<noteq> sep) s # SplitN (tl (dropWhile (\<lambda>c. c \<noteq> sep) s)) sep (Suc n)
      else [s])"

lemma HasPrefix_iff: "HasPrefix s p \<longleftrightarrow> (\<exists>t. s = p @ t)"
  by (induction s p rule: HasPrefix.induct) auto

lemma HasPrefix_append [simp]: "HasPrefix (p @ t) p"
  by (auto simp: HasPrefix_iff)

lemma find_sub_single:
  "find_sub s [c] = (if c \<in> set s then Some (length (takeWhile (\<lambda>x. x \<noteq> c) s)) else None)"
  by (induction s) auto

lemma Index_single:
  "Index s [c] = (if c \<in> set s then int (length (takeWhile (\<lambda>x. x \<noteq> c) s)) else -1)"
  by (simp add: Index_def find_sub_single)

lemma Contains_single [simp]: "Contains s [c] \<longleftrightarrow> c \<in> set s"
  by (simp add: Contains_def Index_single)

lemma take_length_takeWhile [simp]: "take (length (takeWhile P s)) s = takeWhile P s"
  by (metis append_eq_conv_conj takeWhile_dropWhile_id)

lemma drop_length_takeWhile [simp]: "drop (length (takeWhile P s)) s = dropWhile P s"
  by (metis append_eq_conv_conj takeWhile_dropWhile_id)

lemma split_at_char:
  "c \<in> set s \<Longrightarrow> takeWhile (\<lambda>x. x \<noteq> c) s @ c # tl (dropWhile (\<lambda>x. x \<noteq> c) s) = s"
  by (induction s) auto

lemma not_in_takeWhile_neq [simp]: "c \<notin> set (takeWhile (\<lambda>x. x \<noteq> c) s)"
  by (induction s) auto

lemma cut_at_sep [simp]:
  "c \<notin> set a \<Longrightarrow> takeWhile (\<lambda>x. x \<noteq> c) (a @ c # b) = a"
  "c \<notin> set a \<Longrightarrow> dropWhile (\<lambda>x. x \<noteq> c) (a @ c # b) = c # b"
  by (induction a) auto

lemma takeWhile_neq_id [simp]: "c \<notin> set a \<Longrightarrow> takeWhile (\<lambda>x. x \<noteq> c) a = a"
  by (induction a) auto

text \<open>Two strings cut at the first separator are equal only if both parts are.\<close>

lemma append_sep_inj:
  "c \<notin> set a \<Longrightarrow> c \<notin> set b \<Longrightarrow> a @ c # x = b @ c # y \<longleftrightarrow> a = b \<and> x = y"
  by (induction a arbitrary: b; case_tac b) (auto simp: Cons_eq_append_conv)

section \<open>Decimal numbers\<close>

definition digit_char :: "nat \<Rightarrow> char" where
  "digit_char d = char_of (d + 48)"

fun show_nat :: "nat \<Rightarrow> string" where
  "show_nat n = (if n < 10 then [digit_char n] else show_nat (n div 10) @ [digit_char (n mod 10)])"

declare show_nat.simps [simp del]

text \<open>The verb \<open>%d\<close> of package fmt.\<close>

definition show_int :: "int \<Rightarrow> string" where
  "show_int i = (if i < 0 then CHR ''-'' # show_nat (nat (- i)) else show_nat (nat i))"

definition digit_val :: "char \<Rightarrow> nat option" where
  "digit_val c = (let n = of_char c :: nat in if 48 \<le> n \<and> n \<le> 57 then Some (n - 48) else None)"

fun read_digits :: "nat \<Rightarrow> string \<Rightarrow> nat option" where
  "read_digits acc [] = Some acc"
| "read_digits acc (c # cs) =
     (case digit_val c of None \<Rightarrow> None | Some d \<Rightarrow> read_digits (10 * acc + d) cs)"

text \<open>
  \<open>strconv.ParseInt(s, 10, 64)\<close>: an optional sign, at least one digit, and a value of
  64 bits; \<open>None\<close> is the error (syntax or range).
\<close>

definition ParseInt :: "string \<Rightarrow> int option" where
  "ParseInt s =
     (let (neg, ds) = (case s of [] \<Rightarrow> (False, [])
        | c # cs \<Rightarrow> if c = CHR ''-'' then (True, cs) else if c = CHR ''+'' then (False, cs) else (False, s))
      in if ds = [] then None
         else case read_digits 0 ds of None \<Rightarrow> None
           | Some n \<Rightarrow> let v = (if neg then - int n else int n) in if in_i64 v then Some v else None)"

lemma digit_val_digit_char [simp]: "d < 10 \<Longrightarrow> digit_val (digit_char d) = Some d"
  by (simp add: digit_val_def digit_char_def Let_def)

lemma read_digits_append:
  "read_digits acc (s @ t) = (case read_digits acc s of None \<Rightarrow> None | Some a \<Rightarrow> read_digits a t)"
  by (induction s arbitrary: acc) (auto split: option.split)

lemma read_show_nat [simp]: "read_digits 0 (show_nat n) = Some n"
proof (induction n rule: show_nat.induct)
  case (1 n)
  then show ?case
    by (cases "n < 10") (simp_all add: show_nat.simps [of n] read_digits_append)
qed

lemma show_nat_not_Nil [simp]: "show_nat n \<noteq> []"
  by (simp add: show_nat.simps [of n])

lemma show_nat_digits: "c \<in> set (show_nat n) \<Longrightarrow> digit_val c \<noteq> None"
proof (induction n rule: show_nat.induct)
  case (1 n)
  then show ?case
    by (cases "n < 10") (auto simp: show_nat.simps [of n])
qed

lemma show_nat_not_sign [simp]:
  "CHR ''-'' \<notin> set (show_nat n)" "CHR ''+'' \<notin> set (show_nat n)"
  "CHR ''|'' \<notin> set (show_nat n)" "CHR '','' \<notin> set (show_nat n)"
proof -
  have "digit_val (CHR ''-'') = None" "digit_val (CHR ''+'') = None"
    "digit_val (CHR ''|'') = None" "digit_val (CHR '','') = None"
    by (simp_all add: digit_val_def)
  then show "CHR ''-'' \<notin> set (show_nat n)" "CHR ''+'' \<notin> set (show_nat n)"
    "CHR ''|'' \<notin> set (show_nat n)" "CHR '','' \<notin> set (show_nat n)"
    using show_nat_digits [of _ n] by metis+
qed

lemma show_nat_inject [simp]: "show_nat m = show_nat n \<longleftrightarrow> m = n"
  by (metis read_show_nat option.inject)

lemma show_int_inject [simp]: "show_int i = show_int j \<longleftrightarrow> i = j"
proof -
  have "CHR ''-'' # s \<noteq> show_nat n" for s n
    using show_nat_not_sign(1) [of n] by (metis list.set_intros(1))
  then show ?thesis by (auto simp: show_int_def dest: sym)
qed

lemma show_int_no_sep [simp]: "CHR ''|'' \<notin> set (show_int i)" "CHR '','' \<notin> set (show_int i)"
  by (auto simp: show_int_def)

text \<open>Reading back what \<open>%d\<close> prints.\<close>

lemma ParseInt_show_int:
  assumes "in_i64 i"
  shows "ParseInt (show_int i) = Some i"
proof (cases "i < 0")
  case True
  with assms show ?thesis
    by (simp add: ParseInt_def show_int_def Let_def)
next
  case False
  obtain c cs where c: "show_nat (nat i) = c # cs"
    by (cases "show_nat (nat i)") auto
  have "c \<noteq> CHR ''-''" "c \<noteq> CHR ''+''"
    using show_nat_not_sign(1,2) [of "nat i"] by (auto simp: c)
  moreover have "read_digits 0 (c # cs) = Some (nat i)"
    using read_show_nat [of "nat i"] by (simp only: c)
  ultimately show ?thesis
    using False assms by (simp add: ParseInt_def show_int_def c Let_def del: read_digits.simps)
qed

section \<open>Errors\<close>

text \<open>
  An error value: \<open>errors.New\<close> (or \<open>fmt.Errorf\<close> without \<open>%w\<close>), the two context errors, the
  sentinel of the circuit breaker, \<open>fmt.Errorf\<close> with one \<open>%w\<close> (the text before and after
  the wrapped error), and an error of a library: its text, whether it is a \<open>net.Error\<close>,
  what its \<open>Temporary\<close> method says if it has one, and the error it wraps if any.
\<close>

datatype go_error =
    ErrNew string
  | ErrCircuitOpen
  | ErrCanceled
  | ErrDeadlineExceeded
  | ErrWrap string go_error string
  | ErrForeign string bool "bool option" "go_error option"

type_synonym 'a result = "go_error + 'a"

text \<open>The chain that \<open>errors.Is\<close> and \<open>errors.As\<close> walk, outermost error first.\<close>

fun err_chain :: "go_error \<Rightarrow> go_error list" where
  "err_chain (ErrWrap a e b) = ErrWrap a e b # err_chain e"
| "err_chain (ErrForeign s n t (Some e)) = ErrForeign s n t (Some e) # err_chain e"
| "err_chain e = [e]"

definition errors_Is :: "go_error \<Rightarrow> go_error \<Rightarrow> bool" where
  "errors_Is e target \<longleftrightarrow> target \<in> set (err_chain e)"

lemma errors_Is_wrap [simp]:
  "errors_Is (ErrWrap a e b) ErrCircuitOpen = errors_Is e ErrCircuitOpen"
  "errors_Is (ErrWrap a e b) ErrCanceled = errors_Is e ErrCanceled"
  "errors_Is (ErrWrap a e b) ErrDeadlineExceeded = errors_Is e ErrDeadlineExceeded"
  by (auto simp: errors_Is_def)

end
