(* ===== verification/Go_Float64.thy ===== *)
theory Go_Float64
  imports Go_Prelude Complex_Main "HOL-Library.Log_Nat"
begin

text \<open>
  The type float64: the IEEE 754 binary64 values with round-to-nearest-even, on
  rational numbers. A value is a finite number, an infinity or NaN; the sign of zero
  is not represented. The operations are the ones the rate limiter and the retry
  backoff use: comparison, subtraction, multiplication, division, the conversions from
  int64 and to int64, and \<open>math.Pow\<close> of a number that is at least one with an integer
  exponent, by the repeated squaring of Go's implementation.
\<close>

section \<open>Rounding\<close>

definition round_half_even :: "rat \<Rightarrow> int" where
  "round_half_even x =
     (let f = \<lfloor>x\<rfloor>; d = x - of_int f in
      if d < 1 / 2 then f else if 1 / 2 < d then f + 1 else if even f then f else f + 1)"

definition exp2 :: "int \<Rightarrow> rat" where
  "exp2 e = (if 0 \<le> e then 2 ^ nat e else 1 / 2 ^ nat (- e))"

text \<open>The binary exponent of a positive number: \<open>exp2 (binade x) \<le> x < exp2 (binade x + 1)\<close>.\<close>

definition binade :: "rat \<Rightarrow> int" where
  "binade x = (case quotient_of x of (a, b) \<Rightarrow>
     let e = bitlen a - bitlen b in if exp2 e \<le> x then e else e - 1)"

definition grid :: "rat \<Rightarrow> int" where
  "grid x = max (binade \<bar>x\<bar> - 52) (-1074)"

definition round64 :: "rat \<Rightarrow> rat" where
  "round64 x = (if x = 0 then 0
     else of_int (round_half_even (x / exp2 (grid x))) * exp2 (grid x))"

lemma exp2_pos [simp]: "0 < exp2 e"
  by (simp add: exp2_def)

lemma exp2_nz [simp]: "exp2 e \<noteq> 0"
  using exp2_pos [of e] by (rule less_imp_neq [THEN not_sym])

lemma exp2_ge0 [simp]: "0 \<le> exp2 e"
  by (rule less_imp_le) simp

lemma exp2_0 [simp]: "exp2 0 = 1"
  by (simp add: exp2_def)

lemma exp2_powi: "exp2 e = power_int 2 e"
  by (simp add: exp2_def power_int_def power_one_over)

lemma exp2_add: "exp2 (a + b) = exp2 a * exp2 b"
  by (simp add: exp2_powi power_int_add)

lemma exp2_diff: "exp2 (a - b) = exp2 a / exp2 b"
  by (simp add: exp2_powi power_int_diff)

lemma exp2_strict_mono: "strict_mono exp2"
  by (simp add: strict_mono_def exp2_powi power_int_strict_increasing)

lemma exp2_le_iff [simp]: "exp2 a \<le> exp2 b \<longleftrightarrow> a \<le> b"
  using exp2_strict_mono by (rule strict_mono_less_eq)

lemma exp2_less_iff [simp]: "exp2 a < exp2 b \<longleftrightarrow> a < b"
  using exp2_strict_mono by (rule strict_mono_less)

lemma exp2_int: "0 \<le> e \<Longrightarrow> exp2 e = of_int (2 ^ nat e)"
  by (simp add: exp2_def)

lemma bitlen_bracket:
  assumes "0 < (a::int)"
  shows "exp2 (bitlen a - 1) \<le> of_int a" "of_int a < exp2 (bitlen a)"
proof -
  have b: "0 \<le> bitlen a - 1" "0 \<le> bitlen a" using assms by (simp_all add: bitlen_alt_def)
  note bounds = bitlen_bounds [OF assms]
  show "exp2 (bitlen a - 1) \<le> of_int a"
    unfolding exp2_int [OF b(1)] of_int_le_iff using bounds by (rule conjunct1)
  show "of_int a < exp2 (bitlen a)"
    unfolding exp2_int [OF b(2)] of_int_less_iff using bounds by (rule conjunct2)
qed

lemma binade_bracket:
  assumes "0 < x"
  shows "exp2 (binade x) \<le> x" "x < exp2 (binade x + 1)"
proof -
  obtain a b where q: "quotient_of x = (a, b)" by (cases "quotient_of x") auto
  have b: "0 < b" using quotient_of_denom_pos [OF q] .
  have x: "x = of_int a / of_int b" using quotient_of_div [OF q] by simp
  have a: "0 < a" using assms b by (simp add: x zero_less_divide_iff)
  note ba = bitlen_bracket [OF a] and bb = bitlen_bracket [OF b]
  have ob: "0 < (of_int b :: rat)" using b by simp
  have up: "x < exp2 (bitlen a - bitlen b + 1)"
  proof -
    have "x < exp2 (bitlen a) / of_int b" using ba(2) ob by (simp add: x divide_strict_right_mono)
    also have "\<dots> \<le> exp2 (bitlen a) / exp2 (bitlen b - 1)"
      by (rule divide_left_mono) (use bb(1) ob in auto)
    also have "\<dots> = exp2 (bitlen a - bitlen b + 1)" by (simp add: algebra_simps flip: exp2_diff)
    finally show ?thesis .
  qed
  have lo: "exp2 (bitlen a - bitlen b - 1) \<le> x"
  proof -
    have "exp2 (bitlen a - bitlen b - 1) = exp2 (bitlen a - 1) / exp2 (bitlen b)"
      by (simp add: algebra_simps flip: exp2_diff)
    also have "\<dots> \<le> of_int a / of_int b"
      by (rule frac_le) (use ba(1) bb(2) ob a in auto)
    finally show ?thesis by (simp add: x)
  qed
  show "exp2 (binade x) \<le> x" "x < exp2 (binade x + 1)"
    using up lo by (auto simp: binade_def q Let_def)
qed

lemma binade_unique:
  assumes "0 < x" "exp2 e \<le> x" "x < exp2 (e + 1)"
  shows "binade x = e"
proof -
  have "exp2 e < exp2 (binade x + 1)" "exp2 (binade x) < exp2 (e + 1)"
    using binade_bracket [OF assms(1)] assms(2,3) by (blast intro: le_less_trans)+
  then show ?thesis by simp
qed

lemma binade_mono: "0 < x \<Longrightarrow> x \<le> y \<Longrightarrow> binade x \<le> binade y"
proof -
  assume "0 < x" "x \<le> y"
  then have "exp2 (binade x) < exp2 (binade y + 1)"
    using binade_bracket(1) [of x] binade_bracket(2) [of y] by (meson le_less_trans less_le_trans)
  then show ?thesis by simp
qed

lemma round_half_even_int [simp]: "round_half_even (of_int k) = k"
  by (simp add: round_half_even_def)

lemma round_half_even_floor: "round_half_even x \<in> {\<lfloor>x\<rfloor>, \<lfloor>x\<rfloor> + 1}"
  by (auto simp: round_half_even_def Let_def)

lemma round_half_even_mono:
  assumes "x \<le> y"
  shows "round_half_even x \<le> round_half_even y"
proof (cases "\<lfloor>x\<rfloor> = \<lfloor>y\<rfloor>")
  case True
  with assms show ?thesis by (auto simp: round_half_even_def Let_def)
next
  case False
  with floor_mono [OF assms] have "\<lfloor>x\<rfloor> + 1 \<le> \<lfloor>y\<rfloor>" by simp
  with round_half_even_floor [of x] round_half_even_floor [of y] show ?thesis by auto
qed

lemma round_half_even_minus: "round_half_even (- x) = - round_half_even x"
proof (cases "x = of_int \<lfloor>x\<rfloor>")
  case True
  then have "round_half_even x = \<lfloor>x\<rfloor>" "round_half_even (- x) = - \<lfloor>x\<rfloor>"
    using round_half_even_int [of "\<lfloor>x\<rfloor>"] round_half_even_int [of "- \<lfloor>x\<rfloor>"] by simp_all
  then show ?thesis by simp
next
  case False
  have f: "\<lfloor>- x\<rfloor> = - \<lfloor>x\<rfloor> - 1"
  proof (rule floor_unique)
    have "x < of_int \<lfloor>x\<rfloor> + 1" by linarith
    then show "of_int (- \<lfloor>x\<rfloor> - 1) \<le> - x" by simp
    have "of_int \<lfloor>x\<rfloor> < x" using False of_int_floor_le [of x] by linarith
    then show "- x < of_int (- \<lfloor>x\<rfloor> - 1) + 1" by simp
  qed
  show ?thesis by (auto simp: round_half_even_def Let_def f)
qed

section \<open>Rounding is monotone and exact on representable numbers\<close>

lemma round64_0 [simp]: "round64 0 = 0"
  by (simp add: round64_def)

lemma round64_minus: "round64 (- x) = - round64 x"
  by (simp add: round64_def grid_def round_half_even_minus)

lemma round64_mono_pos:
  assumes x: "0 < x" and xy: "x \<le> y"
  shows "round64 x \<le> round64 y"
proof (cases "grid x = grid y")
  case True
  have "x / exp2 (grid x) \<le> y / exp2 (grid x)" by (rule divide_right_mono [OF xy]) simp
  then have "round_half_even (x / exp2 (grid x)) \<le> round_half_even (y / exp2 (grid y))"
    using True round_half_even_mono by simp
  then show ?thesis using x xy True by (simp add: round64_def mult_right_mono)
next
  case False
  have y: "0 < y" using x xy by simp
  from False binade_mono [OF x xy] have bxy: "binade x < binade y" and gy: "grid y = binade y - 52"
    and gx: "grid x < grid y"
    using x y by (auto simp: grid_def max_def split: if_splits)
  define V where "V = exp2 (binade y)"
  have xV: "x \<le> V"
  proof -
    have "x < exp2 (binade x + 1)" using binade_bracket(2) [OF x] .
    also have "\<dots> \<le> V" using bxy by (simp add: V_def)
    finally show ?thesis by simp
  qed
  have "round64 x \<le> V"
  proof -
    have "V / exp2 (grid x) = exp2 (binade y - grid x)" by (simp add: V_def exp2_diff)
    also have "\<dots> = of_int (2 ^ nat (binade y - grid x))" using gx gy by (intro exp2_int) simp
    finally have V: "V / exp2 (grid x) = of_int (2 ^ nat (binade y - grid x))" .
    have "x / exp2 (grid x) \<le> V / exp2 (grid x)" by (rule divide_right_mono [OF xV]) simp
    then have "round_half_even (x / exp2 (grid x)) \<le> 2 ^ nat (binade y - grid x)"
      using round_half_even_mono [of "x / exp2 (grid x)" "V / exp2 (grid x)"]
      by (simp only: V round_half_even_int)
    then have "of_int (round_half_even (x / exp2 (grid x))) \<le> V / exp2 (grid x)"
      by (simp only: V of_int_le_iff)
    then show ?thesis using x by (simp add: round64_def pos_le_divide_eq)
  qed
  also have "V \<le> round64 y"
  proof -
    have V: "V / exp2 (grid y) = of_int (2 ^ 52)"
      by (simp add: V_def gy exp2_int flip: exp2_diff)
    have "V / exp2 (grid y) \<le> y / exp2 (grid y)"
      using binade_bracket(1) [OF y] by (simp add: V_def divide_right_mono)
    then have "2 ^ 52 \<le> round_half_even (y / exp2 (grid y))"
      using round_half_even_mono [of "V / exp2 (grid y)" "y / exp2 (grid y)"]
      by (simp only: V round_half_even_int)
    then have "V / exp2 (grid y) \<le> of_int (round_half_even (y / exp2 (grid y)))"
      by (simp only: V of_int_le_iff)
    then show ?thesis using y by (simp add: round64_def pos_divide_le_eq)
  qed
  finally show ?thesis .
qed

lemma round64_nonneg: "0 \<le> x \<Longrightarrow> 0 \<le> round64 x"
  using round_half_even_mono [of 0 "x / exp2 (grid x)"] round_half_even_int [of 0]
  by (simp add: round64_def zero_le_divide_iff)

lemma round64_mono: "x \<le> y \<Longrightarrow> round64 x \<le> round64 y"
proof -
  assume xy: "x \<le> y"
  consider "0 < x" | "x \<le> 0" "0 \<le> y" | "y < 0" by linarith
  then show ?thesis
  proof cases
    case 1
    then show ?thesis using xy by (rule round64_mono_pos)
  next
    case 2
    then have "0 \<le> round64 (- x)" "0 \<le> round64 y" by (auto intro!: round64_nonneg)
    then show ?thesis by (simp add: round64_minus)
  next
    case 3
    then have "round64 (- y) \<le> round64 (- x)" using xy by (intro round64_mono_pos) auto
    then show ?thesis by (simp add: round64_minus)
  qed
qed

lemma round64_exact:
  assumes "x = of_int m * exp2 g" and "grid x \<le> g"
  shows "round64 x = x"
proof -
  have "x / exp2 (grid x) = of_int m * exp2 (g - grid x)"
    by (simp add: assms(1) exp2_diff)
  also have "\<dots> = of_int (m * 2 ^ nat (g - grid x))"
    using assms(2) by (simp add: exp2_int)
  finally have e: "x / exp2 (grid x) = of_int (m * 2 ^ nat (g - grid x))" .
  then have "of_int (round_half_even (x / exp2 (grid x))) = x / exp2 (grid x)"
    by (simp only: round_half_even_int)
  then show ?thesis by (simp add: round64_def)
qed

lemma grid_le:
  assumes "0 < x" "x < exp2 (g + 53)" "-1074 \<le> g"
  shows "grid x \<le> g"
proof -
  have "exp2 (binade x) < exp2 (g + 53)"
    using binade_bracket(1) [OF assms(1)] assms(2) by (rule le_less_trans)
  then show ?thesis using assms by (simp add: grid_def)
qed

text \<open>An integer below \<open>2\<^sup>5\<^sup>3\<close> is a float64.\<close>

lemma round64_int:
  assumes "\<bar>n\<bar> < 9007199254740992"
  shows "round64 (of_int n) = of_int n"
proof -
  have pos: "round64 (of_int n) = of_int n" if "0 < n" "n < 9007199254740992" for n
  proof (rule round64_exact [where m = n and g = 0])
    have "(of_int n :: rat) < of_int (2 ^ nat 53)" using that by (simp only: of_int_less_iff) simp
    then have "(of_int n :: rat) < exp2 53" using exp2_int [of 53] by simp
    then show "grid (of_int n) \<le> 0" using that by (intro grid_le) auto
    show "of_int n = of_int n * exp2 0" by simp
  qed
  consider "n = 0" | "0 < n" | "n < 0" by linarith
  then show ?thesis
  proof cases
    case 3
    then show ?thesis using pos [of "- n"] assms by (simp add: round64_minus)
  qed (use pos assms in auto)
qed

lemma round64_1 [simp]: "round64 1 = 1"
  using round64_int [of 1] by simp

section \<open>The float64 values and their operations\<close>

datatype float64 = Fin rat | PInf | NInf | NaN

definition max_float :: rat where
  "max_float = (2 ^ 53 - 1) * 2 ^ 971"

definition mk_float :: "rat \<Rightarrow> float64" where
  "mk_float x = (let r = round64 x in
     if max_float < r then PInf else if r < - max_float then NInf else Fin r)"

text \<open>A number that the type holds exactly.\<close>

definition is_float :: "rat \<Rightarrow> bool" where
  "is_float x \<longleftrightarrow> round64 x = x \<and> \<bar>x\<bar> \<le> max_float"

fun flt :: "float64 \<Rightarrow> float64 \<Rightarrow> bool" where
  "flt NaN y = False"
| "flt x NaN = False"
| "flt (Fin a) (Fin b) = (a < b)"
| "flt NInf y = (y \<noteq> NInf)"
| "flt x PInf = (x \<noteq> PInf)"
| "flt x y = False"

definition feq :: "float64 \<Rightarrow> float64 \<Rightarrow> bool" where
  "feq x y \<longleftrightarrow> x \<noteq> NaN \<and> x = y"

definition fle :: "float64 \<Rightarrow> float64 \<Rightarrow> bool" where
  "fle x y \<longleftrightarrow> flt x y \<or> feq x y"

definition inf_of :: "rat \<Rightarrow> float64" where
  "inf_of s = (if 0 < s then PInf else if s < 0 then NInf else NaN)"

fun fneg :: "float64 \<Rightarrow> float64" where
  "fneg (Fin a) = Fin (- a)"
| "fneg PInf = NInf"
| "fneg NInf = PInf"
| "fneg NaN = NaN"

fun fsub :: "float64 \<Rightarrow> float64 \<Rightarrow> float64" where
  "fsub (Fin a) (Fin b) = mk_float (a - b)"
| "fsub NaN y = NaN"
| "fsub x NaN = NaN"
| "fsub (Fin a) y = fneg y"
| "fsub x (Fin b) = x"
| "fsub x y = (if x = y then NaN else x)"

fun fsgn :: "float64 \<Rightarrow> rat" where
  "fsgn (Fin a) = sgn a"
| "fsgn PInf = 1"
| "fsgn NInf = -1"
| "fsgn NaN = 0"

fun fmul :: "float64 \<Rightarrow> float64 \<Rightarrow> float64" where
  "fmul (Fin a) (Fin b) = mk_float (a * b)"
| "fmul x y = (if x = NaN \<or> y = NaN then NaN else inf_of (fsgn x * fsgn y))"

fun fdiv :: "float64 \<Rightarrow> float64 \<Rightarrow> float64" where
  "fdiv (Fin a) (Fin b) = (if b = 0 then inf_of a else mk_float (a / b))"
| "fdiv NaN y = NaN"
| "fdiv x NaN = NaN"
| "fdiv (Fin a) y = Fin 0"
| "fdiv x (Fin b) = inf_of (fsgn x * (if b < 0 then -1 else 1))"
| "fdiv x y = NaN"

text \<open>The conversion \<open>float64(n)\<close> of an int64.\<close>

definition float_of_int :: "int \<Rightarrow> float64" where
  "float_of_int n = mk_float (of_int n)"

text \<open>
  The conversion to int64 truncates. The language leaves the result of a value that does
  not fit to the platform: it is the argument \<open>oob\<close> (amd64 gives \<^const>\<open>min_int64\<close>, arm64
  the nearest representable value).
\<close>

definition rat_trunc :: "rat \<Rightarrow> int" where
  "rat_trunc a = (if 0 \<le> a then \<lfloor>a\<rfloor> else - \<lfloor>- a\<rfloor>)"

fun int64_of_float :: "(float64 \<Rightarrow> int) \<Rightarrow> float64 \<Rightarrow> int" where
  "int64_of_float oob (Fin a) = (if in_i64 (rat_trunc a) then rat_trunc a else oob (Fin a))"
| "int64_of_float oob x = oob x"

lemma max_float_ge1: "1 \<le> max_float"
  by (simp add: max_float_def)

lemma mk_float_exact: "is_float x \<Longrightarrow> mk_float x = Fin x"
  by (auto simp: mk_float_def is_float_def Let_def)

text \<open>Rounding a number that lies between two float64 values stays between them.\<close>

lemma mk_float_between:
  assumes "is_float lo" "is_float hi" "lo \<le> x" "x \<le> hi"
  obtains r where "mk_float x = Fin r" "lo \<le> r" "r \<le> hi" "r = round64 x"
proof -
  have "lo \<le> round64 x" "round64 x \<le> hi"
    using round64_mono [OF assms(3)] round64_mono [OF assms(4)] assms(1,2)
    by (simp_all add: is_float_def)
  moreover have "mk_float x = Fin (round64 x)"
    using calculation assms(1,2) by (auto simp: mk_float_def is_float_def Let_def)
  ultimately show ?thesis using that by blast
qed

lemma is_float_0 [simp]: "is_float 0"
  using max_float_ge1 by (simp add: is_float_def)

lemma is_float_1 [simp]: "is_float 1"
  using max_float_ge1 by (simp add: is_float_def)

section \<open>math.Pow with an integer exponent\<close>

text \<open>
  \<open>math.Frexp\<close> of a positive number: the fraction in \<open>[1/2, 1)\<close> and the exponent. The
  loop multiplies the squares selected by the bits of the exponent, each product rounded,
  with the powers of two kept apart, and stops early where the exponent is out of reach.
\<close>

definition Frexp :: "rat \<Rightarrow> rat \<times> int" where
  "Frexp x = (let e = binade x + 1 in (x / exp2 e, e))"

fun pow_loop :: "nat \<Rightarrow> rat \<Rightarrow> int \<Rightarrow> rat \<Rightarrow> int \<Rightarrow> rat \<times> int" where
  "pow_loop i a1 ae x1 xe =
     (if i = 0 then (a1, ae)
      else if xe < -4096 \<or> 4096 < xe then (a1, ae + xe)
      else
        let (a1', ae') = (if odd i then (round64 (a1 * x1), ae + xe) else (a1, ae));
            x2 = round64 (x1 * x1)
        in if x2 < 1 / 2 then pow_loop (i div 2) a1' ae' (x2 + x2) (2 * xe - 1)
           else pow_loop (i div 2) a1' ae' x2 (2 * xe))"

declare pow_loop.simps [simp del]

text \<open>\<open>math.Pow(x, n)\<close> for a base that is positive, infinite or NaN and a natural exponent.\<close>

definition math_Pow :: "float64 \<Rightarrow> nat \<Rightarrow> float64" where
  "math_Pow x n =
     (if n = 0 \<or> x = Fin 1 then Fin 1
      else if n = 1 then x
      else case x of Fin a \<Rightarrow>
          (case Frexp a of (x1, xe) \<Rightarrow>
            (case pow_loop n 1 0 x1 xe of (a1, ae) \<Rightarrow> mk_float (a1 * exp2 ae)))
        | y \<Rightarrow> y)"

end
