(* ===== verification/Go_Time.thy ===== *)
theory Go_Time
  imports Go_Prelude
begin

text \<open>
  The type \<open>time.Time\<close> as the number of nanoseconds since the start of year 1 (UTC), whose
  zero is the zero value of the type, and \<open>time.Duration\<close> as a number of nanoseconds that
  fits in an int64. Seconds are kept in an int64, as in package time.
\<close>

type_synonym time = int
type_synonym duration = int

definition Second :: duration where "Second = 1000000000"
definition Minute :: duration where "Minute = 60 * Second"
definition Hour :: duration where "Hour = 60 * Minute"

definition unix_to_internal :: int where
  "unix_to_internal = 62135596800"

definition time_IsZero :: "time \<Rightarrow> bool" where
  "time_IsZero t \<longleftrightarrow> t = 0"

definition time_norm :: "int \<Rightarrow> time" where
  "time_norm t = i64 (t div Second) * Second + t mod Second"

definition time_Unix :: "int \<Rightarrow> time" where
  "time_Unix sec = i64 (sec + unix_to_internal) * Second"

definition time_to_unix :: "time \<Rightarrow> int" where
  "time_to_unix t = i64 (t div Second - unix_to_internal)"

definition time_Add :: "time \<Rightarrow> duration \<Rightarrow> time" where
  "time_Add t d = time_norm (t + d)"

text \<open>\<open>Time.Sub\<close> saturates at the bounds of a duration.\<close>

definition time_Sub :: "time \<Rightarrow> time \<Rightarrow> duration" where
  "time_Sub t u = max min_int64 (min max_int64 (t - u))"

definition time_After :: "time \<Rightarrow> time \<Rightarrow> bool" where
  "time_After t u \<longleftrightarrow> u < t"

lemmas duration_units = Second_def Minute_def Hour_def

lemma time_Sub_mono: "t \<le> t' \<Longrightarrow> time_Sub t u \<le> time_Sub t' u"
  by (auto simp: time_Sub_def)

lemma time_Sub_less: "t - u < d \<Longrightarrow> min_int64 < d \<Longrightarrow> time_Sub t u < d"
  by (auto simp: time_Sub_def)

lemma time_Sub_ge: "d \<le> t - u \<Longrightarrow> d \<le> max_int64 \<Longrightarrow> d \<le> time_Sub t u"
  by (auto simp: time_Sub_def)

lemma time_Sub_less_iff:
  "min_int64 < d \<Longrightarrow> d \<le> max_int64 \<Longrightarrow> time_Sub t u < d \<longleftrightarrow> t - u < d"
  by (auto simp: time_Sub_def)

text \<open>The seconds of a Unix time come back from the time it denotes.\<close>

lemma time_to_unix_Unix: "in_i64 sec \<Longrightarrow> time_to_unix (time_Unix sec) = sec"
  by (simp add: time_to_unix_def time_Unix_def Second_def i64_id)

text \<open>The instants a clock shows: after the epoch and far from the bounds of the type.\<close>

definition clock_time :: "time \<Rightarrow> bool" where
  "clock_time t \<longleftrightarrow> (unix_to_internal + 1) * Second \<le> t \<and> t \<le> 4611686018427387904 * Second"

lemma time_Add_clock:
  assumes "clock_time t" "0 \<le> d" "d \<le> max_int64"
  shows "time_Add t d = t + d"
proof -
  have "0 \<le> t + d" "t + d \<le> 9223372036854775807 * Second"
    using assms by (auto simp: clock_time_def Second_def max_int64_def unix_to_internal_def)
  then have "0 \<le> (t + d) div Second" "(t + d) div Second \<le> 9223372036854775807"
    by (auto simp: Second_def pos_imp_zdiv_nonneg_iff)
  then have "i64 ((t + d) div Second) = (t + d) div Second"
    by (intro i64_small) auto
  then show ?thesis by (simp add: time_Add_def time_norm_def)
qed

end
