(* ===== verification/Go_Sort.thy ===== *)
theory Go_Sort
  imports Go_Prelude
begin

text \<open>
  \<open>sort.Slice\<close>. The package promises a permutation of the slice in which no later element
  is less than an earlier one, and leaves the order of equivalent elements open; the model
  is an insertion sort. The locale states when a comparison function is a strict order on
  keys, and shows there that every permutation the package may return carries the same
  sequence of keys, so that what the code reads off the keys does not depend on the choice.
\<close>

fun insert_by :: "('a \<Rightarrow> 'a \<Rightarrow> bool) \<Rightarrow> 'a \<Rightarrow> 'a list \<Rightarrow> 'a list" where
  "insert_by lt x [] = [x]"
| "insert_by lt x (y # ys) = (if lt y x then y # insert_by lt x ys else x # y # ys)"

fun sort_Slice :: "('a \<Rightarrow> 'a \<Rightarrow> bool) \<Rightarrow> 'a list \<Rightarrow> 'a list" where
  "sort_Slice lt [] = []"
| "sort_Slice lt (x # xs) = insert_by lt x (sort_Slice lt xs)"

text \<open>What \<open>sort.Slice\<close> may leave in the slice.\<close>

definition slice_sorted :: "('a \<Rightarrow> 'a \<Rightarrow> bool) \<Rightarrow> 'a list \<Rightarrow> 'a list \<Rightarrow> bool" where
  "slice_sorted lt xs ys \<longleftrightarrow> mset ys = mset xs \<and> sorted_wrt (\<lambda>a b. \<not> lt b a) ys"

lemma mset_insert_by [simp]: "mset (insert_by lt x ys) = add_mset x (mset ys)"
  by (induction ys) auto

lemma mset_sort_Slice [simp]: "mset (sort_Slice lt xs) = mset xs"
  by (induction xs) auto

lemma set_sort_Slice [simp]: "set (sort_Slice lt xs) = set xs"
  by (metis mset_sort_Slice set_mset_mset)

lemma length_sort_Slice [simp]: "length (sort_Slice lt xs) = length xs"
  by (metis mset_sort_Slice size_mset)

locale keyed_less =
  fixes lt :: "'a \<Rightarrow> 'a \<Rightarrow> bool"
    and key :: "'a \<Rightarrow> 'k::linorder"
  assumes lt_iff: "lt a b \<longleftrightarrow> key a < key b"
begin

lemma insert_by_insort: "insert_by lt x ys = insort_key key x ys"
  by (induction ys) (auto simp: lt_iff not_le)

lemma sort_Slice_eq: "sort_Slice lt xs = sort_key key xs"
  by (induction xs) (simp_all add: insert_by_insort)

lemma sort_Slice_sorted: "slice_sorted lt xs (sort_Slice lt xs)"
proof -
  have "sorted (map key (sort_key key xs))" by (rule sorted_sort_key)
  then show ?thesis
    by (simp add: slice_sorted_def sort_Slice_eq sorted_map lt_iff not_less)
qed

lemma slice_sorted_keys:
  assumes "slice_sorted lt xs ys"
  shows "map key ys = map key (sort_Slice lt xs)"
proof (rule properties_for_sort [symmetric, THEN trans])
  show "mset (map key ys) = mset (map key xs)"
    using assms by (simp add: slice_sorted_def)
  show "sorted (map key ys)"
    using assms by (simp add: slice_sorted_def sorted_map lt_iff not_less)
  show "sort (map key xs) = map key (sort_Slice lt xs)"
    by (rule properties_for_sort) (simp_all add: sort_Slice_eq)
qed

end

end
