(* ===== verification/Go_Sha256.thy ===== *)
theory Go_Sha256
  imports Go_Prelude
begin

unbundle bit_operations_syntax

text \<open>
  SHA-256 (package crypto/sha256) on byte strings: padding to whole 64-byte blocks, the
  message schedule, the compression of a block into eight 32-bit words, and the digest as
  32 bytes with their lower-case hexadecimal form. The constants are the first 32 bits of
  the fractional parts of the cube roots of the first 64 primes, and of the square roots
  of the first eight.
\<close>

type_synonym w32 = "32 word"

definition sha_K :: "w32 list" where
  "sha_K =
    [1116352408, 1899447441, 3049323471, 3921009573,
     961987163, 1508970993, 2453635748, 2870763221,
     3624381080, 310598401, 607225278, 1426881987,
     1925078388, 2162078206, 2614888103, 3248222580,
     3835390401, 4022224774, 264347078, 604807628,
     770255983, 1249150122, 1555081692, 1996064986,
     2554220882, 2821834349, 2952996808, 3210313671,
     3336571891, 3584528711, 113926993, 338241895,
     666307205, 773529912, 1294757372, 1396182291,
     1695183700, 1986661051, 2177026350, 2456956037,
     2730485921, 2820302411, 3259730800, 3345764771,
     3516065817, 3600352804, 4094571909, 275423344,
     430227734, 506948616, 659060556, 883997877,
     958139571, 1322822218, 1537002063, 1747873779,
     1955562222, 2024104815, 2227730452, 2361852424,
     2428436474, 2756734187, 3204031479, 3329325298]"

definition sha_H0 :: "w32 list" where
  "sha_H0 =
    [1779033703, 3144134277, 1013904242, 2773480762,
     1359893119, 2600822924, 528734635, 1541459225]"

definition rotr :: "nat \<Rightarrow> w32 \<Rightarrow> w32" where
  "rotr n x = drop_bit n x OR push_bit (32 - n) x"

definition sha_Ch :: "w32 \<Rightarrow> w32 \<Rightarrow> w32 \<Rightarrow> w32" where
  "sha_Ch x y z = (x AND y) XOR (NOT x AND z)"

definition sha_Maj :: "w32 \<Rightarrow> w32 \<Rightarrow> w32 \<Rightarrow> w32" where
  "sha_Maj x y z = (x AND y) XOR (x AND z) XOR (y AND z)"

definition Sigma0 :: "w32 \<Rightarrow> w32" where
  "Sigma0 x = rotr 2 x XOR rotr 13 x XOR rotr 22 x"

definition Sigma1 :: "w32 \<Rightarrow> w32" where
  "Sigma1 x = rotr 6 x XOR rotr 11 x XOR rotr 25 x"

definition sigma0 :: "w32 \<Rightarrow> w32" where
  "sigma0 x = rotr 7 x XOR rotr 18 x XOR drop_bit 3 x"

definition sigma1 :: "w32 \<Rightarrow> w32" where
  "sigma1 x = rotr 17 x XOR rotr 19 x XOR drop_bit 10 x"

text \<open>
  The schedule is built with the newest word first: the next word is made from the ones
  2, 7, 15 and 16 places before it.
\<close>

fun extend_schedule :: "nat \<Rightarrow> w32 list \<Rightarrow> w32 list" where
  "extend_schedule 0 ws = ws"
| "extend_schedule (Suc n) ws =
     extend_schedule n ((sigma1 (ws ! 1) + ws ! 6 + sigma0 (ws ! 14) + ws ! 15) # ws)"

definition schedule :: "w32 list \<Rightarrow> w32 list" where
  "schedule block = rev (extend_schedule 48 (rev block))"

type_synonym sha_state = "w32 \<times> w32 \<times> w32 \<times> w32 \<times> w32 \<times> w32 \<times> w32 \<times> w32"

fun sha_round :: "sha_state \<Rightarrow> w32 \<times> w32 \<Rightarrow> sha_state" where
  "sha_round (a, b, c, d, e, f, g, h) (k, w) =
     (let t1 = h + Sigma1 e + sha_Ch e f g + k + w;
          t2 = Sigma0 a + sha_Maj a b c
      in (t1 + t2, a, b, c, d + t1, e, f, g))"

fun sha_tuple :: "w32 list \<Rightarrow> sha_state" where
  "sha_tuple [a, b, c, d, e, f, g, h] = (a, b, c, d, e, f, g, h)"
| "sha_tuple hs = (0, 0, 0, 0, 0, 0, 0, 0)"

fun sha_list :: "sha_state \<Rightarrow> w32 list" where
  "sha_list (a, b, c, d, e, f, g, h) = [a, b, c, d, e, f, g, h]"

definition compress :: "w32 list \<Rightarrow> w32 list \<Rightarrow> w32 list" where
  "compress hs block =
     map2 (+) hs (sha_list (foldl sha_round (sha_tuple hs) (zip sha_K (schedule block))))"

definition byte_word :: "char \<Rightarrow> w32" where
  "byte_word c = of_char c"

fun bytes_to_words :: "char list \<Rightarrow> w32 list" where
  "bytes_to_words (a # b # c # d # cs) =
     (push_bit 24 (byte_word a) OR push_bit 16 (byte_word b) OR push_bit 8 (byte_word c)
        OR byte_word d) # bytes_to_words cs"
| "bytes_to_words cs = []"

definition word_bytes :: "w32 \<Rightarrow> char list" where
  "word_bytes w = map (\<lambda>i. char_of (uint (drop_bit i w))) [24, 16, 8, 0]"

text \<open>The length in bits, as eight bytes with the most significant first.\<close>

definition be64 :: "int \<Rightarrow> char list" where
  "be64 n = map (\<lambda>i. char_of (drop_bit i n)) [56, 48, 40, 32, 24, 16, 8, 0]"

definition sha_pad :: "string \<Rightarrow> char list" where
  "sha_pad msg = msg @ [char_of (128::nat)]
     @ replicate ((119 - length msg mod 64) mod 64) (char_of (0::nat)) @ be64 (8 * int (length msg))"

fun blocks :: "nat \<Rightarrow> w32 list \<Rightarrow> w32 list list" where
  "blocks 0 ws = []"
| "blocks (Suc n) ws = take 16 ws # blocks n (drop 16 ws)"

definition sha256 :: "string \<Rightarrow> char list" where
  "sha256 msg =
     (let ws = bytes_to_words (sha_pad msg)
      in concat (map word_bytes (foldl compress sha_H0 (blocks (length ws div 16) ws))))"

definition hex_char :: "nat \<Rightarrow> char" where
  "hex_char d = (if d < 10 then char_of (d + 48) else char_of (d + 87))"

definition hex_string :: "char list \<Rightarrow> string" where
  "hex_string bs =
     concat (map (\<lambda>c. [hex_char (of_char c div 16), hex_char (of_char c mod 16)]) bs)"

lemma length_sha_list [simp]: "length (sha_list s) = 8"
  by (induction s rule: sha_list.induct) simp

lemma length_compress: "length hs = 8 \<Longrightarrow> length (compress hs block) = 8"
  by (simp add: compress_def)

lemma length_foldl_compress: "length hs = 8 \<Longrightarrow> length (foldl compress hs bs) = 8"
  by (induction bs arbitrary: hs) (simp_all add: length_compress)

lemma length_concat_const:
  "(\<And>x. x \<in> set xs \<Longrightarrow> length (f x) = n) \<Longrightarrow> length (concat (map f xs)) = n * length xs"
  by (induction xs) auto

lemma length_sha256 [simp]: "length (sha256 msg) = 32"
proof -
  have "length sha_H0 = 8" by (simp add: sha_H0_def)
  from length_foldl_compress [OF this]
  have "length (foldl compress sha_H0 bs) = 8" for bs .
  moreover have "length (word_bytes w) = 4" for w by (simp add: word_bytes_def)
  ultimately show ?thesis
    by (simp add: sha256_def Let_def length_concat_const [where n = 4])
qed

lemma length_hex_string [simp]: "length (hex_string bs) = 2 * length bs"
  unfolding hex_string_def by (rule length_concat_const) simp

text \<open>The padded message fills whole blocks.\<close>

lemma length_sha_pad: "64 dvd length (sha_pad msg)"
proof -
  have "64 dvd n + ((119 - n mod 64) mod 64 + 9)" for n :: nat
  proof -
    have k: "n mod 64 + ((119 - n mod 64) mod 64 + 9) \<in> {64, 64 * 2}"
    proof (cases "n mod 64 \<le> 55")
      case True
      then have "119 - n mod 64 = 64 + (55 - n mod 64)" by simp
      then have "(119 - n mod 64) mod 64 = (55 - n mod 64) mod 64" by (simp only: mod_add_self1)
      with True show ?thesis by simp
    next
      case False
      then have "(119 - n mod 64) mod 64 = 119 - n mod 64" using mod_less_divisor [of 64 n] by simp
      with False show ?thesis using mod_less_divisor [of 64 n] by (simp add: less_Suc_eq_le)
    qed
    then have "64 dvd n mod 64 + ((119 - n mod 64) mod 64 + 9)" by (metis dvd_refl dvd_triv_left insertE singletonD)
    then have "64 dvd 64 * (n div 64) + (n mod 64 + ((119 - n mod 64) mod 64 + 9))" by (rule dvd_add [OF dvd_triv_left])
    then show ?thesis by (metis add.assoc mult_div_mod_eq)
  qed
  moreover have "length (sha_pad msg) = length msg + ((119 - length msg mod 64) mod 64 + 9)"
    by (simp add: sha_pad_def be64_def)
  ultimately show ?thesis by (simp only:)
qed

end
