(* ===== verification/Go_Json.thy ===== *)
theory Go_Json
  imports Go_Prelude
begin

text \<open>
  Package encoding/json, as far as the program uses it: the reader of a JSON text into a
  tree, with the rules of the standard decoder (surrogate pairs, the replacement of invalid
  UTF-8, at most ten thousand nested values), and the writer of strings, integers and objects
  with HTML escaping. A text is a list of bytes.
\<close>

section \<open>UTF-8\<close>

definition byte :: "char \<Rightarrow> nat" where
  "byte c = of_char c"

definition continuation :: "char \<Rightarrow> bool" where
  "continuation c \<longleftrightarrow> 128 \<le> byte c \<and> byte c < 192"

text \<open>The length of the well-formed sequence at the head of a text; none for an invalid byte.\<close>

fun utf8_len :: "string \<Rightarrow> nat option" where
  "utf8_len [] = None"
| "utf8_len (a # s) =
     (let n = byte a in
      if n < 128 then Some 1
      else if 194 \<le> n \<and> n < 224 then
        (case s of b # _ \<Rightarrow> if continuation b then Some 2 else None | _ \<Rightarrow> None)
      else if 224 \<le> n \<and> n < 240 then
        (case s of b # c # _ \<Rightarrow>
            if continuation b \<and> continuation c \<and> (n = 224 \<longrightarrow> 160 \<le> byte b) \<and> (n = 237 \<longrightarrow> byte b < 160)
            then Some 3 else None
          | _ \<Rightarrow> None)
      else if 240 \<le> n \<and> n < 245 then
        (case s of b # c # d # _ \<Rightarrow>
            if continuation b \<and> continuation c \<and> continuation d \<and> (n = 240 \<longrightarrow> 144 \<le> byte b) \<and>
               (n = 244 \<longrightarrow> byte b < 144)
            then Some 4 else None
          | _ \<Rightarrow> None)
      else None)"

definition replacement_char :: string where
  "replacement_char = [CHR 0xEF, CHR 0xBF, CHR 0xBD]"

text \<open>The encoding of a code point that is not a surrogate.\<close>

definition utf8_encode :: "nat \<Rightarrow> string" where
  "utf8_encode r =
     (if r < 128 then [char_of r]
      else if r < 2048 then [char_of (192 + r div 64), char_of (128 + r mod 64)]
      else if r < 65536 then
        [char_of (224 + r div 4096), char_of (128 + r div 64 mod 64), char_of (128 + r mod 64)]
      else [char_of (240 + r div 262144), char_of (128 + r div 4096 mod 64),
            char_of (128 + r div 64 mod 64), char_of (128 + r mod 64)])"

section \<open>Reading strings\<close>

definition hex_val :: "char \<Rightarrow> nat option" where
  "hex_val c = (let n = byte c in
     if 48 \<le> n \<and> n \<le> 57 then Some (n - 48)
     else if 97 \<le> n \<and> n \<le> 102 then Some (n - 87)
     else if 65 \<le> n \<and> n \<le> 70 then Some (n - 55) else None)"

fun hex4 :: "string \<Rightarrow> nat option" where
  "hex4 (a # b # c # d # s) =
     (case (hex_val a, hex_val b, hex_val c, hex_val d) of
        (Some w, Some x, Some y, Some z) \<Rightarrow> Some (((w * 16 + x) * 16 + y) * 16 + z)
      | _ \<Rightarrow> None)"
| "hex4 s = None"

text \<open>The code unit of an escape \<open>\u\<close> at the head of a text.\<close>

fun getu4 :: "string \<Rightarrow> nat option" where
  "getu4 (a # b # s) = (if a = CHR 0x5C \<and> b = CHR ''u'' then hex4 s else None)"
| "getu4 s = None"

definition surrogate :: "nat \<Rightarrow> bool" where
  "surrogate r \<longleftrightarrow> 55296 \<le> r \<and> r < 57344"

text \<open>\<open>utf16.DecodeRune\<close>: the code point of a pair, if it is one.\<close>

definition decode_pair :: "nat \<Rightarrow> nat \<Rightarrow> nat option" where
  "decode_pair r1 r2 =
     (if 55296 \<le> r1 \<and> r1 < 56320 \<and> 56320 \<le> r2 \<and> r2 < 57344
      then Some ((r1 - 55296) * 1024 + (r2 - 56320) + 65536) else None)"

definition escape_of :: "char \<Rightarrow> char option" where
  "escape_of c =
     (if c = CHR 0x22 \<or> c = CHR 0x5C \<or> c = CHR ''/'' then Some c
      else if c = CHR ''b'' then Some (CHR 0x08)
      else if c = CHR ''f'' then Some (CHR 0x0C)
      else if c = CHR ''n'' then Some (CHR 0x0A)
      else if c = CHR ''r'' then Some (CHR 0x0D)
      else if c = CHR ''t'' then Some (CHR 0x09) else None)"

definition cons_fst :: "string \<Rightarrow> (string \<times> string) option \<Rightarrow> (string \<times> string) option" where
  "cons_fst p r = map_option (\<lambda>(s, rest). (p @ s, rest)) r"

text \<open>What follows the opening quote: the string, and the text after its closing quote.\<close>

function unquote :: "string \<Rightarrow> (string \<times> string) option" where
  "unquote s =
     (case s of [] \<Rightarrow> None
      | c # r \<Rightarrow>
        if c = CHR 0x22 then Some ([], r)
        else if c = CHR 0x5C then
          (case r of [] \<Rightarrow> None
           | e # r1 \<Rightarrow>
             if e = CHR ''u'' then
               (case hex4 r1 of None \<Rightarrow> None
                | Some u \<Rightarrow>
                    if \<not> surrogate u then cons_fst (utf8_encode u) (unquote (drop 4 r1))
                    else case getu4 (drop 4 r1) of
                        None \<Rightarrow> cons_fst replacement_char (unquote (drop 4 r1))
                      | Some u2 \<Rightarrow>
                          (case decode_pair u u2 of
                             None \<Rightarrow> cons_fst replacement_char (unquote (drop 4 r1))
                           | Some p \<Rightarrow> cons_fst (utf8_encode p) (unquote (drop 10 r1))))
             else (case escape_of e of None \<Rightarrow> None | Some x \<Rightarrow> cons_fst [x] (unquote r1)))
        else if byte c < 32 then None
        else if byte c < 128 then cons_fst [c] (unquote r)
        else (case utf8_len s of
            None \<Rightarrow> cons_fst replacement_char (unquote r)
          | Some n \<Rightarrow> cons_fst (c # take (n - 1) r) (unquote (drop (n - 1) r))))"
  by pat_completeness auto
termination by (relation "measure length") auto

declare unquote.simps [simp del]

section \<open>Reading values\<close>

datatype json =
    JNull | JBool bool | JNum string | JStr string | JArr "json list" | JObj "(string \<times> json) list"

definition is_ws :: "char \<Rightarrow> bool" where
  "is_ws c \<longleftrightarrow> c = CHR '' '' \<or> c = CHR 0x09 \<or> c = CHR 0x0A \<or> c = CHR 0x0D"

definition skip_ws :: "string \<Rightarrow> string" where
  "skip_ws s = dropWhile is_ws s"

definition is_digit :: "char \<Rightarrow> bool" where
  "is_digit c \<longleftrightarrow> digit_val c \<noteq> None"

text \<open>The parts of a number: the digits after the point and the exponent may be missing.\<close>

definition read_int_part :: "string \<Rightarrow> (string \<times> string) option" where
  "read_int_part s =
     (case s of [] \<Rightarrow> None
      | c # r \<Rightarrow> if c = CHR ''0'' then Some ([c], r)
          else if is_digit c then Some (takeWhile is_digit s, dropWhile is_digit s) else None)"

definition read_frac :: "string \<Rightarrow> (string \<times> string) option" where
  "read_frac s =
     (case s of c # r \<Rightarrow>
        if c = CHR ''.'' then
          (if takeWhile is_digit r = [] then None else Some (c # takeWhile is_digit r, dropWhile is_digit r))
        else Some ([], s)
      | [] \<Rightarrow> Some ([], s))"

definition read_exp :: "string \<Rightarrow> (string \<times> string) option" where
  "read_exp s =
     (case s of c # r \<Rightarrow>
        if c = CHR ''e'' \<or> c = CHR ''E'' then
          (let (sg, r1) = (case r of d # r' \<Rightarrow> if d = CHR ''+'' \<or> d = CHR ''-'' then ([d], r') else ([], r)
                | [] \<Rightarrow> ([], r))
           in if takeWhile is_digit r1 = [] then None
              else Some (c # sg @ takeWhile is_digit r1, dropWhile is_digit r1))
        else Some ([], s)
      | [] \<Rightarrow> Some ([], s))"

definition read_number :: "string \<Rightarrow> (string \<times> string) option" where
  "read_number s =
     (let (sg, s1) = (case s of c # r \<Rightarrow> if c = CHR ''-'' then ([c], r) else ([], s) | [] \<Rightarrow> ([], s)) in
      case read_int_part s1 of None \<Rightarrow> None
      | Some (i, s2) \<Rightarrow> (case read_frac s2 of None \<Rightarrow> None
        | Some (f, s3) \<Rightarrow> (case read_exp s3 of None \<Rightarrow> None
          | Some (e, s4) \<Rightarrow> Some (sg @ i @ f @ e, s4))))"

definition max_nesting :: nat where
  "max_nesting = 10000"

definition strip_prefix :: "string \<Rightarrow> string \<Rightarrow> string option" where
  "strip_prefix p s = (if HasPrefix s p then Some (drop (length p) s) else None)"

text \<open>
  The value at the head of a text and the text after it. The first argument bounds the
  number of calls; one more than the length of the text is enough.
\<close>

fun read_value :: "nat \<Rightarrow> nat \<Rightarrow> string \<Rightarrow> (json \<times> string) option"
  and read_members :: "nat \<Rightarrow> nat \<Rightarrow> string \<Rightarrow> ((string \<times> json) list \<times> string) option"
  and read_elements :: "nat \<Rightarrow> nat \<Rightarrow> string \<Rightarrow> (json list \<times> string) option"
where
  "read_value 0 d s = None"
| "read_value (Suc f) d s =
     (case skip_ws s of [] \<Rightarrow> None
      | c # r \<Rightarrow>
        if c = CHR ''{'' then
          (if max_nesting \<le> d then None
           else case strip_prefix ''}'' (skip_ws r) of
               Some r' \<Rightarrow> Some (JObj [], r')
             | None \<Rightarrow> map_option (\<lambda>(ms, r'). (JObj ms, r')) (read_members f (d + 1) r))
        else if c = CHR ''['' then
          (if max_nesting \<le> d then None
           else case strip_prefix '']'' (skip_ws r) of
               Some r' \<Rightarrow> Some (JArr [], r')
             | None \<Rightarrow> map_option (\<lambda>(es, r'). (JArr es, r')) (read_elements f (d + 1) r))
        else if c = CHR 0x22 then map_option (\<lambda>(x, r'). (JStr x, r')) (unquote r)
        else if c = CHR ''t'' then map_option (\<lambda>r'. (JBool True, r')) (strip_prefix ''rue'' r)
        else if c = CHR ''f'' then map_option (\<lambda>r'. (JBool False, r')) (strip_prefix ''alse'' r)
        else if c = CHR ''n'' then map_option (\<lambda>r'. (JNull, r')) (strip_prefix ''ull'' r)
        else map_option (\<lambda>(x, r'). (JNum x, r')) (read_number (c # r)))"
| "read_members 0 d s = None"
| "read_members (Suc f) d s =
     (case strip_prefix [CHR 0x22] (skip_ws s) of None \<Rightarrow> None
      | Some r \<Rightarrow> (case unquote r of None \<Rightarrow> None
        | Some (k, r1) \<Rightarrow> (case strip_prefix '':'' (skip_ws r1) of None \<Rightarrow> None
          | Some r2 \<Rightarrow> (case read_value f d r2 of None \<Rightarrow> None
            | Some (v, r3) \<Rightarrow>
                (case strip_prefix ''}'' (skip_ws r3) of
                   Some r4 \<Rightarrow> Some ([(k, v)], r4)
                 | None \<Rightarrow> (case strip_prefix '','' (skip_ws r3) of None \<Rightarrow> None
                     | Some r4 \<Rightarrow> map_option (\<lambda>(ms, r'). ((k, v) # ms, r')) (read_members f d r4)))))))"
| "read_elements 0 d s = None"
| "read_elements (Suc f) d s =
     (case read_value f d s of None \<Rightarrow> None
      | Some (v, r3) \<Rightarrow>
          (case strip_prefix '']'' (skip_ws r3) of
             Some r4 \<Rightarrow> Some ([v], r4)
           | None \<Rightarrow> (case strip_prefix '','' (skip_ws r3) of None \<Rightarrow> None
               | Some r4 \<Rightarrow> map_option (\<lambda>(es, r'). (v # es, r')) (read_elements f d r4))))"

declare read_value.simps(2) [simp del] read_members.simps(2) [simp del] read_elements.simps(2) [simp del]

text \<open>A whole text: one value between white space.\<close>

definition json_Unmarshal :: "string \<Rightarrow> json option" where
  "json_Unmarshal data =
     (case read_value (length data + 1) 0 data of
        Some (v, rest) \<Rightarrow> if skip_ws rest = [] then Some v else None
      | None \<Rightarrow> None)"

text \<open>The value of a key in an object decoded into a map: the last one given.\<close>

definition json_lookup :: "(string \<times> json) list \<Rightarrow> string \<Rightarrow> json option" where
  "json_lookup ms k = map_of (rev ms) k"

text \<open>Decoding into an int64 and into a string that holds a value; \<open>null\<close> changes nothing.\<close>

fun decode_int64 :: "int \<Rightarrow> json \<Rightarrow> int option" where
  "decode_int64 old JNull = Some old"
| "decode_int64 old (JNum s) = ParseInt s"
| "decode_int64 old v = None"

fun decode_string :: "string \<Rightarrow> json \<Rightarrow> string option" where
  "decode_string old JNull = Some old"
| "decode_string old (JStr s) = Some s"
| "decode_string old v = None"

section \<open>Writing\<close>

definition hex_digit_char :: "nat \<Rightarrow> char" where
  "hex_digit_char n = (if n < 10 then char_of (n + 48) else char_of (n + 87))"

definition html_safe :: "char \<Rightarrow> bool" where
  "html_safe c \<longleftrightarrow> 32 \<le> byte c \<and> byte c < 128 \<and>
     c \<notin> {CHR 0x22, CHR 0x5C, CHR ''<'', CHR ''>'', CHR ''&''}"

definition escape_char :: "char \<Rightarrow> string" where
  "escape_char c =
     (if c = CHR 0x22 \<or> c = CHR 0x5C then [CHR 0x5C, c]
      else if c = CHR 0x08 then [CHR 0x5C, CHR ''b'']
      else if c = CHR 0x0C then [CHR 0x5C, CHR ''f'']
      else if c = CHR 0x0A then [CHR 0x5C, CHR ''n'']
      else if c = CHR 0x0D then [CHR 0x5C, CHR ''r'']
      else if c = CHR 0x09 then [CHR 0x5C, CHR ''t'']
      else [CHR 0x5C, CHR ''u'', CHR ''0'', CHR ''0'', hex_digit_char (byte c div 16), hex_digit_char (byte c mod 16)])"

definition line_separator :: "string \<Rightarrow> string" where
  "line_separator s = (if s = [CHR 0xE2, CHR 0x80, CHR 0xA8] then CHR 0x5C # ''u2028''
     else if s = [CHR 0xE2, CHR 0x80, CHR 0xA9] then CHR 0x5C # ''u2029'' else s)"

function escape_json :: "string \<Rightarrow> string" where
  "escape_json s =
     (case s of [] \<Rightarrow> []
      | c # r \<Rightarrow>
        if byte c < 128 then (if html_safe c then [c] else escape_char c) @ escape_json r
        else case utf8_len s of
            None \<Rightarrow> CHR 0x5C # ''ufffd'' @ escape_json r
          | Some n \<Rightarrow> line_separator (c # take (n - 1) r) @ escape_json (drop (n - 1) r))"
  by pat_completeness auto
termination by (relation "measure length") auto

declare escape_json.simps [simp del]

fun Marshal_json :: "json \<Rightarrow> string"
  and Marshal_elements :: "json list \<Rightarrow> string"
  and Marshal_members :: "(string \<times> json) list \<Rightarrow> string"
where
  "Marshal_json JNull = ''null''"
| "Marshal_json (JBool b) = (if b then ''true'' else ''false'')"
| "Marshal_json (JNum s) = s"
| "Marshal_json (JStr s) = CHR 0x22 # escape_json s @ [CHR 0x22]"
| "Marshal_json (JArr es) = ''['' @ Marshal_elements es @ '']''"
| "Marshal_json (JObj ms) = ''{'' @ Marshal_members ms @ ''}''"
| "Marshal_elements [] = []"
| "Marshal_elements [v] = Marshal_json v"
| "Marshal_elements (v # w # es) = Marshal_json v @ '','' @ Marshal_elements (w # es)"
| "Marshal_members [] = []"
| "Marshal_members [(k, v)] = CHR 0x22 # escape_json k @ CHR 0x22 # '':'' @ Marshal_json v"
| "Marshal_members ((k, v) # m # ms) =
     CHR 0x22 # escape_json k @ CHR 0x22 # '':'' @ Marshal_json v @ '','' @ Marshal_members (m # ms)"

section \<open>Reading back what was written\<close>

definition ascii :: "string \<Rightarrow> bool" where
  "ascii s \<longleftrightarrow> (\<forall>c \<in> set s. byte c < 128)"

lemma ascii_simps [simp]: "ascii []" "ascii (c # s) \<longleftrightarrow> byte c < 128 \<and> ascii s"
  "ascii (s @ t) \<longleftrightarrow> ascii s \<and> ascii t"
  by (auto simp: ascii_def)

lemma ascii_show_nat: "ascii (show_nat n)"
proof (induction n rule: show_nat.induct)
  case (1 n)
  have "byte (digit_char d) < 128" if "d < 10" for d
    using that by (simp add: byte_def digit_char_def of_char_of take_bit_eq_mod)
  then show ?case using 1 by (cases "n < 10") (simp_all add: show_nat.simps [of n])
qed

lemma ascii_show_int [simp]: "ascii (show_int i)"
  by (simp add: show_int_def ascii_show_nat byte_def)

lemma char_of_byte [simp]: "char_of (byte c) = c"
  by (simp add: byte_def)

lemma hex_val_digit [simp]: "n < 16 \<Longrightarrow> hex_val (hex_digit_char n) = Some n"
  by (simp add: hex_val_def hex_digit_char_def byte_def Let_def)

lemma byte_lits: "byte (CHR 0x22) = 34" "byte (CHR 0x5C) = 92" "byte (CHR ''u'') = 117" "byte (CHR ''0'') = 48"
  by (simp_all add: byte_def)

lemma hex4_escape:
  assumes "byte c < 128"
  shows "hex4 (CHR ''0'' # CHR ''0'' # hex_digit_char (byte c div 16) # hex_digit_char (byte c mod 16) # s) =
    Some (byte c)"
proof -
  have "hex_val (CHR ''0'') = Some 0" by (simp add: hex_val_def byte_def)
  moreover have "byte c div 16 < 16" "byte c mod 16 < 16" using assms by auto
  ultimately show ?thesis by simp
qed

lemma unquote_plain:
  assumes "html_safe c"
  shows "unquote (c # r) = cons_fst [c] (unquote r)"
  using assms by (subst unquote.simps) (auto simp: html_safe_def)

lemma unquote_escape_char:
  assumes "byte c < 128" "\<not> html_safe c"
  shows "unquote (escape_char c @ r) = cons_fst [c] (unquote r)"
proof -
  consider (same) "c = CHR 0x22 \<or> c = CHR 0x5C"
    | (short) "\<exists>x. escape_char c = [CHR 0x5C, x] \<and> escape_of x = Some c \<and> x \<noteq> CHR ''u''"
    | (unicode) "escape_char c = CHR 0x5C # CHR ''u'' # CHR ''0'' # CHR ''0'' #
        [hex_digit_char (byte c div 16), hex_digit_char (byte c mod 16)]"
  proof (cases "c \<in> {CHR 0x22, CHR 0x5C, CHR 0x08, CHR 0x0C, CHR 0x0A, CHR 0x0D, CHR 0x09}")
    case True
    then have "c = CHR 0x22 \<or> c = CHR 0x5C \<or>
        (\<exists>x. escape_char c = [CHR 0x5C, x] \<and> escape_of x = Some c \<and> x \<noteq> CHR ''u'')"
      by (elim insertE emptyE) (simp_all add: escape_char_def escape_of_def)
    then show ?thesis using that by blast
  next
    case False
    then show ?thesis using that(3) by (simp add: escape_char_def)
  qed
  then show ?thesis
  proof cases
    case same
    then show ?thesis
      by (elim disjE; subst unquote.simps) (simp_all add: escape_char_def escape_of_def)
  next
    case short
    then obtain x where "escape_char c = [CHR 0x5C, x]" "escape_of x = Some c" "x \<noteq> CHR ''u''" by blast
    then show ?thesis by (subst unquote.simps) simp
  next
    case unicode
    have "\<not> surrogate (byte c)" "utf8_encode (byte c) = [c]"
      using assms(1) by (simp_all add: surrogate_def utf8_encode_def)
    then show ?thesis using hex4_escape [OF assms(1)] unicode
      by (subst unquote.simps) (simp del: hex4.simps)
  qed
qed

lemma unquote_escape:
  "ascii s \<Longrightarrow> unquote (escape_json s @ CHR 0x22 # rest) = Some (s, rest)"
proof (induction s)
  case Nil
  show ?case by (subst unquote.simps, subst escape_json.simps) simp
next
  case (Cons c s)
  have e: "escape_json (c # s) = (if html_safe c then [c] else escape_char c) @ escape_json s"
    using Cons.prems by (subst escape_json.simps) simp
  show ?case
    using Cons by (auto simp: e unquote_plain unquote_escape_char cons_fst_def)
qed

text \<open>The trees the program writes: ASCII strings and decimal integers, nested not too deep.\<close>

fun wf_json :: "json \<Rightarrow> bool"
  and wf_elements :: "json list \<Rightarrow> bool"
  and wf_members :: "(string \<times> json) list \<Rightarrow> bool"
where
  "wf_json (JNum s) = (\<exists>i. s = show_int i)"
| "wf_json (JStr s) = ascii s"
| "wf_json (JArr es) = wf_elements es"
| "wf_json (JObj ms) = wf_members ms"
| "wf_json v = True"
| "wf_elements [] = True"
| "wf_elements (v # es) = (wf_json v \<and> wf_elements es)"
| "wf_members [] = True"
| "wf_members ((k, v) # ms) = (ascii k \<and> wf_json v \<and> wf_members ms)"

fun json_depth :: "json \<Rightarrow> nat"
  and elements_depth :: "json list \<Rightarrow> nat"
  and members_depth :: "(string \<times> json) list \<Rightarrow> nat"
where
  "json_depth (JArr es) = Suc (elements_depth es)"
| "json_depth (JObj ms) = Suc (members_depth ms)"
| "json_depth v = 0"
| "elements_depth [] = 0"
| "elements_depth (v # es) = max (json_depth v) (elements_depth es)"
| "members_depth [] = 0"
| "members_depth ((k, v) # ms) = max (json_depth v) (members_depth ms)"

lemma strip_prefix_Cons [simp]: "strip_prefix [c] (d # s) = (if d = c then Some s else None)"
  by (auto simp: strip_prefix_def)

lemma strip_prefix_Nil [simp]: "strip_prefix [c] [] = None"
  by (simp add: strip_prefix_def)

lemma skip_ws_Cons: "skip_ws (c # s) = (if is_ws c then skip_ws s else c # s)"
  by (simp add: skip_ws_def)

lemma not_ws [simp]: "\<not> is_ws (CHR 0x22)" "\<not> is_ws (CHR '','')" "\<not> is_ws (CHR ''}'')" "\<not> is_ws (CHR '']'')"
  "\<not> is_ws (CHR '':'')" "\<not> is_ws (CHR ''{'')" "\<not> is_ws (CHR ''['')" "\<not> is_ws (CHR ''t'')"
  "\<not> is_ws (CHR ''f'')" "\<not> is_ws (CHR ''n'')" "\<not> is_ws (CHR ''-'')"
  by (simp_all add: is_ws_def)

lemma digits_not [simp]: "\<not> is_digit (CHR '','')" "\<not> is_digit (CHR ''}'')" "\<not> is_digit (CHR '']'')"
  "\<not> is_digit (CHR ''-'')" "\<not> is_digit (CHR ''.'')" "\<not> is_digit (CHR ''{'')" "\<not> is_digit (CHR ''['')"
  "\<not> is_digit (CHR ''t'')" "\<not> is_digit (CHR ''f'')" "\<not> is_digit (CHR ''n'')" "\<not> is_digit (CHR 0x22)"
  "\<not> is_digit (CHR '' '')" "\<not> is_digit (CHR 0x09)" "\<not> is_digit (CHR 0x0A)" "\<not> is_digit (CHR 0x0D)"
  by (simp_all add: is_digit_def digit_val_def)

text \<open>What may follow a value in a written text.\<close>

definition value_end :: "string \<Rightarrow> bool" where
  "value_end s \<longleftrightarrow> s = [] \<or> hd s \<in> {CHR '','', CHR ''}'', CHR '']''}"

lemma value_end_simps [simp]: "value_end []" "value_end (CHR '','' # s)" "value_end (CHR ''}'' # s)"
  "value_end (CHR '']'' # s)"
  by (simp_all add: value_end_def)

lemma show_nat_head: "\<exists>d s. show_nat n = d # s \<and> is_digit d \<and> (d = CHR ''0'' \<longrightarrow> s = [])"
proof (induction n rule: show_nat.induct)
  case (1 n)
  have dig: "is_digit (digit_char m)" if "m < 10" for m using that by (simp add: is_digit_def)
  have nz: "digit_char m \<noteq> CHR ''0''" if "m < 10" "m \<noteq> 0" for m
  proof
    assume "digit_char m = CHR ''0''"
    then have "digit_val (digit_char m) = digit_val (CHR ''0'')" by simp
    then show False using that by (simp add: digit_val_def [of "CHR ''0''"])
  qed
  show ?case
  proof (cases "n < 10")
    case True
    then show ?thesis by (simp add: show_nat.simps [of n] dig)
  next
    case False
    then obtain d s where d: "show_nat (n div 10) = d # s" "is_digit d" "d = CHR ''0'' \<longrightarrow> s = []" using 1 by blast
    have "d \<noteq> CHR ''0''"
    proof
      assume "d = CHR ''0''"
      then have "read_digits 0 (show_nat (n div 10)) = read_digits 0 [CHR ''0'']" using d by simp
      then show False using False by (simp add: digit_val_def)
    qed
    then show ?thesis using d False by (simp add: show_nat.simps [of n])
  qed
qed

lemma takeWhile_digits_end:
  assumes "value_end rest"
  shows "takeWhile is_digit (show_nat n @ rest) = show_nat n" "dropWhile is_digit (show_nat n @ rest) = rest"
proof -
  have "\<forall>c \<in> set (show_nat n). is_digit c" using show_nat_digits by (auto simp: is_digit_def)
  moreover have "takeWhile is_digit rest = []" "dropWhile is_digit rest = rest"
    using assms by (cases rest; auto simp: value_end_def)+
  ultimately show "takeWhile is_digit (show_nat n @ rest) = show_nat n" "dropWhile is_digit (show_nat n @ rest) = rest"
    by simp_all
qed

lemma read_number_show_nat:
  assumes "value_end rest"
  shows "read_int_part (show_nat n @ rest) = Some (show_nat n, rest)"
proof -
  obtain d s where d: "show_nat n = d # s" "is_digit d" "d = CHR ''0'' \<longrightarrow> s = []" using show_nat_head by blast
  then show ?thesis using takeWhile_digits_end [OF assms, of n] by (auto simp: read_int_part_def)
qed

lemma read_number_show_int:
  assumes "value_end rest"
  shows "read_number (show_int i @ rest) = Some (show_int i, rest)"
proof -
  have f: "read_frac rest = Some ([], rest)" "read_exp rest = Some ([], rest)"
    using assms by (cases rest; auto simp: value_end_def read_frac_def read_exp_def)+
  show ?thesis
  proof (cases "i < 0")
    case True
    then show ?thesis using read_number_show_nat [OF assms, of "nat (- i)"] f
      by (simp add: read_number_def show_int_def)
  next
    case False
    obtain d s where d: "show_nat (nat i) = d # s" "is_digit d" using show_nat_head by blast
    then have "d \<noteq> CHR ''-''" by auto
    then show ?thesis using read_number_show_nat [OF assms, of "nat i"] f False d
      by (simp add: read_number_def show_int_def)
  qed
qed

text \<open>A written value starts with a character that is not white space and tells its kind.\<close>

lemma show_int_head:
  "\<exists>c s. show_int i = c # s \<and> \<not> is_ws c \<and> c \<notin> {CHR ''{'', CHR ''['', CHR 0x22, CHR ''t'', CHR ''f'', CHR ''n'', CHR '']'', CHR ''}''}"
proof (cases "i < 0")
  case True
  then show ?thesis by (simp add: show_int_def)
next
  case False
  obtain d s where d: "show_nat (nat i) = d # s" "is_digit d" using show_nat_head by blast
  moreover have "\<not> is_ws d" using d(2) by (auto simp: is_ws_def)
  moreover have "d \<notin> {CHR ''{'', CHR ''['', CHR 0x22, CHR ''t'', CHR ''f'', CHR ''n'', CHR '']'', CHR ''}''}"
    using d(2) by (auto simp: is_digit_def digit_val_def)
  ultimately show ?thesis using False by (auto simp: show_int_def)
qed

lemma Marshal_json_head:
  "wf_json v \<Longrightarrow> \<exists>c s. Marshal_json v = c # s \<and> \<not> is_ws c \<and> c \<notin> {CHR '']'', CHR ''}''}"
proof (cases v)
  case (JNum x)
  moreover assume "wf_json v"
  ultimately obtain i where "x = show_int i" by auto
  then show ?thesis using show_int_head [of i] JNum by auto
qed auto

lemma Marshal_elements_head:
  "wf_elements (v # es) \<Longrightarrow> \<exists>c s. Marshal_elements (v # es) = c # s \<and> \<not> is_ws c \<and> c \<notin> {CHR '']'', CHR ''}''}"
  using Marshal_json_head [of v] by (cases es) auto

lemma read_literals:
  "read_value (Suc f) d (''null'' @ rest) = Some (JNull, rest)"
  "read_value (Suc f) d (''true'' @ rest) = Some (JBool True, rest)"
  "read_value (Suc f) d (''false'' @ rest) = Some (JBool False, rest)"
  by (simp_all add: read_value.simps(2) skip_ws_Cons strip_prefix_def)

lemma read_written:
  "wf_json v \<Longrightarrow> d + json_depth v \<le> max_nesting \<Longrightarrow> length (Marshal_json v) + 1 \<le> f \<Longrightarrow> value_end rest \<Longrightarrow>
     read_value f d (Marshal_json v @ rest) = Some (v, rest)"
  "wf_elements es \<Longrightarrow> es \<noteq> [] \<Longrightarrow> d + elements_depth es \<le> max_nesting \<Longrightarrow> length (Marshal_elements es) + 2 \<le> f \<Longrightarrow>
     read_elements f d (Marshal_elements es @ CHR '']'' # rest) = Some (es, rest)"
  "wf_members ms \<Longrightarrow> ms \<noteq> [] \<Longrightarrow> d + members_depth ms \<le> max_nesting \<Longrightarrow> length (Marshal_members ms) + 2 \<le> f \<Longrightarrow>
     read_members f d (Marshal_members ms @ CHR ''}'' # rest) = Some (ms, rest)"
proof (induction v and es and ms arbitrary: d f rest and d f rest and d f rest
    rule: Marshal_json_Marshal_elements_Marshal_members.induct)
  case 1
  then obtain f' where "f = Suc f'" by (cases f) auto
  then show ?case by (simp only: Marshal_json.simps read_literals)
next
  case (2 b)
  then obtain f' where "f = Suc f'" by (cases f) auto
  then show ?case by (simp only: Marshal_json.simps read_literals split: if_split) simp
next
  case (3 s)
  then obtain i where i: "s = show_int i" by auto
  obtain c r where c: "show_int i = c # r" "\<not> is_ws c" "c \<notin> {CHR ''{'', CHR ''['', CHR 0x22, CHR ''t'', CHR ''f'', CHR ''n'', CHR '']'', CHR ''}''}"
    using show_int_head [of i] by (elim exE conjE) (rule that)
  then have "read_number (c # r @ rest) = Some (c # r, rest)"
    using read_number_show_int [OF 3(4), of i] by simp
  then show ?case using 3 c by (cases f) (simp_all add: i c(1) read_value.simps(2) skip_ws_Cons)
next
  case (4 s)
  then show ?case
    by (cases f) (simp_all add: read_value.simps(2) skip_ws_Cons unquote_escape)
next
  case (5 es)
  then obtain f' where f: "f = Suc f'" by (cases f) auto
  show ?case
  proof (cases es)
    case Nil
    then show ?thesis using 5 f by (simp add: read_value.simps(2) skip_ws_Cons max_nesting_def)
  next
    case (Cons w ws)
    obtain c r where c: "Marshal_elements es = c # r" "\<not> is_ws c" "c \<notin> {CHR '']'', CHR ''}''}"
      using Marshal_elements_head [of w ws] 5(2) Cons by auto
    have "read_elements f' (d + 1) (Marshal_elements es @ CHR '']'' # rest) = Some (es, rest)"
      using 5 Cons f by simp
    then show ?thesis using 5(3) c f
      by (simp add: read_value.simps(2) skip_ws_Cons max_nesting_def)
  qed
next
  case (6 ms)
  then obtain f' where f: "f = Suc f'" by (cases f) auto
  show ?case
  proof (cases ms)
    case Nil
    then show ?thesis using 6 f by (simp add: read_value.simps(2) skip_ws_Cons max_nesting_def)
  next
    case (Cons w ws)
    obtain r where c: "Marshal_members ms = CHR 0x22 # r"
      using Cons by (cases w; cases ws) auto
    have "read_members f' (d + 1) (Marshal_members ms @ CHR ''}'' # rest) = Some (ms, rest)"
      using 6 Cons f by simp
    then show ?thesis using 6(3) c f
      by (simp add: read_value.simps(2) skip_ws_Cons max_nesting_def)
  qed
next
  case 7
  then show ?case by simp
next
  case (8 v)
  then show ?case by (cases f) (simp_all add: read_elements.simps(2) skip_ws_Cons)
next
  case (9 v w es)
  then show ?case by (cases f) (simp_all add: read_elements.simps(2) skip_ws_Cons)
next
  case 10
  then show ?case by simp
next
  case (11 k v)
  then show ?case by (cases f) (simp_all add: read_members.simps(2) skip_ws_Cons unquote_escape)
next
  case (12 k v m ms)
  then show ?case by (cases f) (simp_all add: read_members.simps(2) skip_ws_Cons unquote_escape)
qed

lemma written_back:
  assumes "wf_json v" "json_depth v \<le> max_nesting"
  shows "json_Unmarshal (Marshal_json v) = Some v"
  using read_written(1) [OF assms(1), of 0 "length (Marshal_json v) + 1" "[]"] assms(2)
  by (simp add: json_Unmarshal_def skip_ws_def)

text \<open>What the program writes as JSON it reads back: the decoder gives the tree whose
  encoding it is fed, for every tree of ASCII strings and integers within the nesting limit.\<close>

theorem json_roundtrip:
  assumes "wf_json v" "json_depth v \<le> max_nesting"
  shows "json_Unmarshal (Marshal_json v) = Some v"
  by (rule written_back [OF assms])

theorem json_roundtrip_witness:
  "json_Unmarshal (Marshal_json (JObj [(''summary'', JStr ''a<b''), (''n'', JNum (show_int (-7)))])) =
    Some (JObj [(''summary'', JStr ''a<b''), (''n'', JNum (show_int (-7)))])"
  by (rule json_roundtrip) (auto simp: max_nesting_def byte_def)

end
