(* ===== verification/Go_Json_Bound.thy ===== *)
theory Go_Json_Bound
  imports Go_Json
begin

text \<open>
  The bound of the JSON reader. Its functions take a number that bounds their calls; a reader
  that succeeds with some bound has consumed at least as many characters as the bound it needs, so the
  length of the text is enough, and the reader accepts what it accepts with any bound.
\<close>

lemma skip_ws_length: "length (skip_ws s) \<le> length s"
  by (simp add: skip_ws_def length_dropWhile_le)

lemma strip_prefix_length: "strip_prefix p s = Some r \<Longrightarrow> length r + length p = length s"
proof -
  have "HasPrefix s p \<Longrightarrow> length p \<le> length s" by (induction s p rule: HasPrefix.induct) auto
  then show "strip_prefix p s = Some r \<Longrightarrow> length r + length p = length s"
    by (auto simp: strip_prefix_def split: if_splits)
qed

lemma unquote_step:
  assumes "unquote s = Some (x, r)"
  obtains c where "s = c # r" | u y where "length u < length s" "unquote u = Some (y, r)"
proof -
  have c: "cons_fst p (unquote u) = Some (x, r) \<Longrightarrow> length u < length s \<Longrightarrow> thesis" for p u
    using that(2) by (auto simp: cons_fst_def)
  show thesis
    using assms unfolding unquote.simps [of s]
    by (auto split: list.splits if_splits option.splits simp del: utf8_len.simps) ((erule c, simp) | (rule that(1) [of "hd s"], simp))+
qed

lemma unquote_length: "unquote s = Some (x, r) \<Longrightarrow> length r < length s"
proof (induction "length s" arbitrary: s x rule: less_induct)
  case less
  from less.prems show ?case by (rule unquote_step) (use less.hyps in fastforce)+
qed

lemma read_number_length:
  assumes "read_number s = Some (x, r)"
  shows "length r < length s"
proof -
  have d: "length (dropWhile is_digit t) \<le> length t" for t by (rule length_dropWhile_le)
  have i: "read_int_part t = Some (y, u) \<Longrightarrow> length u < length t" for t y u
    using d by (auto simp: read_int_part_def le_imp_less_Suc split: list.splits if_splits)
  have f: "read_frac t = Some (y, u) \<Longrightarrow> length u \<le> length t" for t y u
    using d by (auto simp: read_frac_def le_SucI split: list.splits if_splits)
  have e: "read_exp t = Some (y, u) \<Longrightarrow> length u \<le> length t" for t y u
    by (auto simp: read_exp_def Let_def split: list.splits if_splits intro: le_trans [OF length_dropWhile_le])
  show ?thesis
    using assms i f e by (fastforce simp: read_number_def Let_def split: list.splits if_splits option.splits)
qed

definition fuel_enough :: "(nat \<Rightarrow> ('a \<times> string) option) \<Rightarrow> string \<Rightarrow> 'a \<Rightarrow> string \<Rightarrow> bool" where
  "fuel_enough rd s v r \<longleftrightarrow> length r < length s \<and> (\<forall>f. length s - length r \<le> f \<longrightarrow> rd f = Some (v, r))"

lemma fuel_enoughI:
  assumes "length r < length s" "\<And>g. length s - length r \<le> Suc g \<Longrightarrow> rd (Suc g) = Some (v, r)"
  shows "fuel_enough rd s v r"
  unfolding fuel_enough_def
proof (intro conjI allI impI)
  fix f assume f: "length s - length r \<le> f"
  then obtain g where "f = Suc g" using assms(1) by (cases f) auto
  then show "rd f = Some (v, r)" using assms(2) f by simp
qed (rule assms(1))

lemma fuel_enoughD: "fuel_enough rd s v r \<Longrightarrow> length s - length r \<le> g \<Longrightarrow> rd g = Some (v, r)"
  "fuel_enough rd s v r \<Longrightarrow> length r < length s"
  by (simp_all add: fuel_enough_def)

lemma skip_ws_Cons_length: "skip_ws s = c # t \<Longrightarrow> length t < length s"
  using skip_ws_length [of s] by simp

lemma value_object:
  assumes "skip_ws s = CHR ''{'' # t" "d < max_nesting" "strip_prefix ''}'' (skip_ws t) = None"
    and "fuel_enough (\<lambda>f. read_members f (d + 1) t) t ms r"
  shows "fuel_enough (\<lambda>f. read_value f d s) s (JObj ms) r"
proof (rule fuel_enoughI)
  show "length r < length s" using skip_ws_Cons_length [OF assms(1)] fuel_enoughD(2) [OF assms(4)] by simp
  fix g assume "length s - length r \<le> Suc g"
  then have "length t - length r \<le> g" using skip_ws_Cons_length [OF assms(1)] fuel_enoughD(2) [OF assms(4)] by simp
  from fuel_enoughD(1) [OF assms(4) this] show "read_value (Suc g) d s = Some (JObj ms, r)"
    using assms by (simp add: read_value.simps(2))
qed

lemma value_array:
  assumes "skip_ws s = CHR ''['' # t" "d < max_nesting" "strip_prefix '']'' (skip_ws t) = None"
    and "fuel_enough (\<lambda>f. read_elements f (d + 1) t) t es r"
  shows "fuel_enough (\<lambda>f. read_value f d s) s (JArr es) r"
proof (rule fuel_enoughI)
  show "length r < length s" using skip_ws_Cons_length [OF assms(1)] fuel_enoughD(2) [OF assms(4)] by simp
  fix g assume "length s - length r \<le> Suc g"
  then have "length t - length r \<le> g" using skip_ws_Cons_length [OF assms(1)] fuel_enoughD(2) [OF assms(4)] by simp
  from fuel_enoughD(1) [OF assms(4) this] show "read_value (Suc g) d s = Some (JArr es, r)"
    using assms by (simp add: read_value.simps(2))
qed

text \<open>The values that are read without a recursive call.\<close>

definition read_leaf :: "nat \<Rightarrow> char \<Rightarrow> string \<Rightarrow> (json \<times> string) option" where
  "read_leaf d c t =
    (if c = CHR ''{'' then (if max_nesting \<le> d then None else map_option (\<lambda>r. (JObj [], r)) (strip_prefix ''}'' (skip_ws t)))
     else if c = CHR ''['' then (if max_nesting \<le> d then None else map_option (\<lambda>r. (JArr [], r)) (strip_prefix '']'' (skip_ws t)))
     else if c = CHR 0x22 then map_option (\<lambda>(x, r'). (JStr x, r')) (unquote t)
     else if c = CHR ''t'' then map_option (\<lambda>r'. (JBool True, r')) (strip_prefix ''rue'' t)
     else if c = CHR ''f'' then map_option (\<lambda>r'. (JBool False, r')) (strip_prefix ''alse'' t)
     else if c = CHR ''n'' then map_option (\<lambda>r'. (JNull, r')) (strip_prefix ''ull'' t)
     else map_option (\<lambda>(x, r'). (JNum x, r')) (read_number (c # t)))"

lemma read_leaf_length:
  assumes "read_leaf d c t = Some (v, r)"
  shows "length r < length (c # t)"
  using assms skip_ws_length [of t]
  by (auto simp: read_leaf_def split: if_splits
      dest!: strip_prefix_length unquote_length read_number_length)

lemma read_value_leaf: "skip_ws s = c # t \<Longrightarrow> read_leaf d c t = Some out \<Longrightarrow> read_value (Suc f) d s = Some out"
  by (auto simp: read_leaf_def read_value.simps(2) split: if_splits)

lemma value_leaf:
  assumes "skip_ws s = c # t" "read_leaf d c t = Some (v, r)"
  shows "fuel_enough (\<lambda>f. read_value f d s) s v r"
proof (rule fuel_enoughI)
  show "length r < length s" using read_leaf_length [OF assms(2)] skip_ws_length [of s] assms(1) by simp
qed (rule read_value_leaf [OF assms])

lemma read_value_cases:
  assumes "read_value (Suc f) d s = Some (v, r)"
  obtains c t where "skip_ws s = c # t" "read_leaf d c t = Some (v, r)"
  | t ms where "skip_ws s = CHR ''{'' # t" "d < max_nesting" "strip_prefix ''}'' (skip_ws t) = None"
      "read_members f (d + 1) t = Some (ms, r)" "v = JObj ms"
  | t es where "skip_ws s = CHR ''['' # t" "d < max_nesting" "strip_prefix '']'' (skip_ws t) = None"
      "read_elements f (d + 1) t = Some (es, r)" "v = JArr es"
proof (cases "skip_ws s")
  case Nil
  then show ?thesis using assms by (simp add: read_value.simps(2))
next
  case (Cons c t)
  show ?thesis
  proof (cases "read_leaf d c t")
    case None
    then show ?thesis
      using assms Cons that(2,3) by (auto simp: read_value.simps(2) read_leaf_def split: if_splits option.splits)
  next
    case (Some out)
    then show ?thesis using read_value_leaf [OF Cons Some, of f] assms that(1) [OF Cons] by simp
  qed
qed

lemma elements_fuel:
  assumes "fuel_enough (\<lambda>f. read_value f d s) s v r3"
    and "strip_prefix '']'' (skip_ws r3) = Some r \<and> es = [v] \<or>
      strip_prefix '']'' (skip_ws r3) = None \<and> (\<exists>r4 es'. strip_prefix '','' (skip_ws r3) = Some r4 \<and>
        fuel_enough (\<lambda>f. read_elements f d r4) r4 es' r \<and> es = v # es')"
  shows "fuel_enough (\<lambda>f. read_elements f d s) s es r"
  using assms(2)
proof (elim disjE conjE exE)
  assume a: "strip_prefix '']'' (skip_ws r3) = Some r" "es = [v]"
  have l: "length r < length r3" using strip_prefix_length [OF a(1)] skip_ws_length [of r3] by simp
  show ?thesis
  proof (rule fuel_enoughI)
    show "length r < length s" using l fuel_enoughD(2) [OF assms(1)] by simp
    fix g assume "length s - length r \<le> Suc g"
    then have "length s - length r3 \<le> g" using l fuel_enoughD(2) [OF assms(1)] by simp
    from fuel_enoughD(1) [OF assms(1) this] show "read_elements (Suc g) d s = Some (es, r)"
      by (simp add: read_elements.simps(2) a)
  qed
next
  fix r4 es' assume a: "strip_prefix '']'' (skip_ws r3) = None" "strip_prefix '','' (skip_ws r3) = Some r4"
    "fuel_enough (\<lambda>f. read_elements f d r4) r4 es' r" "es = v # es'"
  have l: "length r4 < length r3" using strip_prefix_length [OF a(2)] skip_ws_length [of r3] by simp
  show ?thesis
  proof (rule fuel_enoughI)
    show "length r < length s" using l fuel_enoughD(2) [OF assms(1)] fuel_enoughD(2) [OF a(3)] by simp
    fix g assume "length s - length r \<le> Suc g"
    then have "length s - length r3 \<le> g" "length r4 - length r \<le> g"
      using l fuel_enoughD(2) [OF assms(1)] fuel_enoughD(2) [OF a(3)] by simp_all
    from fuel_enoughD(1) [OF assms(1) this(1)] fuel_enoughD(1) [OF a(3) this(2)]
    show "read_elements (Suc g) d s = Some (es, r)" by (simp add: read_elements.simps(2) a)
  qed
qed

lemma members_fuel:
  assumes "strip_prefix [CHR 0x22] (skip_ws s) = Some r0" "unquote r0 = Some (k, r1)" "strip_prefix '':'' (skip_ws r1) = Some r2"
    and "fuel_enough (\<lambda>f. read_value f d r2) r2 v r3"
    and "strip_prefix ''}'' (skip_ws r3) = Some r \<and> ms = [(k, v)] \<or>
      strip_prefix ''}'' (skip_ws r3) = None \<and> (\<exists>r4 ms'. strip_prefix '','' (skip_ws r3) = Some r4 \<and>
        fuel_enough (\<lambda>f. read_members f d r4) r4 ms' r \<and> ms = (k, v) # ms')"
  shows "fuel_enough (\<lambda>f. read_members f d s) s ms r"
proof -
  have k: "length r2 < length s"
    using strip_prefix_length [OF assms(1)] unquote_length [OF assms(2)] strip_prefix_length [OF assms(3)]
      skip_ws_length [of s] skip_ws_length [of r1] by simp
  from assms(5) show ?thesis
  proof (elim disjE conjE exE)
    assume a: "strip_prefix ''}'' (skip_ws r3) = Some r" "ms = [(k, v)]"
    have l: "length r < length r3" using strip_prefix_length [OF a(1)] skip_ws_length [of r3] by simp
    show ?thesis
    proof (rule fuel_enoughI)
      show "length r < length s" using l k fuel_enoughD(2) [OF assms(4)] by simp
      fix g assume "length s - length r \<le> Suc g"
      then have "length r2 - length r3 \<le> g" using l k fuel_enoughD(2) [OF assms(4)] by simp
      from fuel_enoughD(1) [OF assms(4) this] show "read_members (Suc g) d s = Some (ms, r)"
        by (simp add: read_members.simps(2) a assms(1-3))
    qed
  next
    fix r4 ms' assume a: "strip_prefix ''}'' (skip_ws r3) = None" "strip_prefix '','' (skip_ws r3) = Some r4"
      "fuel_enough (\<lambda>f. read_members f d r4) r4 ms' r" "ms = (k, v) # ms'"
    have l: "length r4 < length r3" using strip_prefix_length [OF a(2)] skip_ws_length [of r3] by simp
    show ?thesis
    proof (rule fuel_enoughI)
      show "length r < length s" using l k fuel_enoughD(2) [OF assms(4)] fuel_enoughD(2) [OF a(3)] by simp
      fix g assume "length s - length r \<le> Suc g"
      then have "length r2 - length r3 \<le> g" "length r4 - length r \<le> g"
        using l k fuel_enoughD(2) [OF assms(4)] fuel_enoughD(2) [OF a(3)] by simp_all
      from fuel_enoughD(1) [OF assms(4) this(1)] fuel_enoughD(1) [OF a(3) this(2)]
      show "read_members (Suc g) d s = Some (ms, r)" by (simp add: read_members.simps(2) a assms(1-3))
    qed
  qed
qed

lemma read_fuel:
  "(\<forall>d s v r. read_value f d s = Some (v, r) \<longrightarrow> fuel_enough (\<lambda>f. read_value f d s) s v r) \<and>
   (\<forall>d s ms r. read_members f d s = Some (ms, r) \<longrightarrow> fuel_enough (\<lambda>f. read_members f d s) s ms r) \<and>
   (\<forall>d s es r. read_elements f d s = Some (es, r) \<longrightarrow> fuel_enough (\<lambda>f. read_elements f d s) s es r)"
proof (induction f)
  case (Suc f)
  note IH = Suc.IH [THEN conjunct1, rule_format] Suc.IH [THEN conjunct2, THEN conjunct1, rule_format]
    Suc.IH [THEN conjunct2, THEN conjunct2, rule_format]
  show ?case
  proof (intro conjI allI impI)
    fix d s v r assume "read_value (Suc f) d s = Some (v, r)"
    then show "fuel_enough (\<lambda>f. read_value f d s) s v r"
    proof (cases rule: read_value_cases)
      case 1
      then show ?thesis by (rule value_leaf)
    next
      case (2 t ms)
      show ?thesis unfolding 2(5) by (rule value_object [OF 2(1-3) IH(2) [OF 2(4)]])
    next
      case (3 t es)
      show ?thesis unfolding 3(5) by (rule value_array [OF 3(1-3) IH(3) [OF 3(4)]])
    qed
  next
    fix d s es r assume "read_elements (Suc f) d s = Some (es, r)"
    then obtain v r3 where v: "read_value f d s = Some (v, r3)" and rest:
      "strip_prefix '']'' (skip_ws r3) = Some r \<and> es = [v] \<or>
      strip_prefix '']'' (skip_ws r3) = None \<and> (\<exists>r4 es'. strip_prefix '','' (skip_ws r3) = Some r4 \<and>
        read_elements f d r4 = Some (es', r) \<and> es = v # es')"
      by (auto simp: read_elements.simps(2) split: option.splits)
    show "fuel_enough (\<lambda>f. read_elements f d s) s es r"
      by (rule elements_fuel [OF IH(1) [OF v]]) (use rest IH(3) in blast)
  next
    fix d s ms r assume "read_members (Suc f) d s = Some (ms, r)"
    then obtain k r0 r1 r2 v r3 where k: "strip_prefix [CHR 0x22] (skip_ws s) = Some r0" "unquote r0 = Some (k, r1)"
        "strip_prefix '':'' (skip_ws r1) = Some r2" and v: "read_value f d r2 = Some (v, r3)" and rest:
      "strip_prefix ''}'' (skip_ws r3) = Some r \<and> ms = [(k, v)] \<or>
      strip_prefix ''}'' (skip_ws r3) = None \<and> (\<exists>r4 ms'. strip_prefix '','' (skip_ws r3) = Some r4 \<and>
        read_members f d r4 = Some (ms', r) \<and> ms = (k, v) # ms')"
      by (auto simp: read_members.simps(2) split: option.splits)
    show "fuel_enough (\<lambda>f. read_members f d s) s ms r"
      by (rule members_fuel [OF k IH(1) [OF v]]) (use rest IH(2) in blast)
  qed
qed simp

text \<open>The bound of the reader is enough: it accepts what any bound accepts.\<close>

lemma json_Unmarshal_bound:
  "json_Unmarshal data = Some v \<longleftrightarrow> (\<exists>f r. read_value f 0 data = Some (v, r) \<and> skip_ws r = [])"
proof
  assume "\<exists>f r. read_value f 0 data = Some (v, r) \<and> skip_ws r = []"
  then obtain f r where f: "read_value f 0 data = Some (v, r)" "skip_ws r = []" by blast
  then have "fuel_enough (\<lambda>f. read_value f 0 data) data v r" using read_fuel by blast
  from fuel_enoughD(1) [OF this, of "length data + 1"] show "json_Unmarshal data = Some v"
    by (simp add: json_Unmarshal_def f(2))
qed (fastforce simp: json_Unmarshal_def split: option.splits if_splits)

end
