(* ===== verification/Go_Rfc3339.thy ===== *)
theory Go_Rfc3339
  imports Go_Time
begin

text \<open>
  \<open>time.Parse(time.RFC3339, s)\<close>: four digits of year, two-digit fields, one or two digits
  of hour, an optional fraction of a second after a point or a comma, and \<open>Z\<close> or an offset
  whose hours may be 24 and whose minutes may be 60, as the standard parser allows.
\<close>

definition leap :: "int \<Rightarrow> bool" where
  "leap y \<longleftrightarrow> y mod 4 = 0 \<and> (y mod 100 \<noteq> 0 \<or> y mod 400 = 0)"

definition days_in :: "int \<Rightarrow> int \<Rightarrow> int" where
  "days_in m y = (if m = 2 then (if leap y then 29 else 28) else if m \<in> {4, 6, 9, 11} then 30 else 31)"

definition days_before_year :: "int \<Rightarrow> int" where
  "days_before_year y = 365 * (y - 1) + (y - 1) div 4 - (y - 1) div 100 + (y - 1) div 400"

fun days_before_month :: "nat \<Rightarrow> int \<Rightarrow> int" where
  "days_before_month 0 y = 0"
| "days_before_month (Suc m) y = (if m = 0 then 0 else days_before_month m y + days_in (int m) y)"

definition time_Date :: "int \<Rightarrow> int \<Rightarrow> int \<Rightarrow> int \<Rightarrow> int \<Rightarrow> int \<Rightarrow> int \<Rightarrow> time" where
  "time_Date y m d hh mm ss ns =
     (days_before_year y + days_before_month (nat m) y + (d - 1)) * (24 * Hour)
     + hh * Hour + mm * Minute + ss * Second + ns"

fun digits_val :: "nat \<Rightarrow> string \<Rightarrow> (int \<times> string) option" where
  "digits_val 0 s = Some (0, s)"
| "digits_val (Suc n) [] = None"
| "digits_val (Suc n) (c # s) =
     (case digit_val c of None \<Rightarrow> None
      | Some v \<Rightarrow> map_option (\<lambda>(x, r). (int v * 10 ^ n + x, r)) (digits_val n s))"

definition expect :: "char \<Rightarrow> string \<Rightarrow> string option" where
  "expect c s = (case s of d # r \<Rightarrow> if d = c then Some r else None | [] \<Rightarrow> None)"

definition in_range :: "int \<Rightarrow> int \<Rightarrow> (int \<times> string) option \<Rightarrow> (int \<times> string) option" where
  "in_range lo hi r = (case r of Some (v, s) \<Rightarrow> if lo \<le> v \<and> v \<le> hi then r else None | None \<Rightarrow> None)"

text \<open>The hour: two digits, or one that no digit follows.\<close>

definition read_hour :: "string \<Rightarrow> (int \<times> string) option" where
  "read_hour s = (case digits_val 2 s of Some r \<Rightarrow> Some r | None \<Rightarrow> digits_val 1 s)"

text \<open>The fraction, in nanoseconds; digits after the ninth are dropped.\<close>

definition read_fraction :: "string \<Rightarrow> int \<times> string" where
  "read_fraction s =
     (case s of c # d # r \<Rightarrow>
        if (c = CHR ''.'' \<or> c = CHR '','') \<and> digit_val d \<noteq> None then
          (let ds = takeWhile (\<lambda>x. digit_val x \<noteq> None) (d # r);
               ns = take 9 (ds @ replicate 9 (CHR ''0''))
           in (case read_digits 0 ns of Some v \<Rightarrow> int v | None \<Rightarrow> 0,
               dropWhile (\<lambda>x. digit_val x \<noteq> None) (d # r)))
        else (0, s)
      | _ \<Rightarrow> (0, s))"

definition read_zone :: "string \<Rightarrow> (int \<times> string) option" where
  "read_zone s =
     (case s of [] \<Rightarrow> None
      | c # r \<Rightarrow>
        if c = CHR ''Z'' then Some (0, r)
        else case in_range 0 24 (digits_val 2 r) of None \<Rightarrow> None
          | Some (hh, r1) \<Rightarrow> (case expect (CHR '':'') r1 of None \<Rightarrow> None
            | Some r2 \<Rightarrow> (case in_range 0 60 (digits_val 2 r2) of None \<Rightarrow> None
              | Some (mm, r3) \<Rightarrow>
                  if c = CHR ''+'' then Some ((hh * 60 + mm) * 60, r3)
                  else if c = CHR ''-'' then Some (- ((hh * 60 + mm) * 60), r3) else None)))"

definition then_expect :: "char \<Rightarrow> (int \<times> string) option \<Rightarrow> (int \<times> string) option" where
  "then_expect c r = (case r of None \<Rightarrow> None | Some (v, s) \<Rightarrow> map_option (\<lambda>t. (v, t)) (expect c s))"

definition time_Parse_RFC3339 :: "string \<Rightarrow> time option" where
  "time_Parse_RFC3339 s =
     (case then_expect (CHR ''-'') (digits_val 4 s) of None \<Rightarrow> None
      | Some (y, s) \<Rightarrow> (case then_expect (CHR ''-'') (in_range 1 12 (digits_val 2 s)) of None \<Rightarrow> None
      | Some (m, s) \<Rightarrow> (case then_expect (CHR ''T'') (digits_val 2 s) of None \<Rightarrow> None
      | Some (d, s) \<Rightarrow> (case then_expect (CHR '':'') (in_range 0 23 (read_hour s)) of None \<Rightarrow> None
      | Some (hh, s) \<Rightarrow> (case then_expect (CHR '':'') (in_range 0 59 (digits_val 2 s)) of None \<Rightarrow> None
      | Some (mm, s) \<Rightarrow> (case in_range 0 59 (digits_val 2 s) of None \<Rightarrow> None
      | Some (ss, s) \<Rightarrow> (case read_fraction s of (ns, s) \<Rightarrow> (case read_zone s of None \<Rightarrow> None
      | Some (zone, s) \<Rightarrow>
          if s = [] \<and> 1 \<le> d \<and> d \<le> days_in m y
          then Some (time_Date y m d hh mm ss ns - zone * Second) else None))))))))"

text \<open>The start of year 1 is the zero time, and the epoch is where package time puts it.\<close>

lemma time_Parse_examples:
  "time_Parse_RFC3339 ''0001-01-01T00:00:00Z'' = Some 0"
  "time_Parse_RFC3339 ''1970-01-01T01:00:00+01:00'' = Some (unix_to_internal * Second)"
  by code_simp+

end
