(* ===== verification/Go_Decode.thy ===== *)
theory Go_Decode
  imports Go_Json "HOL-Library.Multiset"
begin

text \<open>
  Package encoding/json again: decoding a value into Go types. Structs match the names of their
  fields without regard to case, slices are reset and filled, \<open>null\<close> leaves a string or a
  struct as it is, and a value of another type is an error. A value decoded into
  \<open>interface{}\<close> is a tree whose objects are maps; a range over a map visits its keys in any
  order, so a map is known up to the relation \<open>reordered\<close>.
\<close>

section \<open>Structs and slices\<close>

text \<open>Names are compared under simple folding: two characters beside the letters fold to letters,
  the long s and the Kelvin sign.\<close>

function fold_name :: "string \<Rightarrow> string" where
  "fold_name s =
     (case s of [] \<Rightarrow> []
      | c # r \<Rightarrow>
          if HasPrefix s [CHR 0xC5, CHR 0xBF] then CHR ''s'' # fold_name (drop 1 r)
          else if HasPrefix s [CHR 0xE2, CHR 0x84, CHR 0xAA] then CHR ''k'' # fold_name (drop 2 r)
          else lower_char c # fold_name r)"
  by pat_completeness auto
termination by (relation "measure length") auto

declare fold_name.simps [simp del]

text \<open>A field: its name, and how a value is decoded into the struct.\<close>

type_synonym 'a struct_field = "string \<times> (json \<Rightarrow> 'a \<Rightarrow> 'a option)"

definition find_field :: "'a struct_field list \<Rightarrow> string \<Rightarrow> (json \<Rightarrow> 'a \<Rightarrow> 'a option) option" where
  "find_field fields key =
     (case map_of fields key of
        Some dec \<Rightarrow> Some dec
      | None \<Rightarrow> map_option snd (find (\<lambda>f. fold_name (fst f) = fold_name key) fields))"

fun decode_members :: "'a struct_field list \<Rightarrow> (string \<times> json) list \<Rightarrow> 'a \<Rightarrow> 'a option" where
  "decode_members fields [] a = Some a"
| "decode_members fields ((k, v) # ms) a =
     (case find_field fields k of
        None \<Rightarrow> decode_members fields ms a
      | Some dec \<Rightarrow> (case dec v a of None \<Rightarrow> None | Some a' \<Rightarrow> decode_members fields ms a'))"

definition decode_struct :: "'a struct_field list \<Rightarrow> json \<Rightarrow> 'a \<Rightarrow> 'a option" where
  "decode_struct fields v a =
     (case v of JNull \<Rightarrow> Some a | JObj ms \<Rightarrow> decode_members fields ms a | _ \<Rightarrow> None)"

fun those_map :: "('a \<Rightarrow> 'b option) \<Rightarrow> 'a list \<Rightarrow> 'b list option" where
  "those_map f [] = Some []"
| "those_map f (x # xs) =
     (case f x of None \<Rightarrow> None | Some y \<Rightarrow> map_option ((#) y) (those_map f xs))"

definition decode_slice :: "(json \<Rightarrow> 'a \<Rightarrow> 'a option) \<Rightarrow> 'a \<Rightarrow> json \<Rightarrow> 'a list option" where
  "decode_slice dec zero v =
     (case v of JNull \<Rightarrow> Some [] | JArr vs \<Rightarrow> those_map (\<lambda>v. dec v zero) vs | _ \<Rightarrow> None)"

text \<open>A field of type string, and one that holds a slice, given how the struct is read and written.\<close>

definition string_field :: "string \<Rightarrow> ('a \<Rightarrow> string) \<Rightarrow> (string \<Rightarrow> 'a \<Rightarrow> 'a) \<Rightarrow> 'a struct_field" where
  "string_field name sel upd = (name, \<lambda>v a. map_option (\<lambda>s. upd s a) (decode_string (sel a) v))"

definition slice_field ::
    "string \<Rightarrow> (json \<Rightarrow> 'b \<Rightarrow> 'b option) \<Rightarrow> 'b \<Rightarrow> ('b list \<Rightarrow> 'a \<Rightarrow> 'a) \<Rightarrow> 'a struct_field" where
  "slice_field name dec zero upd = (name, \<lambda>v a. map_option (\<lambda>xs. upd xs a) (decode_slice dec zero v))"

definition dec_string :: "json \<Rightarrow> string \<Rightarrow> string option" where
  "dec_string v s = decode_string s v"

text \<open>A map from strings to slices of strings: the members are added to the map.\<close>

fun decode_map_members ::
    "(string \<times> json) list \<Rightarrow> (string \<times> string list) list \<Rightarrow> (string \<times> string list) list option" where
  "decode_map_members [] m = Some m"
| "decode_map_members ((k, v) # ms) m =
     (case decode_slice dec_string [] v of None \<Rightarrow> None | Some ss \<Rightarrow> decode_map_members ms ((k, ss) # m))"

definition decode_map :: "json \<Rightarrow> (string \<times> string list) list \<Rightarrow> (string \<times> string list) list option" where
  "decode_map v m =
     (case v of JNull \<Rightarrow> Some [] | JObj ms \<Rightarrow> decode_map_members ms m | _ \<Rightarrow> None)"

section \<open>Trees\<close>

text \<open>The number in a text: an integer and a power of ten.\<close>

definition digits_value :: "string \<Rightarrow> nat" where
  "digits_value s = (case read_digits 0 s of Some n \<Rightarrow> n | None \<Rightarrow> 0)"

definition exponent_value :: "string \<Rightarrow> int" where
  "exponent_value s =
     (case s of _ # d # r \<Rightarrow>
        if d = CHR ''-'' then - int (digits_value r)
        else if d = CHR ''+'' then int (digits_value r) else int (digits_value (d # r))
      | _ \<Rightarrow> 0)"

definition number_parts :: "string \<Rightarrow> nat \<times> int" where
  "number_parts s =
     (let s = dropWhile (\<lambda>c. c = CHR ''-'') s;
          whole = takeWhile is_digit s; r = dropWhile is_digit s;
          frac = (if HasPrefix r ''.'' then takeWhile is_digit (tl r) else []);
          r = (if HasPrefix r ''.'' then dropWhile is_digit (tl r) else r)
      in (digits_value (whole @ frac), exponent_value r - int (length frac)))"

text \<open>The numbers that a float64 can hold: those that do not round to an infinity.\<close>

definition float64_bound :: nat where
  "float64_bound = 2 ^ 1024 - 2 ^ 970"

definition number_fits :: "string \<Rightarrow> bool" where
  "number_fits s = (case number_parts s of (m, e) \<Rightarrow>
     if 0 \<le> e then m * 10 ^ nat e < float64_bound else m < float64_bound * 10 ^ nat (- e))"

fun numbers_fit :: "json \<Rightarrow> bool" where
  "numbers_fit (JNum s) = number_fits s"
| "numbers_fit (JArr vs) = list_all numbers_fit vs"
| "numbers_fit (JObj ms) = list_all (\<lambda>(k, v). numbers_fit v) ms"
| "numbers_fit v = True"

text \<open>The members of an object as a map: of two with one key the later one stays.\<close>

fun last_members :: "(string \<times> 'a) list \<Rightarrow> (string \<times> 'a) list" where
  "last_members [] = []"
| "last_members ((k, v) # ms) = (if k \<in> fst ` set ms then last_members ms else (k, v) # last_members ms)"

fun go_map :: "json \<Rightarrow> json" where
  "go_map (JArr vs) = JArr (map go_map vs)"
| "go_map (JObj ms) = JObj (last_members (map (\<lambda>(k, v). (k, go_map v)) ms))"
| "go_map v = v"

definition Unmarshal_any :: "string \<Rightarrow> json option" where
  "Unmarshal_any data =
     (case json_Unmarshal data of
        None \<Rightarrow> None
      | Some v \<Rightarrow> if numbers_fit v then Some (go_map v) else None)"

text \<open>The maps of a tree have each key once.\<close>

fun maps_distinct :: "json \<Rightarrow> bool" where
  "maps_distinct (JArr vs) = list_all maps_distinct vs"
| "maps_distinct (JObj ms) = (distinct (map fst ms) \<and> list_all (\<lambda>(k, v). maps_distinct v) ms)"
| "maps_distinct v = True"

lemma fst_last_members: "fst ` set (last_members ms) = fst ` set ms"
  by (induction ms rule: last_members.induct) (auto simp: image_iff)

lemma set_last_members: "set (last_members ms) \<subseteq> set ms"
  by (induction ms rule: last_members.induct) auto

lemma distinct_last_members: "distinct (map fst (last_members ms))"
proof (induction ms rule: last_members.induct)
  case (2 k v ms)
  have "k \<notin> set (map fst (last_members ms))" if "k \<notin> fst ` set ms"
    using that fst_last_members [of ms] by simp
  then show ?case using 2 by simp
qed simp

text \<open>The map reads as the object does: the last member with a key.\<close>

lemma map_of_last_members: "map_of (last_members ms) k = map_of (rev ms) k"
proof (induction ms rule: last_members.induct)
  case (2 k' v ms)
  show ?case
  proof (cases "k' \<in> fst ` set ms")
    case True
    then obtain v' where "map_of (rev ms) k' = Some v'"
      by (metis image_set map_of_eq_None_iff not_None_eq rev_map set_rev)
    then show ?thesis using 2 True by (auto simp: map_add_def split: option.split)
  next
    case False
    then have "map_of (rev ms) k' = None" by (simp add: map_of_eq_None_iff image_iff)
    then show ?thesis using 2 False by (auto simp: map_add_def split: option.split)
  qed
qed simp

lemma go_map_distinct: "maps_distinct (go_map v)"
proof (induction v rule: go_map.induct)
  case (2 ms)
  have "list_all (\<lambda>(k, v). maps_distinct v) (map (\<lambda>(k, v). (k, go_map v)) ms)"
    using 2 by (auto simp: list_all_iff)
  then have "list_all (\<lambda>(k, v). maps_distinct v) (last_members (map (\<lambda>(k, v). (k, go_map v)) ms))"
    using set_last_members by (fastforce simp: list_all_iff)
  then show ?case by (simp add: distinct_last_members)
qed (simp_all add: list_all_iff)

section \<open>The order of a range\<close>

inductive reordered :: "json \<Rightarrow> json \<Rightarrow> bool" where
  leaf: "reordered v v"
| array: "list_all2 reordered vs ws \<Longrightarrow> reordered (JArr vs) (JArr ws)"
| object: "mset ms' = mset ms \<Longrightarrow> list_all2 (rel_prod (=) reordered) ms' ns \<Longrightarrow> reordered (JObj ms) (JObj ns)"
monos list.rel_mono_strong prod.rel_mono_strong

end
