(* ===== verification/Transition.thy ===== *)
theory Transition
  imports Main
begin

text \<open>
  Interleaved executions: the states a step relation reaches from its initial states, and
  the interface of an inductive invariant. The components that run in several goroutines
  (the circuit breaker and the two dispatch loops of the reconciler) instantiate it.
\<close>

inductive reaches :: "('s \<Rightarrow> bool) \<Rightarrow> ('s \<Rightarrow> 's \<Rightarrow> bool) \<Rightarrow> 's \<Rightarrow> bool" for init step where
  reaches_init: "init s \<Longrightarrow> reaches init step s"
| reaches_step: "reaches init step s \<Longrightarrow> step s s' \<Longrightarrow> reaches init step s'"

lemma reaches_rtranclp: "step\<^sup>*\<^sup>* s s' \<Longrightarrow> reaches init step s \<Longrightarrow> reaches init step s'"
  by (induction rule: rtranclp_induct) (auto intro: reaches_step)

lemma reaches_iff: "reaches init step s \<longleftrightarrow> (\<exists>s0. init s0 \<and> step\<^sup>*\<^sup>* s0 s)"
proof
  show "reaches init step s \<Longrightarrow> \<exists>s0. init s0 \<and> step\<^sup>*\<^sup>* s0 s"
    by (induction rule: reaches.induct) (auto intro: rtranclp.rtrancl_into_rtrancl)
qed (auto intro: reaches_rtranclp reaches_init)

locale inductive_invariant =
  fixes init :: "'s \<Rightarrow> bool" and step :: "'s \<Rightarrow> 's \<Rightarrow> bool" and inv :: "'s \<Rightarrow> bool"
  assumes inv_init: "init s \<Longrightarrow> inv s"
    and inv_step: "inv s \<Longrightarrow> step s s' \<Longrightarrow> inv s'"
begin

lemma inv_steps: "step\<^sup>*\<^sup>* s s' \<Longrightarrow> inv s \<Longrightarrow> inv s'"
  by (induction rule: rtranclp_induct) (auto intro: inv_step)

lemma inv_reaches: "reaches init step s \<Longrightarrow> inv s"
  by (induction rule: reaches.induct) (auto intro: inv_init inv_step)

end

text \<open>A closed set of states: an invariant with any initial condition inside it.\<close>

locale closed_set =
  fixes step :: "'s \<Rightarrow> 's \<Rightarrow> bool" and inside :: "'s \<Rightarrow> bool"
  assumes stays: "inside s \<Longrightarrow> step s s' \<Longrightarrow> inside s'"

sublocale closed_set \<subseteq> inductive_invariant inside step inside
  by unfold_locales (auto intro: stays)

end
