(* ===== verification/Worker_Pool.thy ===== *)
theory Worker_Pool
  imports Transition
begin

text \<open>
  The abstract worker pool: a dispatcher that starts workers under a semaphore and waits for
  them with a wait group. Both loops of the reconciler, over the scans of a workload and over
  the namespaces of a cluster, implement it; the invariant is proved here, once.
\<close>

text \<open>
  The dispatcher has announced a worker and waits for a token (\<open>p_queued\<close>), or holds a token
  and has not started the worker yet (\<open>p_held\<close>). A worker runs with a token, and leaves
  without one after it gave it back. \<open>p_sem\<close> counts the tokens taken, \<open>p_wg\<close> is the counter of
  the wait group.
\<close>

record pool =
  p_queued :: nat
  p_held :: nat
  p_running :: nat
  p_leaving :: nat
  p_sem :: nat
  p_wg :: nat

definition pool_init :: "pool \<Rightarrow> bool" where
  "pool_init p \<longleftrightarrow> p = \<lparr>p_queued = 0, p_held = 0, p_running = 0, p_leaving = 0, p_sem = 0, p_wg = 0\<rparr>"

inductive pool_step :: "nat \<Rightarrow> pool \<Rightarrow> pool \<Rightarrow> bool" for cap where
  announce: "p_queued p = 0 \<Longrightarrow> p_held p = 0 \<Longrightarrow> pool_step cap p (p\<lparr>p_queued := 1, p_wg := p_wg p + 1\<rparr>)"
| acquire: "p_queued p = 1 \<Longrightarrow> p_sem p < cap \<Longrightarrow>
    pool_step cap p (p\<lparr>p_queued := 0, p_held := 1, p_sem := p_sem p + 1\<rparr>)"
| abandon: "p_queued p = 1 \<Longrightarrow> 0 < p_wg p \<Longrightarrow> pool_step cap p (p\<lparr>p_queued := 0, p_wg := p_wg p - 1\<rparr>)"
| spawn: "p_held p = 1 \<Longrightarrow> pool_step cap p (p\<lparr>p_held := 0, p_running := p_running p + 1\<rparr>)"
| abort: "p_held p = 1 \<Longrightarrow> 0 < p_wg p \<Longrightarrow> 0 < p_sem p \<Longrightarrow>
    pool_step cap p (p\<lparr>p_held := 0, p_wg := p_wg p - 1, p_sem := p_sem p - 1\<rparr>)"
| release: "0 < p_running p \<Longrightarrow> 0 < p_sem p \<Longrightarrow>
    pool_step cap p (p\<lparr>p_running := p_running p - 1, p_leaving := p_leaving p + 1, p_sem := p_sem p - 1\<rparr>)"
| leave: "0 < p_leaving p \<Longrightarrow> 0 < p_wg p \<Longrightarrow>
    pool_step cap p (p\<lparr>p_leaving := p_leaving p - 1, p_wg := p_wg p - 1\<rparr>)"

definition pool_inv :: "nat \<Rightarrow> pool \<Rightarrow> bool" where
  "pool_inv cap p \<longleftrightarrow> p_sem p = p_held p + p_running p \<and>
     p_wg p = p_queued p + p_held p + p_running p + p_leaving p \<and>
     p_sem p \<le> cap \<and> p_queued p + p_held p \<le> 1"

lemma pool_inv_init: "pool_init p \<Longrightarrow> pool_inv cap p"
  by (simp add: pool_init_def pool_inv_def)

lemma pool_inv_step: "pool_step cap p p' \<Longrightarrow> pool_inv cap p \<Longrightarrow> pool_inv cap p'"
  by (induction rule: pool_step.induct) (auto simp: pool_inv_def)

interpretation pool_run: inductive_invariant pool_init "pool_step cap" "pool_inv cap" for cap
  by unfold_locales (auto intro: pool_inv_init pool_inv_step)

text \<open>
  A client of the pool: each of its steps is a step of the pool, or none, seen through the
  abstraction. Where the pool is full the client can wait for a running worker only; where
  it is not, a worker that is announced can go on.
\<close>

locale pool_client =
  fixes init :: "'s \<Rightarrow> bool" and step :: "'s \<Rightarrow> 's \<Rightarrow> bool" and pool_of :: "'s \<Rightarrow> pool" and cap :: nat
  assumes client_init: "init s \<Longrightarrow> pool_init (pool_of s)"
    and client_step: "step s s' \<Longrightarrow> pool_inv cap (pool_of s) \<Longrightarrow>
      pool_step cap (pool_of s) (pool_of s') \<or> pool_of s' = pool_of s"
begin

lemma client_reaches: "reaches init step s \<Longrightarrow> reaches pool_init (pool_step cap) (pool_of s) \<and> pool_inv cap (pool_of s)"
proof (induction rule: reaches.induct)
  case (reaches_init s)
  then show ?case using client_init pool_inv_init by (blast intro: reaches.reaches_init)
next
  case (reaches_step s s')
  then show ?case using client_step [OF reaches_step(2)] pool_inv_step
    by (auto intro: reaches.reaches_step)
qed

lemma client_inv: "reaches init step s \<Longrightarrow> pool_inv cap (pool_of s)"
  using client_reaches by blast

end

text \<open>A step relation whose steps all decrease a measure: every run ends.\<close>

locale measured =
  fixes step :: "'s \<Rightarrow> 's \<Rightarrow> bool" and size_of :: "'s \<Rightarrow> nat"
  assumes decreases: "step s s' \<Longrightarrow> size_of s' < size_of s"
begin

lemma run_length: "(step ^^ n) s s' \<Longrightarrow> size_of s' + n \<le> size_of s"
proof (induction n arbitrary: s')
  case (Suc n)
  then obtain u where "(step ^^ n) s u" "step u s'" by auto
  then show ?case using Suc.IH [of u] decreases [of u s'] by simp
qed simp

lemma run_ends: "\<exists>s'. step\<^sup>*\<^sup>* s s' \<and> (\<forall>u. \<not> step s' u)"
proof (induction "size_of s" arbitrary: s rule: less_induct)
  case less
  show ?case
  proof (cases "\<exists>u. step s u")
    case True
    then obtain u where u: "step s u" by blast
    from less [OF decreases [OF u]] obtain s' where "step\<^sup>*\<^sup>* u s'" "\<forall>v. \<not> step s' v" by blast
    then show ?thesis using u by (meson converse_rtranclp_into_rtranclp)
  qed blast
qed

end

section \<open>Weights of a list of workers\<close>

lemma sum_list_map_split:
  fixes g :: "'a \<Rightarrow> nat"
  assumes "i < length xs"
  shows "sum_list (map g xs) = sum_list (map g (take i xs)) + g (xs ! i) + sum_list (map g (drop (Suc i) xs))"
  by (subst (1) id_take_nth_drop [OF assms]) simp

lemma sum_list_map_update:
  fixes g :: "'a \<Rightarrow> nat"
  shows "i < length xs \<Longrightarrow> sum_list (map g (xs[i := y])) + g (xs ! i) = sum_list (map g xs) + g y"
  using sum_list_map_split [of i xs g] by (simp add: upd_conv_take_nth_drop)

lemma sum_list_map_remove:
  fixes g :: "'a \<Rightarrow> nat"
  shows "i < length xs \<Longrightarrow> sum_list (map g (take i xs)) + sum_list (map g (drop (Suc i) xs)) + g (xs ! i) = sum_list (map g xs)"
  using sum_list_map_split [of i xs g] by simp

end
