(* ===== verification/Scan_Model.thy ===== *)
theory Scan_Model
  imports Go_Time Go_Float64
begin

text \<open>
  The normalised scan model of \<open>internal/scanners/scanner.go\<close> and \<open>severity.go\<close>: image
  references, findings, the summary by severity, the severities and their ranks. A
  severity is a string type in the source, and so it is here.
\<close>

section \<open>Severities\<close>

type_synonym severity = string

definition SeverityCritical :: severity where "SeverityCritical = ''critical''"
definition SeverityHigh :: severity where "SeverityHigh = ''high''"
definition SeverityMedium :: severity where "SeverityMedium = ''medium''"
definition SeverityLow :: severity where "SeverityLow = ''low''"
definition SeverityUnknown :: severity where "SeverityUnknown = ''unknown''"

lemmas severity_defs =
  SeverityCritical_def SeverityHigh_def SeverityMedium_def SeverityLow_def SeverityUnknown_def

text \<open>The function returns a severity beside the error, so the result is a pair.\<close>

definition ParseSeverity :: "string \<Rightarrow> severity \<times> go_error option" where
  "ParseSeverity s =
     (if s = ''critical'' \<or> s = ''CRITICAL'' then (SeverityCritical, None)
      else if s = ''high'' \<or> s = ''HIGH'' then (SeverityHigh, None)
      else if s = ''medium'' \<or> s = ''MEDIUM'' then (SeverityMedium, None)
      else if s = ''low'' \<or> s = ''LOW'' then (SeverityLow, None)
      else if s = ''unknown'' \<or> s = ''UNKNOWN'' then (SeverityUnknown, None)
      else (SeverityUnknown, Some (ErrNew (''unknown severity: '' @ s))))"

definition Rank :: "severity \<Rightarrow> int" where
  "Rank s =
     (if s = SeverityCritical then 4
      else if s = SeverityHigh then 3
      else if s = SeverityMedium then 2
      else if s = SeverityLow then 1
      else 0)"

lemma Rank_values [simp]:
  "Rank SeverityCritical = 4" "Rank SeverityHigh = 3" "Rank SeverityMedium = 2"
  "Rank SeverityLow = 1" "Rank SeverityUnknown = 0"
  by (simp_all add: Rank_def severity_defs)

lemma severity_distinct [simp]:
  "SeverityCritical \<noteq> SeverityHigh" "SeverityCritical \<noteq> SeverityMedium" "SeverityCritical \<noteq> SeverityLow"
  "SeverityCritical \<noteq> SeverityUnknown" "SeverityHigh \<noteq> SeverityMedium" "SeverityHigh \<noteq> SeverityLow"
  "SeverityHigh \<noteq> SeverityUnknown" "SeverityMedium \<noteq> SeverityLow" "SeverityMedium \<noteq> SeverityUnknown"
  "SeverityLow \<noteq> SeverityUnknown"
  "SeverityHigh \<noteq> SeverityCritical" "SeverityMedium \<noteq> SeverityCritical" "SeverityLow \<noteq> SeverityCritical"
  "SeverityUnknown \<noteq> SeverityCritical" "SeverityMedium \<noteq> SeverityHigh" "SeverityLow \<noteq> SeverityHigh"
  "SeverityUnknown \<noteq> SeverityHigh" "SeverityLow \<noteq> SeverityMedium" "SeverityUnknown \<noteq> SeverityMedium"
  "SeverityUnknown \<noteq> SeverityLow"
  by (simp_all add: severity_defs)

definition known_severities :: "severity list" where
  "known_severities = [SeverityCritical, SeverityHigh, SeverityMedium, SeverityLow, SeverityUnknown]"

lemma ParseSeverity_known: "fst (ParseSeverity s) \<in> set known_severities"
  by (simp add: ParseSeverity_def known_severities_def)

lemma ParseSeverity_error: "snd (ParseSeverity s) \<noteq> None \<Longrightarrow> fst (ParseSeverity s) = SeverityUnknown"
  by (auto simp: ParseSeverity_def split: if_splits)

lemma ParseSeverity_roundtrip: "s \<in> set known_severities \<Longrightarrow> ParseSeverity s = (s, None)"
  by (auto simp: known_severities_def ParseSeverity_def severity_defs)

lemma Rank_bounds: "0 \<le> Rank s" "Rank s \<le> 4"
  by (simp_all add: Rank_def)

lemma Rank_inj:
  "s \<in> set known_severities \<Longrightarrow> t \<in> set known_severities \<Longrightarrow> Rank s = Rank t \<longleftrightarrow> s = t"
  by (auto simp: known_severities_def)

section \<open>Images, findings and results\<close>

record image_ref =
  img_Original :: string
  img_Registry :: string
  img_Repository :: string
  img_Tag :: string
  img_Digest :: string
  img_Resolved :: string

record vulnerability_summary =
  Critical :: int
  High :: int
  Medium :: int
  Low :: int
  Unknown :: int

definition Total :: "vulnerability_summary \<Rightarrow> int" where
  "Total vs = i64 (Critical vs + High vs + Medium vs + Low vs + Unknown vs)"

record risk_hints =
  EPSSScore :: float64
  KEV :: bool

record finding =
  f_ID :: string
  f_CVE :: string
  f_Package :: string
  f_Installed :: string
  f_Fixed :: string
  f_Severity :: severity
  f_Title :: string
  f_URL :: string
  f_Exploitable :: bool
  f_FixAvailable :: bool
  f_ScannerAttribution :: string
  f_RiskHints :: risk_hints

record scan_result =
  sr_Scanner :: string
  sr_Image :: image_ref
  sr_ScannedAt :: time
  sr_Summary :: vulnerability_summary
  sr_Findings :: "finding list"
  sr_ReportURL :: string
  sr_SBOMURL :: string

definition zero_summary :: vulnerability_summary where
  "zero_summary = \<lparr>Critical = 0, High = 0, Medium = 0, Low = 0, Unknown = 0\<rparr>"

definition zero_hints :: risk_hints where
  "zero_hints = \<lparr>EPSSScore = Fin 0, KEV = False\<rparr>"

definition zero_image :: image_ref where
  "zero_image = \<lparr>img_Original = [], img_Registry = [], img_Repository = [], img_Tag = [],
     img_Digest = [], img_Resolved = []\<rparr>"

text \<open>
  The summary a scanner reports: counts that are not negative and whose sum an \<open>int\<close>
  holds. Each driver keeps it, for its counts are the numbers of its findings.
\<close>

definition wf_summary :: "vulnerability_summary \<Rightarrow> bool" where
  "wf_summary vs \<longleftrightarrow> 0 \<le> Critical vs \<and> 0 \<le> High vs \<and> 0 \<le> Medium vs \<and> 0 \<le> Low vs \<and> 0 \<le> Unknown vs
     \<and> Critical vs + High vs + Medium vs + Low vs + Unknown vs \<le> max_int64"

lemma Total_wf:
  "wf_summary vs \<Longrightarrow> Total vs = Critical vs + High vs + Medium vs + Low vs + Unknown vs"
  unfolding Total_def
  by (rule i64_id) (auto simp: wf_summary_def in_i64_def min_int64_def)

lemma Total_eq_0_iff:
  "wf_summary vs \<Longrightarrow> Total vs = 0 \<longleftrightarrow>
     Critical vs = 0 \<and> High vs = 0 \<and> Medium vs = 0 \<and> Low vs = 0 \<and> Unknown vs = 0"
  by (auto simp: Total_wf wf_summary_def)

section \<open>Counting findings by severity\<close>

text \<open>
  The counter each driver increments for a finding. A count is at most the number of
  findings, the length of a slice, so the increments cannot overflow.
\<close>

definition incrementSummary :: "vulnerability_summary \<Rightarrow> severity \<Rightarrow> vulnerability_summary" where
  "incrementSummary vs sev =
     (if sev = SeverityCritical then vs\<lparr>Critical := Critical vs + 1\<rparr>
      else if sev = SeverityHigh then vs\<lparr>High := High vs + 1\<rparr>
      else if sev = SeverityMedium then vs\<lparr>Medium := Medium vs + 1\<rparr>
      else if sev = SeverityLow then vs\<lparr>Low := Low vs + 1\<rparr>
      else vs\<lparr>Unknown := Unknown vs + 1\<rparr>)"

definition count_sev :: "severity \<Rightarrow> finding list \<Rightarrow> int" where
  "count_sev s fs = int (length (filter (\<lambda>f. f_Severity f = s) fs))"

definition count_other :: "finding list \<Rightarrow> int" where
  "count_other fs = int (length (filter (\<lambda>f. f_Severity f \<notin>
     {SeverityCritical, SeverityHigh, SeverityMedium, SeverityLow}) fs))"

text \<open>The specification: the summary of a list of findings.\<close>

definition summary_of :: "finding list \<Rightarrow> vulnerability_summary" where
  "summary_of fs = \<lparr>Critical = count_sev SeverityCritical fs, High = count_sev SeverityHigh fs,
     Medium = count_sev SeverityMedium fs, Low = count_sev SeverityLow fs, Unknown = count_other fs\<rparr>"

lemma summary_of_Nil [simp]: "summary_of [] = zero_summary"
  by (simp add: summary_of_def count_sev_def count_other_def zero_summary_def)

lemma summary_of_snoc: "summary_of (fs @ [f]) = incrementSummary (summary_of fs) (f_Severity f)"
  by (auto simp: summary_of_def incrementSummary_def count_sev_def count_other_def)

lemma foldl_incrementSummary:
  "foldl (\<lambda>vs f. incrementSummary vs (f_Severity f)) zero_summary fs = summary_of fs"
  by (induction fs rule: rev_induct) (simp_all add: summary_of_snoc)

lemma summary_of_sum:
  "Critical (summary_of fs) + High (summary_of fs) + Medium (summary_of fs) + Low (summary_of fs)
     + Unknown (summary_of fs) = int (length fs)"
  by (induction fs rule: rev_induct)
    (simp add: zero_summary_def, auto simp: summary_of_snoc incrementSummary_def)

lemma wf_summary_of: "int (length fs) \<le> max_int64 \<Longrightarrow> wf_summary (summary_of fs)"
  using summary_of_sum [of fs]
  by (simp add: wf_summary_def) (simp add: summary_of_def count_sev_def count_other_def)

lemma Total_summary_of: "int (length fs) \<le> max_int64 \<Longrightarrow> Total (summary_of fs) = int (length fs)"
  using wf_summary_of [of fs] summary_of_sum [of fs] by (simp add: Total_wf)

end
