(* ===== verification/Image_Ref.thy ===== *)
theory Image_Ref
  imports Go_Prelude
begin

text \<open>
  The images of a workload: the extractor of \<open>internal/controller/image_extractor.go\<close>, the
  reference parser of \<open>internal/registry/image_ref.go\<close> and the digest resolver of
  \<open>resolver.go\<close>. The registry client that asks for a digest is a library: its answer to a
  reference is the argument \<open>crane_Digest\<close>.
\<close>

section \<open>Extraction from a pod spec\<close>

record container =
  c_Name :: string
  c_Image :: string

record pod_spec =
  Containers :: "container list"
  InitContainers :: "container list"
  EphemeralContainers :: "container list"

record extracted_image =
  ei_Image :: string
  ei_ContainerName :: string

fun extract_loop :: "extracted_image list \<Rightarrow> container list \<Rightarrow> extracted_image list" where
  "extract_loop images [] = images"
| "extract_loop images (c # cs) =
     (if c_Image c \<noteq> []
      then extract_loop (images @ [\<lparr>ei_Image = c_Image c, ei_ContainerName = c_Name c\<rparr>]) cs
      else extract_loop images cs)"

definition FromPodSpec :: "pod_spec \<Rightarrow> extracted_image list" where
  "FromPodSpec spec =
     (let images = extract_loop [] (Containers spec);
          images = extract_loop images (InitContainers spec)
      in extract_loop images (EphemeralContainers spec))"

definition image_of :: "container \<Rightarrow> extracted_image" where
  "image_of c = \<lparr>ei_Image = c_Image c, ei_ContainerName = c_Name c\<rparr>"

lemma extract_loop_eq:
  "extract_loop images cs = images @ map image_of (filter (\<lambda>c. c_Image c \<noteq> []) cs)"
  by (induction images cs rule: extract_loop.induct) (auto simp: image_of_def)

lemma FromPodSpec_eq:
  "FromPodSpec spec = map image_of (filter (\<lambda>c. c_Image c \<noteq> [])
     (Containers spec @ InitContainers spec @ EphemeralContainers spec))"
  by (simp add: FromPodSpec_def extract_loop_eq)

lemma FromPodSpec_nonempty: "e \<in> set (FromPodSpec spec) \<Longrightarrow> ei_Image e \<noteq> []"
  by (auto simp: FromPodSpec_eq image_of_def)

section \<open>Parsing a reference\<close>

record reg_image_ref =
  Original :: string
  Registry :: string
  Repository :: string
  Tag :: string
  Digest :: string
  Resolved :: string

definition new_ref :: "string \<Rightarrow> reg_image_ref" where
  "new_ref s = \<lparr>Original = s, Registry = [], Repository = [], Tag = [], Digest = [], Resolved = []\<rparr>"

text \<open>The functions that fill the reference through a pointer return it updated.\<close>

definition splitDigest :: "string \<Rightarrow> reg_image_ref \<Rightarrow> string \<times> reg_image_ref" where
  "splitDigest imageStr ref =
     (let idx = Index imageStr ''@'' in
      if -1 < idx
      then (take (nat idx) imageStr, ref\<lparr>Digest := drop (nat idx + 1) imageStr\<rparr>)
      else (imageStr, ref))"

definition parseRepositoryTag :: "string \<Rightarrow> string \<times> string" where
  "parseRepositoryTag value =
     (if -1 < Index value '':''
      then (let parts = SplitN value CHR '':'' 2 in (parts ! 0, parts ! 1))
      else (value, []))"

definition assignDefaultTagIfNeeded :: "reg_image_ref \<Rightarrow> string \<Rightarrow> reg_image_ref" where
  "assignDefaultTagIfNeeded ref tag =
     (if tag \<noteq> [] then ref\<lparr>Tag := tag\<rparr>
      else if Digest ref = [] then ref\<lparr>Tag := ''latest''\<rparr>
      else ref)"

definition isRegistryHost :: "string \<Rightarrow> bool" where
  "isRegistryHost value \<longleftrightarrow> Contains value ''.'' \<or> Contains value '':'' \<or> value = ''localhost''"

definition applyRegistryAndRepository :: "string \<Rightarrow> reg_image_ref \<Rightarrow> reg_image_ref" where
  "applyRegistryAndRepository imagePart ref =
     (let slashIdx = Index imagePart ''/'' in
      if slashIdx = -1 then
        let (repo, tag) = parseRepositoryTag imagePart in
        assignDefaultTagIfNeeded
          (ref\<lparr>Registry := ''docker.io'', Repository := ''library/'' @ repo\<rparr>) tag
      else
        let beforeSlash = take (nat slashIdx) imagePart;
            afterSlash = drop (nat slashIdx + 1) imagePart
        in if isRegistryHost beforeSlash then
             let (repo, tag) = parseRepositoryTag afterSlash in
             assignDefaultTagIfNeeded (ref\<lparr>Registry := beforeSlash, Repository := repo\<rparr>) tag
           else
             let (repo, tag) = parseRepositoryTag imagePart in
             assignDefaultTagIfNeeded (ref\<lparr>Registry := ''docker.io'', Repository := repo\<rparr>) tag)"

definition buildResolved :: "string \<Rightarrow> reg_image_ref \<Rightarrow> string" where
  "buildResolved imagePart ref =
     (if Digest ref \<noteq> [] then imagePart @ ''@'' @ Digest ref
      else if Tag ref = ''latest'' \<and> \<not> Contains imagePart '':'' then imagePart @ '':latest''
      else imagePart)"

definition Parse :: "string \<Rightarrow> reg_image_ref result" where
  "Parse imageStr =
     (if imageStr = [] then Inl (ErrNew ''empty image reference'')
      else
        let ref = new_ref imageStr;
            (imagePart, ref) = splitDigest imageStr ref;
            ref = applyRegistryAndRepository imagePart ref
        in Inr (ref\<lparr>Resolved := buildResolved imagePart ref\<rparr>))"

lemma splitDigest_cases:
  "splitDigest s ref =
     (if CHR ''@'' \<in> set s
      then (takeWhile (\<lambda>c. c \<noteq> CHR ''@'') s,
            ref\<lparr>Digest := tl (dropWhile (\<lambda>c. c \<noteq> CHR ''@'') s)\<rparr>)
      else (s, ref))"
proof -
  have "drop (length (takeWhile P s) + 1) s = tl (dropWhile P s)" for P
    by (metis drop_Suc drop_length_takeWhile plus_1_eq_Suc add.commute tl_drop)
  then show ?thesis by (simp add: splitDigest_def Index_single Let_def)
qed

lemma parseRepositoryTag_eq:
  "parseRepositoryTag v =
     (if CHR '':'' \<in> set v
      then (takeWhile (\<lambda>c. c \<noteq> CHR '':'') v, tl (dropWhile (\<lambda>c. c \<noteq> CHR '':'') v))
      else (v, []))"
  by (simp add: parseRepositoryTag_def Index_single numeral_2_eq_2)

lemma assignDefaultTag_fields [simp]:
  "Original (assignDefaultTagIfNeeded ref t) = Original ref"
  "Registry (assignDefaultTagIfNeeded ref t) = Registry ref"
  "Repository (assignDefaultTagIfNeeded ref t) = Repository ref"
  "Digest (assignDefaultTagIfNeeded ref t) = Digest ref"
  "Resolved (assignDefaultTagIfNeeded ref t) = Resolved ref"
  by (simp_all add: assignDefaultTagIfNeeded_def)

lemma assignDefaultTag_Tag:
  "Tag ref = [] \<Longrightarrow> Tag (assignDefaultTagIfNeeded ref t) =
     (if t \<noteq> [] then t else if Digest ref = [] then ''latest'' else [])"
  by (simp add: assignDefaultTagIfNeeded_def)

text \<open>What the registry and repository step leaves alone, and what it sets.\<close>

lemma applyRegistry_fields [simp]:
  "Original (applyRegistryAndRepository p ref) = Original ref"
  "Digest (applyRegistryAndRepository p ref) = Digest ref"
  "Resolved (applyRegistryAndRepository p ref) = Resolved ref"
  by (simp_all add: applyRegistryAndRepository_def Let_def split: prod.split)

lemma applyRegistry_Registry: "Registry (applyRegistryAndRepository p ref) \<noteq> []"
proof -
  have "isRegistryHost v \<Longrightarrow> v \<noteq> []" for v by (auto simp: isRegistryHost_def)
  then show ?thesis by (simp add: applyRegistryAndRepository_def Let_def split: prod.split)
qed

lemma applyRegistry_Tag:
  "Tag ref = [] \<Longrightarrow> Digest ref = [] \<Longrightarrow> Tag (applyRegistryAndRepository p ref) \<noteq> []"
  by (simp add: applyRegistryAndRepository_def Let_def assignDefaultTag_Tag split: prod.split)

lemma Index_sep: "c \<notin> set a \<Longrightarrow> Index (a @ c # b) [c] = int (length a)"
  by (simp add: Index_single)

lemma parseRepositoryTag_sep:
  "CHR '':'' \<notin> set r \<Longrightarrow> parseRepositoryTag (r @ CHR '':'' # t) = (r, t)"
  by (simp add: parseRepositoryTag_eq)

lemma parseRepositoryTag_none: "CHR '':'' \<notin> set r \<Longrightarrow> parseRepositoryTag r = (r, [])"
  by (simp add: parseRepositoryTag_eq)

section \<open>Resolution to a digest\<close>

text \<open>
  The source returns the reference beside the error; the caller drops it then, but the
  pair is kept here.
\<close>

definition Resolve ::
  "(string \<Rightarrow> string result) \<Rightarrow> reg_image_ref \<Rightarrow> reg_image_ref \<times> go_error option" where
  "Resolve crane_Digest imageRef =
     (if Digest imageRef \<noteq> [] then (imageRef, None)
      else case crane_Digest (Resolved imageRef) of
          Inl err \<Rightarrow> (imageRef, Some (ErrWrap ''resolve digest: '' err []))
        | Inr digest \<Rightarrow>
            (\<lparr>Original = Original imageRef, Registry = Registry imageRef,
              Repository = Repository imageRef, Tag = Tag imageRef, Digest = digest,
              Resolved = Registry imageRef @ ''/'' @ Repository imageRef @ ''@'' @ digest\<rparr>, None))"


section \<open>Properties\<close>

text \<open>C39: Parsing fails on the empty string only; a parsed reference keeps the input as its
  original, always names a registry, and carries a tag or a digest, so that it denotes an
  image.\<close>

theorem Parse_wellformed:
  "(Parse s = Inl (ErrNew ''empty image reference'') \<longleftrightarrow> s = []) \<and>
   (s \<noteq> [] \<longrightarrow> (\<exists>r. Parse s = Inr r \<and> Original r = s \<and> Registry r \<noteq> [] \<and>
      (Tag r \<noteq> [] \<or> Digest r \<noteq> [])))"
proof (cases "s = []")
  case True
  then show ?thesis by (simp add: Parse_def)
next
  case False
  obtain p ref where sd: "splitDigest s (new_ref s) = (p, ref)"
    by (cases "splitDigest s (new_ref s)") auto
  then have "Original ref = s" "Tag ref = []"
    by (auto simp: splitDigest_cases new_ref_def split: if_splits)
  then show ?thesis
    using False applyRegistry_Registry [of p ref] applyRegistry_Tag [of ref p]
    by (auto simp: Parse_def Let_def sd)
qed

theorem Parse_wellformed_witness:
  "\<exists>r. Parse ''nginx@'' = Inr r \<and> Original r = ''nginx@'' \<and> Registry r \<noteq> [] \<and>
     (Tag r \<noteq> [] \<or> Digest r \<noteq> [])"
  using Parse_wellformed [of "''nginx@''"] by simp

text \<open>A reference that carries a digest is pinned: what the scanners are given is the input
  itself, and the resolver returns it unchanged without asking the registry.\<close>

theorem Parse_pinned_verbatim:
  assumes "Parse s = Inr r" and "Digest r \<noteq> []"
  shows "Resolved r = s \<and> Resolve dg r = (r, None)"
proof -
  obtain p ref where sd: "splitDigest s (new_ref s) = (p, ref)"
    by (cases "splitDigest s (new_ref s)") auto
  have r: "r = applyRegistryAndRepository p ref
      \<lparr>Resolved := buildResolved p (applyRegistryAndRepository p ref)\<rparr>"
    using assms(1) by (auto simp: Parse_def Let_def sd split: if_splits)
  with assms(2) have "Digest ref \<noteq> []" by simp
  then have at: "CHR ''@'' \<in> set s" "p = takeWhile (\<lambda>c. c \<noteq> CHR ''@'') s"
      "Digest ref = tl (dropWhile (\<lambda>c. c \<noteq> CHR ''@'') s)"
    using sd by (auto simp: splitDigest_cases new_ref_def split: if_splits)
  then have "Resolved r = s"
    using split_at_char [OF at(1)] \<open>Digest ref \<noteq> []\<close> by (simp add: r buildResolved_def)
  with assms(2) show ?thesis by (simp add: Resolve_def)
qed

theorem Parse_pinned_verbatim_witness:
  "\<exists>r. Parse ''ghcr.io/a/b:1@sha256:ff'' = Inr r \<and> Digest r = ''sha256:ff'' \<and>
     Resolved r = ''ghcr.io/a/b:1@sha256:ff''"
proof -
  obtain r where r: "Parse ''ghcr.io/a/b:1@sha256:ff'' = Inr r" "Digest r = ''sha256:ff''"
    by (simp add: Parse_def splitDigest_cases new_ref_def Let_def)
  with Parse_pinned_verbatim [OF r(1)] show ?thesis by simp
qed

text \<open>Parsing recovers the parts of a reference that was written out in full: a registry
  host, a repository and a tag, with no digest, come back as they were put together.\<close>

theorem Parse_full_reference:
  assumes "isRegistryHost host" and "CHR ''/'' \<notin> set host"
    and "CHR '':'' \<notin> set repo" and "tag \<noteq> []" and "CHR ''@'' \<notin> set (host @ repo @ tag)"
  shows "Parse (host @ ''/'' @ repo @ '':'' @ tag) =
    Inr \<lparr>Original = host @ ''/'' @ repo @ '':'' @ tag, Registry = host, Repository = repo,
      Tag = tag, Digest = [], Resolved = host @ ''/'' @ repo @ '':'' @ tag\<rparr>"
proof -
  let ?s = "host @ CHR ''/'' # repo @ CHR '':'' # tag"
  have idx: "Index ?s ''/'' = int (length host)"
    using Index_sep [OF assms(2)] by simp
  have "splitDigest ?s (new_ref ?s) = (?s, new_ref ?s)"
    using assms(5) by (simp add: splitDigest_cases)
  moreover have "applyRegistryAndRepository ?s (new_ref ?s) =
      (new_ref ?s)\<lparr>Registry := host, Repository := repo, Tag := tag\<rparr>"
    using assms(1,4) parseRepositoryTag_sep [OF assms(3), of tag]
    by (simp add: applyRegistryAndRepository_def idx Let_def assignDefaultTagIfNeeded_def)
  ultimately show ?thesis
    by (simp add: Parse_def new_ref_def buildResolved_def)
qed

theorem Parse_full_reference_witness:
  "Parse ''localhost:5000/team/app:v1'' =
    Inr \<lparr>Original = ''localhost:5000/team/app:v1'', Registry = ''localhost:5000'',
      Repository = ''team/app'', Tag = ''v1'', Digest = [], Resolved = ''localhost:5000/team/app:v1''\<rparr>"
  using Parse_full_reference [of "''localhost:5000''" "''team/app''" "''v1''"]
  by (simp add: isRegistryHost_def Contains_def Index_def)

text \<open>A resolved image is pinned to a digest: when the registry answers with digests that
  are not empty, a resolution without error yields a digest and a reference that ends with it.\<close>

theorem Resolve_pins:
  assumes "Parse s = Inr r" and "Resolve dg r = (r', None)"
    and "\<And>q d. dg q = Inr d \<Longrightarrow> d \<noteq> []"
  shows "Digest r' \<noteq> [] \<and> (\<exists>p. Resolved r' = p @ ''@'' @ Digest r') \<and> Original r' = s \<and>
    Registry r' = Registry r \<and> Repository r' = Repository r \<and> Tag r' = Tag r"
proof -
  obtain p ref where sd: "splitDigest s (new_ref s) = (p, ref)"
    by (cases "splitDigest s (new_ref s)") auto
  have r: "r = applyRegistryAndRepository p ref
      \<lparr>Resolved := buildResolved p (applyRegistryAndRepository p ref)\<rparr>"
    using assms(1) by (auto simp: Parse_def Let_def sd split: if_splits)
  have "Original ref = s"
    using sd by (auto simp: splitDigest_cases new_ref_def split: if_splits)
  then have o: "Original r = s" by (simp add: r)
  show ?thesis
  proof (cases "Digest r = []")
    case True
    with assms(2) obtain d where "dg (Resolved r) = Inr d"
      by (auto simp: Resolve_def split: sum.splits)
    with True assms(2,3) o show ?thesis
      by (auto simp: Resolve_def)
  next
    case False
    with assms(2) have "r' = r" by (simp add: Resolve_def)
    moreover have "Resolved r = p @ ''@'' @ Digest r" using False by (simp add: r buildResolved_def)
    ultimately show ?thesis using False o by blast
  qed
qed

theorem Resolve_pins_witness:
  "\<exists>r r'. Parse ''nginx'' = Inr r \<and> Resolve (\<lambda>q. Inr ''sha256:ab'') r = (r', None) \<and>
     Digest r' = ''sha256:ab'' \<and> (\<exists>p. Resolved r' = p @ ''@'' @ Digest r')"
proof -
  obtain r where r: "Parse ''nginx'' = Inr r" "Digest r = []"
    by (simp add: Parse_def splitDigest_cases new_ref_def Let_def)
  then obtain r' where r': "Resolve (\<lambda>q. Inr ''sha256:ab'') r = (r', None)" "Digest r' = ''sha256:ab''"
    by (simp add: Resolve_def)
  from Resolve_pins [OF r(1) r'(1)] r r' show ?thesis by auto
qed

end
