(* ===== verification/Policy.thy ===== *)
theory Policy
  imports Scan_Model Go_Sha256
begin

text \<open>
  The publication policy of \<open>internal/policy/evaluator.go\<close>: the fingerprint of a scan
  result and the decision whether to publish it again. The fingerprint hashes a text made
  of the scanner, the digest, the five counts and the sorted CVE identifiers.
\<close>

section \<open>Fingerprints\<close>

definition extractCVEs :: "finding list \<Rightarrow> string list" where
  "extractCVEs findings = sort (filter (\<lambda>c. c \<noteq> []) (map f_CVE findings))"

definition fingerprint_text :: "scan_result \<Rightarrow> string" where
  "fingerprint_text result =
     (let s = sr_Summary result in
      sr_Scanner result @ ''|'' @ img_Digest (sr_Image result) @ ''|''
      @ show_int (Critical s) @ '','' @ show_int (High s) @ '','' @ show_int (Medium s) @ '',''
      @ show_int (Low s) @ '','' @ show_int (Unknown s) @ ''|''
      @ concat (map (\<lambda>cve. cve @ '','') (extractCVEs (sr_Findings result))))"

definition Fingerprint :: "scan_result \<Rightarrow> string" where
  "Fingerprint result = ''sha256:'' @ hex_string (sha256 (fingerprint_text result))"

definition EvaluatePublish :: "scan_result \<Rightarrow> string \<Rightarrow> bool \<Rightarrow> bool" where
  "EvaluatePublish result lastFingerprint onlyOnChange =
     (let currentFingerprint = Fingerprint result in
      if lastFingerprint = [] then True
      else if currentFingerprint \<noteq> lastFingerprint then True
      else if onlyOnChange then False
      else True)"

lemma sort_mset_eq: "mset xs = mset ys \<Longrightarrow> sort xs = sort ys"
  by (metis mset_sort properties_for_sort sorted_sort)

lemma extractCVEs_mset:
  "mset (extractCVEs fs) = filter_mset (\<lambda>c. c \<noteq> []) (image_mset f_CVE (mset fs))"
  by (simp add: extractCVEs_def)

lemma Fingerprint_not_Nil [simp]: "Fingerprint r \<noteq> []"
  by (simp add: Fingerprint_def)

lemma length_Fingerprint [simp]: "length (Fingerprint r) = 71"
  by (simp add: Fingerprint_def)

lemma concat_sep_inj:
  assumes "\<forall>c \<in> set xs. CHR '','' \<notin> set c" and "\<forall>c \<in> set ys. CHR '','' \<notin> set c"
    and "concat (map (\<lambda>c. c @ '','') xs) = concat (map (\<lambda>c. c @ '','') ys)"
  shows "xs = ys"
  using assms
proof (induction xs arbitrary: ys)
  case Nil
  then show ?case by (cases ys) auto
next
  case (Cons x xs)
  then obtain y ys' where ys: "ys = y # ys'" by (cases ys) auto
  have "x @ CHR '','' # concat (map (\<lambda>c. c @ '','') xs)
      = y @ CHR '','' # concat (map (\<lambda>c. c @ '','') ys')"
    using Cons.prems(3) by (simp add: ys)
  moreover have "CHR '','' \<notin> set x" "CHR '','' \<notin> set y"
    using Cons.prems(1,2) by (simp_all add: ys)
  ultimately have eq: "x = y \<and> concat (map (\<lambda>c. c @ '','') xs) = concat (map (\<lambda>c. c @ '','') ys')"
    by (metis append_sep_inj)
  have "xs = ys'"
    by (rule Cons.IH) (use Cons.prems(1,2) eq ys in simp_all)
  with eq show ?case by (simp add: ys)
qed

section \<open>Properties\<close>

text \<open>C38: The fingerprint is stable: it depends on the scanner, the digest, the counts and the
  multiset of non-empty CVE identifiers only, so the order in which a scanner lists its
  findings, the time of the scan and the other fields of the findings do not change it.\<close>

theorem Fingerprint_stable:
  assumes "sr_Scanner r1 = sr_Scanner r2"
    and "img_Digest (sr_Image r1) = img_Digest (sr_Image r2)"
    and "sr_Summary r1 = sr_Summary r2"
    and "filter_mset (\<lambda>c. c \<noteq> []) (image_mset f_CVE (mset (sr_Findings r1))) =
         filter_mset (\<lambda>c. c \<noteq> []) (image_mset f_CVE (mset (sr_Findings r2)))"
  shows "Fingerprint r1 = Fingerprint r2"
proof -
  have "mset (filter (\<lambda>c. c \<noteq> []) (map f_CVE (sr_Findings r1))) =
      mset (filter (\<lambda>c. c \<noteq> []) (map f_CVE (sr_Findings r2)))"
    using assms(4) by simp
  then have "extractCVEs (sr_Findings r1) = extractCVEs (sr_Findings r2)"
    unfolding extractCVEs_def by (rule sort_mset_eq)
  with assms(1-3) show ?thesis by (simp add: Fingerprint_def fingerprint_text_def)
qed

definition ex_finding :: "string \<Rightarrow> severity \<Rightarrow> finding" where
  "ex_finding cve sev = \<lparr>f_ID = cve, f_CVE = cve, f_Package = ''openssl'', f_Installed = ''1.0'',
     f_Fixed = [], f_Severity = sev, f_Title = [], f_URL = [], f_Exploitable = False,
     f_FixAvailable = False, f_ScannerAttribution = ''trivy'', f_RiskHints = zero_hints\<rparr>"

definition ex_result :: "finding list \<Rightarrow> scan_result" where
  "ex_result fs = \<lparr>sr_Scanner = ''trivy'', sr_Image = zero_image\<lparr>img_Digest := ''sha256:ab''\<rparr>,
     sr_ScannedAt = 0, sr_Summary = summary_of fs, sr_Findings = fs, sr_ReportURL = [], sr_SBOMURL = []\<rparr>"

theorem Fingerprint_stable_witness:
  "Fingerprint (ex_result [ex_finding ''CVE-2'' SeverityHigh, ex_finding ''CVE-1'' SeverityHigh]) =
   Fingerprint (ex_result [ex_finding ''CVE-1'' SeverityHigh, ex_finding ''CVE-2'' SeverityHigh])"
  by (rule Fingerprint_stable)
    (simp_all add: ex_result_def ex_finding_def summary_of_def count_sev_def count_other_def)

text \<open>The hashed text identifies what it is made of: for scanner names and digests without
  a bar and CVE identifiers without a comma, two results with the same text have the same
  scanner, digest, counts and CVE identifiers. Two different results can therefore share a
  fingerprint only through a collision of SHA-256.\<close>

theorem fingerprint_text_injective:
  assumes "CHR ''|'' \<notin> set (sr_Scanner r1)" "CHR ''|'' \<notin> set (sr_Scanner r2)"
    and "CHR ''|'' \<notin> set (img_Digest (sr_Image r1))" "CHR ''|'' \<notin> set (img_Digest (sr_Image r2))"
    and "\<forall>f \<in> set (sr_Findings r1). CHR '','' \<notin> set (f_CVE f)"
    and "\<forall>f \<in> set (sr_Findings r2). CHR '','' \<notin> set (f_CVE f)"
    and "fingerprint_text r1 = fingerprint_text r2"
  shows "sr_Scanner r1 = sr_Scanner r2 \<and> img_Digest (sr_Image r1) = img_Digest (sr_Image r2) \<and>
    sr_Summary r1 = sr_Summary r2 \<and> extractCVEs (sr_Findings r1) = extractCVEs (sr_Findings r2)"
proof -
  have sep: "set (extractCVEs fs) \<subseteq> f_CVE ` set fs" for fs by (auto simp: extractCVEs_def)
  have "\<forall>c \<in> set (extractCVEs (sr_Findings r1)). CHR '','' \<notin> set c"
      "\<forall>c \<in> set (extractCVEs (sr_Findings r2)). CHR '','' \<notin> set c"
    using assms(5,6) sep by blast+
  with assms show ?thesis
    by (auto simp: fingerprint_text_def Let_def append_sep_inj
        intro!: vulnerability_summary.equality dest: concat_sep_inj)
qed

theorem fingerprint_text_injective_witness:
  "let r = ex_result [ex_finding ''CVE-2'' SeverityHigh] in
   extractCVEs (sr_Findings r) = extractCVEs (sr_Findings (r\<lparr>sr_ScannedAt := 5\<rparr>))"
proof -
  let ?r = "ex_result [ex_finding ''CVE-2'' SeverityHigh]"
  have "fingerprint_text ?r = fingerprint_text (?r\<lparr>sr_ScannedAt := 5\<rparr>)"
    by (simp add: fingerprint_text_def)
  from fingerprint_text_injective [OF _ _ _ _ _ _ this] show ?thesis
    by (simp add: ex_result_def ex_finding_def zero_image_def)
qed

text \<open>The decision to publish: with the flag that restricts publication to changes, a result
  is held back exactly when its fingerprint is the stored one; without the flag it is always
  published.\<close>

theorem EvaluatePublish_iff:
  "EvaluatePublish r lastFingerprint onlyOnChange \<longleftrightarrow>
     \<not> (onlyOnChange \<and> Fingerprint r = lastFingerprint)"
  by (auto simp: EvaluatePublish_def Let_def)

end
