(* ===== verification/Publisher.thy ===== *)
theory Publisher
  imports Scan_Model Go_Sort "HOL-Library.Product_Lexorder"
begin

text \<open>
  The Komodor events of \<open>internal/komodor\<close>: when a result is worth an event, the event built
  from a result (\<open>publisher.go\<close>), and how the answer to the validation of the API key is
  judged (\<open>client.go\<close>).
\<close>

section \<open>Events\<close>

record workload_context =
  wc_ClusterName :: string
  wc_Namespace :: string
  wc_Kind :: string
  wc_Name :: string
  wc_UID :: string
  wc_APIVersion :: string
  wc_Container :: string

record event_options =
  MinimumSeverity :: string
  IncludeTopFindings :: int
  PublishCleanScans :: bool

record scope =
  Clusters :: "string list"
  Namespaces :: "string list"
  ServicesNames :: "string list"

datatype detail = DStr string | DInt int | DStrs "string list" | DTime time

record event =
  ev_EventType :: string
  ev_Summary :: string
  ev_Severity :: string
  ev_Scope :: scope
  ev_Details :: "(string \<times> detail) list"

section \<open>When to publish\<close>

definition severityRank :: "string \<Rightarrow> int" where
  "severityRank s =
     (let l = ToLower s in
      if l = ''critical'' then 4 else if l = ''high'' then 3
      else if l = ''medium'' then 2 else if l = ''low'' then 1 else 0)"

definition hasRiskAtLevel :: "scan_result \<Rightarrow> int \<Rightarrow> bool" where
  "hasRiskAtLevel result minRank =
     (let s = sr_Summary result in
      if 0 < Critical s \<and> 4 \<ge> minRank then True
      else if 0 < High s \<and> 3 \<ge> minRank then True
      else if 0 < Medium s \<and> 2 \<ge> minRank then True
      else if 0 < Low s \<and> 1 \<ge> minRank then True
      else False)"

definition ShouldPublish :: "scan_result \<Rightarrow> event_options \<Rightarrow> bool" where
  "ShouldPublish result opts =
     (if Total (sr_Summary result) = 0 then PublishCleanScans opts
      else hasRiskAtLevel result (severityRank (MinimumSeverity opts)))"

section \<open>The event of a result\<close>

definition finding_less :: "finding \<Rightarrow> finding \<Rightarrow> bool" where
  "finding_less fi fj =
     (if f_Exploitable fi \<noteq> f_Exploitable fj then f_Exploitable fi
      else if Rank (f_Severity fi) \<noteq> Rank (f_Severity fj)
        then Rank (f_Severity fi) > Rank (f_Severity fj)
      else if f_FixAvailable fi \<noteq> f_FixAvailable fj then f_FixAvailable fi
      else f_CVE fi < f_CVE fj)"

definition take_cves :: "finding list \<Rightarrow> int \<Rightarrow> string list" where
  "take_cves sorted_fs limit = filter (\<lambda>c. c \<noteq> []) (map f_CVE (take (nat limit) sorted_fs))"

definition topFindingsList :: "finding list \<Rightarrow> int \<Rightarrow> string list" where
  "topFindingsList findings limit =
     (if limit \<le> 0 \<or> findings = [] then []
      else take_cves (sort_Slice finding_less findings) limit)"

fun countRiskContext :: "finding list \<Rightarrow> int \<times> int" where
  "countRiskContext [] = (0, 0)"
| "countRiskContext (f # fs) =
     (case countRiskContext fs of (fixable, exploitable) \<Rightarrow>
       (if f_FixAvailable f then fixable + 1 else fixable,
        if f_Exploitable f then exploitable + 1 else exploitable))"

definition mapSeverityToEvent :: "vulnerability_summary \<Rightarrow> string" where
  "mapSeverityToEvent s =
     (if 0 < Critical s then ''error'' else if 0 < High s then ''error''
      else if 0 < Medium s then ''warning'' else ''information'')"

definition EventFromScanResult ::
  "scan_result \<Rightarrow> workload_context \<Rightarrow> event_options \<Rightarrow> event" where
  "EventFromScanResult result workload opts =
     (let summary = sr_Summary result;
          topFindings = topFindingsList (sr_Findings result) (IncludeTopFindings opts);
          severity = mapSeverityToEvent summary;
          eventSummary = show_int (Total summary) @ '' vulnerability findings in ''
            @ wc_Namespace workload @ ''/'' @ wc_Name workload;
          detailsSummary =
            (if 0 < Critical summary then
               show_int (Critical summary) @ '' CRITICAL, '' @ show_int (High summary) @ '' HIGH, ''
               @ show_int (Medium summary) @ '' MEDIUM, '' @ show_int (Low summary) @ '' LOW''
             else if 0 < High summary then
               show_int (High summary) @ '' HIGH, '' @ show_int (Medium summary) @ '' MEDIUM, ''
               @ show_int (Low summary) @ '' LOW''
             else show_int (Medium summary) @ '' MEDIUM, '' @ show_int (Low summary) @ '' LOW'');
          (fixableCount, exploitableCount) = countRiskContext (sr_Findings result)
      in \<lparr>ev_EventType = ''vulnerability-scan'',
          ev_Summary = eventSummary,
          ev_Severity = severity,
          ev_Scope = \<lparr>Clusters = [wc_ClusterName workload], Namespaces = [wc_Namespace workload],
            ServicesNames = [wc_Name workload]\<rparr>,
          ev_Details =
           [(''cluster'', DStr (wc_ClusterName workload)),
            (''namespace'', DStr (wc_Namespace workload)),
            (''kind'', DStr (wc_Kind workload)),
            (''serviceName'', DStr (wc_Name workload)),
            (''container'', DStr (wc_Container workload)),
            (''scanner'', DStr (sr_Scanner result)),
            (''image'', DStr (img_Resolved (sr_Image result))),
            (''digest'', DStr (img_Digest (sr_Image result))),
            (''summary'', DStr detailsSummary),
            (''critical'', DInt (Critical summary)),
            (''high'', DInt (High summary)),
            (''medium'', DInt (Medium summary)),
            (''low'', DInt (Low summary)),
            (''topFindings'', DStrs topFindings),
            (''reportURL'', DStr (sr_ReportURL result)),
            (''scannedAt'', DTime (sr_ScannedAt result)),
            (''totalFindings'', DInt (Total summary)),
            (''minimumSeverity'', DStr (MinimumSeverity opts)),
            (''fixableFindings'', DInt fixableCount),
            (''exploitableFindings'', DInt exploitableCount)]\<rparr>)"

section \<open>The answer to an API key validation\<close>

record apiKeyValidationResponse =
  Valid :: bool
  Status :: string

definition evaluateAPIKeyValidation ::
  "int \<Rightarrow> string \<Rightarrow> apiKeyValidationResponse \<Rightarrow> go_error option" where
  "evaluateAPIKeyValidation statusCode body validationResp =
     (if statusCode = 403 \<or> EqualFold (Status validationResp) ''Forbidden''
        then Some (ErrNew ''invalid Komodor API key'')
      else if statusCode < 200 \<or> statusCode \<ge> 300
        then Some (ErrNew (''validate api key: status '' @ show_int statusCode @ '': '' @ body))
      else if \<not> Valid validationResp
        then Some (ErrNew (''validate api key: unexpected response: '' @ body))
      else None)"

lemma ToLower_forbidden: "ToLower ''Forbidden'' = ''forbidden''"
  by (simp add: ToLower_def lower_char_def)

section \<open>The order of the findings\<close>

type_synonym finding_key = "bool \<times> int \<times> bool \<times> string"

definition finding_key :: "finding \<Rightarrow> finding_key" where
  "finding_key f = (\<not> f_Exploitable f, - Rank (f_Severity f), \<not> f_FixAvailable f, f_CVE f)"

interpretation finding_order: keyed_less finding_less finding_key
  by unfold_locales (auto simp: finding_less_def finding_key_def less_prod_def')

lemma take_cves_keys: "map finding_key xs = map finding_key ys \<Longrightarrow> take_cves xs n = take_cves ys n"
proof -
  have cve: "map f_CVE zs = map (\<lambda>k. snd (snd (snd k))) (map finding_key zs)" for zs
    by (simp add: finding_key_def)
  assume "map finding_key xs = map finding_key ys"
  then have "map f_CVE xs = map f_CVE ys"
    by (simp only: cve)
  then show ?thesis by (simp add: take_cves_def flip: take_map)
qed

lemma topFindingsList_eq: "topFindingsList fs n = take_cves (sort_Slice finding_less fs) n"
  by (auto simp: topFindingsList_def take_cves_def)

lemma countRiskContext_eq:
  "countRiskContext fs = (int (length (filter f_FixAvailable fs)), int (length (filter f_Exploitable fs)))"
  by (induction fs) auto

lemma severityRank_range: "0 \<le> severityRank s" "severityRank s \<le> 4"
  by (simp_all add: severityRank_def Let_def)

lemma severityRank_Rank: "s \<in> set known_severities \<Longrightarrow> severityRank s = Rank s"
  by (auto simp: known_severities_def) (simp_all add: severityRank_def severity_defs ToLower_def lower_char_def)

section \<open>Properties\<close>

text \<open>Publication of a result: a scan with no findings is published exactly when clean scans
  are asked for; any other exactly when some severity from critical to low has findings and
  ranks at or above the configured minimum.\<close>

theorem ShouldPublish_iff:
  assumes "wf_summary (sr_Summary r)"
  shows "ShouldPublish r opts \<longleftrightarrow>
    (if sr_Summary r = zero_summary then PublishCleanScans opts
     else \<exists>(sev, n) \<in> set [(SeverityCritical, Critical (sr_Summary r)), (SeverityHigh, High (sr_Summary r)),
         (SeverityMedium, Medium (sr_Summary r)), (SeverityLow, Low (sr_Summary r))].
       0 < n \<and> severityRank (MinimumSeverity opts) \<le> Rank sev)"
proof -
  have "Total (sr_Summary r) = 0 \<longleftrightarrow> sr_Summary r = zero_summary"
    using assms by (auto simp: Total_eq_0_iff zero_summary_def intro: vulnerability_summary.equality)
  then show ?thesis
    by (simp add: ShouldPublish_def hasRiskAtLevel_def Let_def)
qed

theorem ShouldPublish_iff_witness:
  "wf_summary (summary_of []) \<and> \<not> ShouldPublish
    \<lparr>sr_Scanner = ''trivy'', sr_Image = zero_image, sr_ScannedAt = 0, sr_Summary = zero_summary\<lparr>Medium := 3\<rparr>,
     sr_Findings = [], sr_ReportURL = [], sr_SBOMURL = []\<rparr>
    \<lparr>MinimumSeverity = ''High'', IncludeTopFindings = 5, PublishCleanScans = True\<rparr>"
  by (subst ShouldPublish_iff)
    (simp_all add: wf_summary_def zero_summary_def max_int64_def severityRank_def ToLower_def lower_char_def)

text \<open>Findings of unknown severity alone are never published: whatever the minimum severity
  and the flag for clean scans, a result whose findings are all of unknown severity produces
  no event.\<close>

theorem unknown_only_never_published:
  assumes "sr_Summary r = zero_summary\<lparr>Unknown := n\<rparr>" and "0 < n" and "n \<le> max_int64"
  shows "\<not> ShouldPublish r opts"
proof -
  have "wf_summary (sr_Summary r)"
    using assms by (simp add: wf_summary_def zero_summary_def)
  from Total_wf [OF this] assms have "Total (sr_Summary r) \<noteq> 0"
    by (simp add: zero_summary_def)
  with assms(1) show ?thesis
    by (simp add: ShouldPublish_def hasRiskAtLevel_def zero_summary_def)
qed

theorem unknown_only_never_published_witness:
  "\<not> ShouldPublish
    \<lparr>sr_Scanner = ''wiz'', sr_Image = zero_image, sr_ScannedAt = 0, sr_Summary = zero_summary\<lparr>Unknown := 7\<rparr>,
     sr_Findings = [], sr_ReportURL = [], sr_SBOMURL = []\<rparr>
    \<lparr>MinimumSeverity = ''unknown'', IncludeTopFindings = 5, PublishCleanScans = True\<rparr>"
  by (rule unknown_only_never_published [where n = 7]) (simp_all add: max_int64_def)

text \<open>The top findings of an event are determined by the result although \<open>sort.Slice\<close> is not
  stable: every order the sort may leave gives the same list of CVE identifiers. It has at
  most the configured number of entries, each a CVE of a finding.\<close>

theorem topFindings_determined:
  assumes "slice_sorted finding_less fs ys"
  shows "topFindingsList fs limit = take_cves ys limit \<and>
    int (length (topFindingsList fs limit)) \<le> max 0 limit \<and>
    set (topFindingsList fs limit) \<subseteq> f_CVE ` set fs - {[]}"
proof (intro conjI)
  show "topFindingsList fs limit = take_cves ys limit"
    using finding_order.slice_sorted_keys [OF assms] take_cves_keys by (metis topFindingsList_eq)
  have "length (take_cves zs limit) \<le> nat limit" for zs
    unfolding take_cves_def by (rule order_trans [OF length_filter_le]) simp
  then show "int (length (topFindingsList fs limit)) \<le> max 0 limit"
    by (simp add: topFindingsList_eq nat_le_eq_zle flip: nat_le_iff)
      (metis (no_types) int_nat_eq le_nat_iff max.commute max_def nat_le_0 of_nat_le_iff order_refl)
  show "set (topFindingsList fs limit) \<subseteq> f_CVE ` set fs - {[]}"
    by (auto simp: topFindingsList_eq take_cves_def dest: in_set_takeD)
qed

definition ex_f :: "string \<Rightarrow> severity \<Rightarrow> bool \<Rightarrow> bool \<Rightarrow> finding" where
  "ex_f cve sev expl fx = \<lparr>f_ID = cve, f_CVE = cve, f_Package = [], f_Installed = [], f_Fixed = [],
     f_Severity = sev, f_Title = [], f_URL = [], f_Exploitable = expl, f_FixAvailable = fx,
     f_ScannerAttribution = [], f_RiskHints = zero_hints\<rparr>"

theorem topFindings_determined_witness:
  "topFindingsList [ex_f ''B'' SeverityHigh False False, ex_f ''A'' SeverityLow True False] 1 = [''A'']"
proof -
  have "slice_sorted finding_less
      [ex_f ''B'' SeverityHigh False False, ex_f ''A'' SeverityLow True False]
      [ex_f ''A'' SeverityLow True False, ex_f ''B'' SeverityHigh False False]"
    by (simp add: slice_sorted_def finding_less_def ex_f_def add_mset_commute)
  from topFindings_determined [OF this, of 1] show ?thesis
    by (simp add: take_cves_def ex_f_def)
qed

text \<open>The ranking of the top findings: an exploitable finding comes before one that is not,
  then the more severe one, then the one with a fix; so the first entry of a list of limit
  one is a CVE of a finding that no other finding precedes.\<close>

theorem topFindings_first_is_best:
  assumes "topFindingsList fs 1 = [cve]"
  shows "\<exists>f \<in> set fs. f_CVE f = cve \<and> (\<forall>g \<in> set fs. \<not> finding_less g f)"
proof -
  have "slice_sorted finding_less fs (sort_Slice finding_less fs)"
    by (rule finding_order.sort_Slice_sorted)
  moreover obtain f rest where f: "sort_Slice finding_less fs = f # rest"
    using assms by (cases "sort_Slice finding_less fs") (auto simp: topFindingsList_eq take_cves_def)
  moreover have "f_CVE f = cve"
    using assms f by (simp add: topFindingsList_eq take_cves_def split: if_splits)
  moreover have "set fs = insert f (set rest)" using f by (metis list.set(2) set_sort_Slice)
  moreover have "\<not> finding_less f f" by (simp add: finding_less_def)
  ultimately show ?thesis by (auto simp: slice_sorted_def)
qed

theorem topFindings_first_is_best_witness:
  "\<exists>f \<in> set [ex_f ''B'' SeverityHigh False False, ex_f ''C'' SeverityHigh False True].
     f_CVE f = ''C'' \<and>
     (\<forall>g \<in> set [ex_f ''B'' SeverityHigh False False, ex_f ''C'' SeverityHigh False True].
        \<not> finding_less g f)"
  by (rule topFindings_first_is_best)
    (simp add: topFindingsList_def take_cves_def finding_less_def ex_f_def)

text \<open>An API key is accepted exactly when the answer has a success status, does not say
  that it is forbidden in any capitalisation, and says that the key is valid.\<close>

theorem api_key_accepted_iff:
  "evaluateAPIKeyValidation code body resp = None \<longleftrightarrow>
     200 \<le> code \<and> code < 300 \<and> ToLower (Status resp) \<noteq> ''forbidden'' \<and> Valid resp"
  by (auto simp: evaluateAPIKeyValidation_def EqualFold_def ToLower_forbidden)

end
