(* ===== verification/Config.thy ===== *)
theory Config
  imports Go_Time Go_Float64
begin

text \<open>
  The configuration of \<open>internal/config/config.go\<close>: its types, the defaults it applies and
  its validation. The parts that only hold values of the configuration library (the source
  and the remaining settings of a section) are left out: the modelled functions do not
  read them.
\<close>

section \<open>Defaults\<close>

definition DefaultScannerRuntimeTimeout :: duration where
  "DefaultScannerRuntimeTimeout = 5 * Minute"
definition DefaultScannerRetryMaxAttempts :: int where
  "DefaultScannerRetryMaxAttempts = 3"
definition DefaultScannerRetryInitialBackoff :: duration where
  "DefaultScannerRetryInitialBackoff = 1 * Second"
definition DefaultScannerRetryMaxBackoff :: duration where
  "DefaultScannerRetryMaxBackoff = 10 * Second"
definition DefaultScannerRetryBackoffMultiplier :: float64 where
  "DefaultScannerRetryBackoffMultiplier = Fin 2"
definition DefaultScannerCircuitFailureThreshold :: int where
  "DefaultScannerCircuitFailureThreshold = 3"
definition DefaultScannerCircuitOpenDuration :: duration where
  "DefaultScannerCircuitOpenDuration = 2 * Minute"
definition DefaultScannerCircuitHalfOpenMaxRequests :: int where
  "DefaultScannerCircuitHalfOpenMaxRequests = 1"
definition DefaultNamespaceConcurrency :: int where
  "DefaultNamespaceConcurrency = 4"
definition DefaultBackpressureErrorRateThreshold :: float64 where
  "DefaultBackpressureErrorRateThreshold = Fin (1 / 2)"
definition DefaultBackpressureMinRPS :: float64 where
  "DefaultBackpressureMinRPS = Fin 1"
definition DefaultBackpressureMaxRPS :: float64 where
  "DefaultBackpressureMaxRPS = Fin 100"

lemmas default_defs =
  DefaultScannerRuntimeTimeout_def DefaultScannerRetryMaxAttempts_def
  DefaultScannerRetryInitialBackoff_def DefaultScannerRetryMaxBackoff_def
  DefaultScannerRetryBackoffMultiplier_def DefaultScannerCircuitFailureThreshold_def
  DefaultScannerCircuitOpenDuration_def DefaultScannerCircuitHalfOpenMaxRequests_def
  DefaultNamespaceConcurrency_def DefaultBackpressureErrorRateThreshold_def
  DefaultBackpressureMinRPS_def DefaultBackpressureMaxRPS_def

definition StateBackendConfigMap :: string where "StateBackendConfigMap = ''configmap''"
definition StateBackendMemory :: string where "StateBackendMemory = ''memory''"
definition StateBackendRedis :: string where "StateBackendRedis = ''redis''"
definition StateBackendMemcache :: string where "StateBackendMemcache = ''memcache''"

lemmas backend_defs =
  StateBackendConfigMap_def StateBackendMemory_def StateBackendRedis_def StateBackendMemcache_def

definition PublishingModeKomodor :: string where "PublishingModeKomodor = ''komodor''"
definition PublishingModeEvents :: string where "PublishingModeEvents = ''events''"
definition PublishingModeBoth :: string where "PublishingModeBoth = ''both''"

lemmas mode_defs = PublishingModeKomodor_def PublishingModeEvents_def PublishingModeBoth_def

section \<open>The configuration\<close>

record namespace_config =
  Include :: "string list"
  Exclude :: "string list"

record state_config =
  sc_Backend :: string
  sc_TTL :: duration
  sc_Namespace :: string

record backpressure_config =
  ErrorRateThreshold :: float64
  MinRPS :: float64
  MaxRPS :: float64

record retry_config =
  MaxAttempts :: int
  InitialBackoff :: duration
  MaxBackoff :: duration
  BackoffMultiplier :: float64

record circuit_config =
  cc_FailureThreshold :: int
  cc_OpenDuration :: duration
  cc_HalfOpenMaxRequests :: int

record runtime_config =
  rt_Timeout :: duration
  rt_Retry :: retry_config
  rt_CircuitBreaker :: circuit_config

record scanner_config =
  s_Name :: string
  s_Type :: string
  s_Enabled :: bool

record scanners_config =
  Concurrency :: int
  NamespaceConcurrency :: int
  Runtime :: runtime_config
  Backpressure :: backpressure_config
  Scanners :: "scanner_config list"

record publishing_config =
  Mode :: string
  p_MinimumSeverity :: string
  p_IncludeTopFindings :: int
  p_PublishCleanScans :: bool
  DeduplicateTTL :: duration

record config =
  cfg_ClusterName :: string
  cfg_Namespaces :: namespace_config
  cfg_WorkloadKinds :: "string list"
  cfg_ResolveDigest :: bool
  cfg_Scanners :: scanners_config
  cfg_State :: state_config
  cfg_Publishing :: publishing_config
  cfg_KomodorBaseURL :: string

definition EnabledScanners :: "config \<Rightarrow> string list" where
  "EnabledScanners c = map (\<lambda>s. s_Name s @ '' ('' @ s_Type s @ '')'')
     (filter s_Enabled (Scanners (cfg_Scanners c)))"

section \<open>Modes and backends\<close>

definition normalized_mode :: "string \<Rightarrow> string" where
  "normalized_mode mode = ToLower (TrimSpace mode)"

definition isValidPublishingMode :: "string \<Rightarrow> bool" where
  "isValidPublishingMode mode \<longleftrightarrow> normalized_mode mode \<in>
     {[], PublishingModeKomodor, PublishingModeEvents, PublishingModeBoth}"

definition PublishToKomodor :: "string \<Rightarrow> bool" where
  "PublishToKomodor mode \<longleftrightarrow> normalized_mode mode \<in> {[], PublishingModeKomodor, PublishingModeBoth}"

definition PublishToEvents :: "string \<Rightarrow> bool" where
  "PublishToEvents mode \<longleftrightarrow> normalized_mode mode \<in> {PublishingModeEvents, PublishingModeBoth}"

definition NormalizeStateBackend :: "string \<Rightarrow> string" where
  "NormalizeStateBackend backend =
     (if TrimSpace backend = [] then StateBackendConfigMap
      else let normalized = ToLower (TrimSpace backend) in
        if normalized = ''external'' then StateBackendRedis else normalized)"

section \<open>Effective values\<close>

text \<open>\<open>if x == 0 { x = d }\<close>, on the integers and on the floats.\<close>

definition or_default :: "int \<Rightarrow> int \<Rightarrow> int" where
  "or_default x d = (if x = 0 then d else x)"

definition or_default_f :: "float64 \<Rightarrow> float64 \<Rightarrow> float64" where
  "or_default_f x d = (if feq x (Fin 0) then d else x)"

definition EffectiveScannersConfig :: "scanners_config \<Rightarrow> scanners_config" where
  "EffectiveScannersConfig sc =
     (let bp = Backpressure sc in sc
       \<lparr>NamespaceConcurrency := (if NamespaceConcurrency sc \<le> 0 then DefaultNamespaceConcurrency
          else NamespaceConcurrency sc),
        Backpressure := bp
         \<lparr>ErrorRateThreshold := or_default_f (ErrorRateThreshold bp) DefaultBackpressureErrorRateThreshold,
          MinRPS := or_default_f (MinRPS bp) DefaultBackpressureMinRPS,
          MaxRPS := or_default_f (MaxRPS bp) DefaultBackpressureMaxRPS\<rparr>\<rparr>)"

definition EffectiveScannerRuntimeConfig :: "runtime_config \<Rightarrow> runtime_config" where
  "EffectiveScannerRuntimeConfig rt =
     (let r = rt_Retry rt; c = rt_CircuitBreaker rt in rt
       \<lparr>rt_Timeout := or_default (rt_Timeout rt) DefaultScannerRuntimeTimeout,
        rt_Retry := r
         \<lparr>MaxAttempts := or_default (MaxAttempts r) DefaultScannerRetryMaxAttempts,
          InitialBackoff := or_default (InitialBackoff r) DefaultScannerRetryInitialBackoff,
          MaxBackoff := or_default (MaxBackoff r) DefaultScannerRetryMaxBackoff,
          BackoffMultiplier := or_default_f (BackoffMultiplier r) DefaultScannerRetryBackoffMultiplier\<rparr>,
        rt_CircuitBreaker := c
         \<lparr>cc_FailureThreshold := or_default (cc_FailureThreshold c) DefaultScannerCircuitFailureThreshold,
          cc_OpenDuration := or_default (cc_OpenDuration c) DefaultScannerCircuitOpenDuration,
          cc_HalfOpenMaxRequests :=
            or_default (cc_HalfOpenMaxRequests c) DefaultScannerCircuitHalfOpenMaxRequests\<rparr>\<rparr>)"

lemma or_default_twice [simp]:
  "or_default (or_default x d) d = or_default x d"
  "or_default_f (or_default_f y e) e = or_default_f y e"
  by (simp_all add: or_default_def or_default_f_def)

section \<open>Validation\<close>

fun validate_kinds_loop :: "string list \<Rightarrow> go_error option" where
  "validate_kinds_loop [] = None"
| "validate_kinds_loop (kind # kinds) =
     (if kind \<in> {''Deployment'', ''StatefulSet'', ''DaemonSet'', ''Job'', ''CronJob''}
      then validate_kinds_loop kinds
      else Some (ErrNew (''unsupported workload kind: '' @ kind)))"

definition validateWorkloadKinds :: "string list \<Rightarrow> go_error option" where
  "validateWorkloadKinds kinds =
     (if kinds = [] then Some (ErrNew ''at least one workload kind is required'')
      else validate_kinds_loop kinds)"

fun validate_names_loop :: "scanner_config list \<Rightarrow> go_error option" where
  "validate_names_loop [] = None"
| "validate_names_loop (s # ss) =
     (if s_Name s = [] then Some (ErrNew ''scanner name is required'')
      else if s_Type s = [] then Some (ErrNew ''scanner type is required'')
      else validate_names_loop ss)"

definition validateScanners :: "scanners_config \<Rightarrow> go_error option" where
  "validateScanners sc =
     (let bp = Backpressure sc; rt = EffectiveScannerRuntimeConfig (Runtime sc);
          r = rt_Retry rt; c = rt_CircuitBreaker rt in
      if Scanners sc = [] then Some (ErrNew ''at least one scanner configuration is required'')
      else if Concurrency sc \<le> 0 then Some (ErrNew ''scanner concurrency must be greater than 0'')
      else if NamespaceConcurrency sc < 0
        then Some (ErrNew ''scanners.namespaceConcurrency must be greater than or equal to 0'')
      else if flt (ErrorRateThreshold bp) (Fin 0) \<or> flt (Fin 1) (ErrorRateThreshold bp)
        then Some (ErrNew ''scanners.backpressure.errorRateThreshold must be between 0 and 1'')
      else if flt (MinRPS bp) (Fin 0)
        then Some (ErrNew ''scanners.backpressure.minRPS must be greater than or equal to 0'')
      else if flt (MaxRPS bp) (Fin 0)
        then Some (ErrNew ''scanners.backpressure.maxRPS must be greater than or equal to 0'')
      else if flt (Fin 0) (MinRPS bp) \<and> flt (Fin 0) (MaxRPS bp) \<and> flt (MaxRPS bp) (MinRPS bp)
        then Some (ErrNew ''scanners.backpressure.minRPS must be less than or equal to maxRPS'')
      else if rt_Timeout rt \<le> 0
        then Some (ErrNew ''scanners.runtime.timeout must be greater than 0'')
      else if MaxAttempts r \<le> 0
        then Some (ErrNew ''scanners.runtime.retry.maxAttempts must be greater than 0'')
      else if InitialBackoff r \<le> 0
        then Some (ErrNew ''scanners.runtime.retry.initialBackoff must be greater than 0'')
      else if MaxBackoff r \<le> 0
        then Some (ErrNew ''scanners.runtime.retry.maxBackoff must be greater than 0'')
      else if flt (BackoffMultiplier r) (Fin 1)
        then Some (ErrNew ''scanners.runtime.retry.backoffMultiplier must be greater than or equal to 1'')
      else if cc_FailureThreshold c \<le> 0
        then Some (ErrNew ''scanners.runtime.circuitBreaker.failureThreshold must be greater than 0'')
      else if cc_OpenDuration c \<le> 0
        then Some (ErrNew ''scanners.runtime.circuitBreaker.openDuration must be greater than 0'')
      else if cc_HalfOpenMaxRequests c \<le> 0
        then Some (ErrNew ''scanners.runtime.circuitBreaker.halfOpenMaxRequests must be greater than 0'')
      else validate_names_loop (Scanners sc))"

definition validateState :: "state_config \<Rightarrow> go_error option" where
  "validateState st =
     (if NormalizeStateBackend (sc_Backend st) \<in>
         {StateBackendConfigMap, StateBackendMemory, StateBackendRedis, StateBackendMemcache}
      then None
      else Some (ErrNew (''state.backend must be one of: '' @ StateBackendConfigMap @ '', ''
        @ StateBackendMemory @ '', '' @ StateBackendRedis @ '', '' @ StateBackendMemcache)))"

definition validatePublishing :: "publishing_config \<Rightarrow> go_error option" where
  "validatePublishing p =
     (if \<not> isValidPublishingMode (Mode p)
      then Some (ErrNew (''publishing.mode must be one of: '' @ PublishingModeKomodor @ '', ''
        @ PublishingModeEvents @ '', '' @ PublishingModeBoth))
      else None)"

definition validateKomodor :: "string \<Rightarrow> go_error option" where
  "validateKomodor baseURL =
     (if baseURL = [] then Some (ErrNew ''komodor.baseURL is required'') else None)"

definition Validate :: "config \<Rightarrow> go_error option" where
  "Validate c =
     (let mode = Mode (cfg_Publishing c) in
      if cfg_ClusterName c = [] then Some (ErrNew ''clusterName is required'')
      else case validateWorkloadKinds (cfg_WorkloadKinds c) of Some err \<Rightarrow> Some err | None \<Rightarrow>
      (case validateScanners (cfg_Scanners c) of Some err \<Rightarrow> Some err | None \<Rightarrow>
       if sc_TTL (cfg_State c) \<le> 0 then Some (ErrNew ''state.ttl must be greater than 0'')
       else case validateState (cfg_State c) of Some err \<Rightarrow> Some err | None \<Rightarrow>
      (case validatePublishing (cfg_Publishing c) of Some err \<Rightarrow> Some err | None \<Rightarrow>
      (case (if PublishToKomodor mode then validateKomodor (cfg_KomodorBaseURL c) else None) of
         Some err \<Rightarrow> Some err
       | None \<Rightarrow>
         if \<not> PublishToKomodor mode \<and> \<not> PublishToEvents mode
         then Some (ErrNew ''publishing.mode must enable at least one publisher'')
         else None))))"

section \<open>Properties\<close>

lemma validate_kinds_None:
  "validate_kinds_loop ks = None \<longleftrightarrow>
     set ks \<subseteq> {''Deployment'', ''StatefulSet'', ''DaemonSet'', ''Job'', ''CronJob''}"
  by (induction ks) simp_all

lemma validate_names_None:
  "validate_names_loop ss = None \<longleftrightarrow> (\<forall>s \<in> set ss. s_Name s \<noteq> [] \<and> s_Type s \<noteq> [])"
  by (induction ss) auto

lemma Validate_None_parts:
  assumes "Validate c = None"
  shows "cfg_ClusterName c \<noteq> []" "validateWorkloadKinds (cfg_WorkloadKinds c) = None"
    "validateScanners (cfg_Scanners c) = None" "0 < sc_TTL (cfg_State c)"
    "validateState (cfg_State c) = None" "isValidPublishingMode (Mode (cfg_Publishing c))"
    "PublishToKomodor (Mode (cfg_Publishing c)) \<Longrightarrow> cfg_KomodorBaseURL c \<noteq> []"
  using assms
  by (auto simp: Validate_def Let_def validatePublishing_def validateKomodor_def
      split: if_splits option.splits)

text \<open>
  What the rest of the program relies on: the retry and circuit breaker settings that the
  defaults leave in force.
\<close>

definition sane_runtime :: "runtime_config \<Rightarrow> bool" where
  "sane_runtime rt \<longleftrightarrow> 0 < rt_Timeout rt \<and> 0 < MaxAttempts (rt_Retry rt) \<and>
     0 < InitialBackoff (rt_Retry rt) \<and> 0 < MaxBackoff (rt_Retry rt) \<and>
     \<not> flt (BackoffMultiplier (rt_Retry rt)) (Fin 1) \<and>
     0 < cc_FailureThreshold (rt_CircuitBreaker rt) \<and> 0 < cc_OpenDuration (rt_CircuitBreaker rt) \<and>
     0 < cc_HalfOpenMaxRequests (rt_CircuitBreaker rt)"

text \<open>C40: A configuration that passes validation is safe to run with: the effective runtime
  settings are positive with a multiplier that is not below one, the concurrency is
  positive, the time to live is positive, every scanner has a name and a type, and the
  backend is one that the factory can build.\<close>

theorem Validate_sound:
  assumes "Validate c = None"
  shows "sane_runtime (EffectiveScannerRuntimeConfig (Runtime (cfg_Scanners c))) \<and>
    0 < Concurrency (cfg_Scanners c) \<and>
    0 < NamespaceConcurrency (EffectiveScannersConfig (cfg_Scanners c)) \<and>
    0 < sc_TTL (cfg_State c) \<and>
    (\<forall>s \<in> set (Scanners (cfg_Scanners c)). s_Name s \<noteq> [] \<and> s_Type s \<noteq> []) \<and>
    NormalizeStateBackend (sc_Backend (cfg_State c)) \<in>
      {StateBackendConfigMap, StateBackendMemory, StateBackendRedis, StateBackendMemcache}"
proof -
  note parts = Validate_None_parts [OF assms]
  have "sane_runtime (EffectiveScannerRuntimeConfig (Runtime (cfg_Scanners c)))"
      "0 < Concurrency (cfg_Scanners c)" "validate_names_loop (Scanners (cfg_Scanners c)) = None"
    using parts(3) by (auto simp: validateScanners_def Let_def sane_runtime_def split: if_splits)
  moreover have "0 < NamespaceConcurrency (EffectiveScannersConfig (cfg_Scanners c))"
    by (simp add: EffectiveScannersConfig_def Let_def DefaultNamespaceConcurrency_def)
  ultimately show ?thesis
    using parts(4,5) by (auto simp: validate_names_None validateState_def split: if_splits)
qed

definition ex_config :: config where
  "ex_config = \<lparr>cfg_ClusterName = ''prod'', cfg_Namespaces = \<lparr>Include = [], Exclude = [''kube-system'']\<rparr>,
     cfg_WorkloadKinds = [''Deployment'', ''Job''], cfg_ResolveDigest = True,
     cfg_Scanners = \<lparr>Concurrency = 4, NamespaceConcurrency = 0,
       Runtime = \<lparr>rt_Timeout = 0, rt_Retry = \<lparr>MaxAttempts = 0, InitialBackoff = 0, MaxBackoff = 0,
         BackoffMultiplier = Fin 0\<rparr>, rt_CircuitBreaker = \<lparr>cc_FailureThreshold = 0,
         cc_OpenDuration = 0, cc_HalfOpenMaxRequests = 0\<rparr>\<rparr>,
       Backpressure = \<lparr>ErrorRateThreshold = Fin 0, MinRPS = Fin 0, MaxRPS = Fin 0\<rparr>,
       Scanners = [\<lparr>s_Name = ''trivy'', s_Type = ''trivy'', s_Enabled = True\<rparr>]\<rparr>,
     cfg_State = \<lparr>sc_Backend = '' External'', sc_TTL = 72 * Hour, sc_Namespace = ''default''\<rparr>,
     cfg_Publishing = \<lparr>Mode = ''Both'', p_MinimumSeverity = ''high'', p_IncludeTopFindings = 5,
       p_PublishCleanScans = False, DeduplicateTTL = 24 * Hour\<rparr>,
     cfg_KomodorBaseURL = ''https://app.komodor.io''\<rparr>"

lemma ex_config_valid: "Validate ex_config = None"
  by code_simp

theorem Validate_sound_witness:
  "sane_runtime (EffectiveScannerRuntimeConfig (Runtime (cfg_Scanners ex_config))) \<and>
   NormalizeStateBackend (sc_Backend (cfg_State ex_config)) = StateBackendRedis"
  using Validate_sound [OF ex_config_valid]
  by (simp add: NormalizeStateBackend_def ex_config_def TrimSpace_def is_space_def ToLower_def
      lower_char_def)

text \<open>The default values are applied once and for all: taking the effective settings of
  effective settings changes nothing, for the runtime and for the scanner section.\<close>

theorem Effective_idempotent:
  "EffectiveScannerRuntimeConfig (EffectiveScannerRuntimeConfig rt) = EffectiveScannerRuntimeConfig rt \<and>
   EffectiveScannersConfig (EffectiveScannersConfig sc) = EffectiveScannersConfig sc"
  by (simp add: EffectiveScannerRuntimeConfig_def EffectiveScannersConfig_def Let_def
      DefaultNamespaceConcurrency_def)

text \<open>The publishing modes are covered: a mode is accepted by the validation exactly when it
  enables one of the two publishers, in any capitalisation and with surrounding white
  space, so the last check of the validation never fires.\<close>

theorem valid_mode_iff_publisher:
  "isValidPublishingMode mode \<longleftrightarrow> PublishToKomodor mode \<or> PublishToEvents mode"
  by (auto simp: isValidPublishingMode_def PublishToKomodor_def PublishToEvents_def)

end
