(* ===== verification/Circuit_Breaker.thy ===== *)
theory Circuit_Breaker
  imports Config Transition
begin

text \<open>
  The circuit breaker of \<open>internal/reconciler/scanner_runtime.go\<close>: one circuit per scanner
  name, created on first use. Every method runs under the breaker's mutex, so it is one
  step of the model; \<open>c.now()\<close> is an argument. The second half states the breaker as
  an abstract automaton, proves that the methods implement it, and follows it through
  the interleavings of concurrent scans.
\<close>

section \<open>The state and the policy\<close>

datatype circuitState = circuitStateClosed | circuitStateOpen | circuitStateHalfOpen

record scannerRuntimePolicy =
  Timeout :: duration
  RetryMaxAttempts :: int
  RetryInitialBackoff :: duration
  RetryMaxBackoff :: duration
  RetryMultiplier :: float64
  FailureThreshold :: int
  OpenDuration :: duration
  HalfOpenMaxRequests :: int

record scannerCircuit =
  c_state :: circuitState
  consecutiveFailures :: int
  openedAt :: time
  halfOpenInFlight :: int

type_synonym breaker = "string \<rightharpoonup> scannerCircuit"

definition newScannerRuntimePolicy :: "runtime_config \<Rightarrow> scannerRuntimePolicy" where
  "newScannerRuntimePolicy runtime =
     (let effective = EffectiveScannerRuntimeConfig runtime in
      \<lparr>Timeout = rt_Timeout effective,
       RetryMaxAttempts = MaxAttempts (rt_Retry effective),
       RetryInitialBackoff = InitialBackoff (rt_Retry effective),
       RetryMaxBackoff = MaxBackoff (rt_Retry effective),
       RetryMultiplier = BackoffMultiplier (rt_Retry effective),
       FailureThreshold = cc_FailureThreshold (rt_CircuitBreaker effective),
       OpenDuration = cc_OpenDuration (rt_CircuitBreaker effective),
       HalfOpenMaxRequests = cc_HalfOpenMaxRequests (rt_CircuitBreaker effective)\<rparr>)"

definition newScannerCircuitBreaker :: breaker where
  "newScannerCircuitBreaker = Map.empty"

definition new_circuit :: scannerCircuit where
  "new_circuit = \<lparr>c_state = circuitStateClosed, consecutiveFailures = 0, openedAt = 0, halfOpenInFlight = 0\<rparr>"

definition getOrCreate :: "breaker \<Rightarrow> string \<Rightarrow> scannerCircuit" where
  "getOrCreate c scannerName = (case c scannerName of None \<Rightarrow> new_circuit | Some st \<Rightarrow> st)"

section \<open>The methods\<close>

text \<open>The body of a method on the circuit it finds; the method stores the circuit back.\<close>

definition allow_circuit ::
    "scannerRuntimePolicy \<Rightarrow> time \<Rightarrow> scannerCircuit \<Rightarrow> go_error option \<times> scannerCircuit" where
  "allow_circuit pol now st =
     (case c_state st of
        circuitStateClosed \<Rightarrow> (None, st)
      | _ \<Rightarrow>
        if c_state st = circuitStateOpen \<and> time_Sub now (openedAt st) < OpenDuration pol
        then (Some ErrCircuitOpen, st)
        else
          let st = (if c_state st = circuitStateOpen
                    then st\<lparr>c_state := circuitStateHalfOpen, halfOpenInFlight := 0\<rparr> else st)
          in if HalfOpenMaxRequests pol \<le> halfOpenInFlight st then (Some ErrCircuitOpen, st)
             else (None, st\<lparr>halfOpenInFlight := i64 (halfOpenInFlight st + 1)\<rparr>))"

definition release_probe :: "scannerCircuit \<Rightarrow> scannerCircuit" where
  "release_probe st =
     (if 0 < halfOpenInFlight st then st\<lparr>halfOpenInFlight := halfOpenInFlight st - 1\<rparr> else st)"

definition onSuccess_circuit :: "scannerCircuit \<Rightarrow> scannerCircuit" where
  "onSuccess_circuit st =
     (case c_state st of
        circuitStateHalfOpen \<Rightarrow> (release_probe st)
          \<lparr>c_state := circuitStateClosed, consecutiveFailures := 0, openedAt := 0\<rparr>
      | circuitStateClosed \<Rightarrow> st\<lparr>consecutiveFailures := 0\<rparr>
      | circuitStateOpen \<Rightarrow> st)"

definition onFailure_circuit :: "scannerRuntimePolicy \<Rightarrow> time \<Rightarrow> scannerCircuit \<Rightarrow> scannerCircuit" where
  "onFailure_circuit pol now st =
     (case c_state st of
        circuitStateHalfOpen \<Rightarrow> (release_probe st)
          \<lparr>c_state := circuitStateOpen, openedAt := now, consecutiveFailures := FailureThreshold pol\<rparr>
      | circuitStateClosed \<Rightarrow>
          (let st = st\<lparr>consecutiveFailures := i64 (consecutiveFailures st + 1)\<rparr>
           in if FailureThreshold pol \<le> consecutiveFailures st
              then st\<lparr>c_state := circuitStateOpen, openedAt := now\<rparr> else st)
      | circuitStateOpen \<Rightarrow> st)"

definition allow :: "scannerRuntimePolicy \<Rightarrow> time \<Rightarrow> breaker \<Rightarrow> string \<Rightarrow> go_error option \<times> breaker" where
  "allow pol now c scannerName =
     (case allow_circuit pol now (getOrCreate c scannerName) of
        (err, st) \<Rightarrow> (err, c(scannerName \<mapsto> st)))"

definition onSuccess :: "breaker \<Rightarrow> string \<Rightarrow> breaker" where
  "onSuccess c scannerName = c(scannerName \<mapsto> onSuccess_circuit (getOrCreate c scannerName))"

definition onFailure :: "scannerRuntimePolicy \<Rightarrow> time \<Rightarrow> breaker \<Rightarrow> string \<Rightarrow> breaker" where
  "onFailure pol now c scannerName = c(scannerName \<mapsto> onFailure_circuit pol now (getOrCreate c scannerName))"

definition circuit_state_of :: "breaker \<Rightarrow> string \<Rightarrow> circuitState \<times> breaker" where
  "circuit_state_of c scannerName =
     (c_state (getOrCreate c scannerName), c(scannerName \<mapsto> getOrCreate c scannerName))"

lemma getOrCreate_upd [simp]: "getOrCreate (c(n \<mapsto> st)) m = (if m = n then st else getOrCreate c m)"
  by (simp add: getOrCreate_def)

lemma getOrCreate_empty [simp]: "getOrCreate Map.empty n = new_circuit"
  by (simp add: getOrCreate_def)

section \<open>The invariant of a circuit\<close>

text \<open>The settings that validation accepts.\<close>

definition wf_policy :: "scannerRuntimePolicy \<Rightarrow> bool" where
  "wf_policy pol \<longleftrightarrow> 0 < FailureThreshold pol \<and> FailureThreshold pol \<le> max_int64 \<and>
     0 < OpenDuration pol \<and> OpenDuration pol \<le> max_int64 \<and>
     0 < HalfOpenMaxRequests pol \<and> HalfOpenMaxRequests pol \<le> max_int64"

definition wf_circuit :: "scannerRuntimePolicy \<Rightarrow> scannerCircuit \<Rightarrow> bool" where
  "wf_circuit pol st \<longleftrightarrow> 0 \<le> consecutiveFailures st \<and> 0 \<le> halfOpenInFlight st \<and>
     halfOpenInFlight st \<le> HalfOpenMaxRequests pol \<and>
     (c_state st = circuitStateClosed \<longrightarrow> consecutiveFailures st < FailureThreshold pol)"

lemmas circuit_defs = allow_circuit_def onSuccess_circuit_def onFailure_circuit_def release_probe_def

lemma wf_new_circuit [simp]: "wf_policy pol \<Longrightarrow> wf_circuit pol new_circuit"
  by (simp add: wf_circuit_def wf_policy_def new_circuit_def)

lemma i64_below_policy:
  "0 \<le> x \<Longrightarrow> x < y \<Longrightarrow> y \<le> max_int64 \<Longrightarrow> i64 (x + 1) = x + 1"
  by (auto intro: i64_small simp: max_int64_def)

lemma wf_circuit_steps:
  assumes "wf_policy pol" "wf_circuit pol st"
  shows "wf_circuit pol (snd (allow_circuit pol now st))" "wf_circuit pol (onSuccess_circuit st)"
    "wf_circuit pol (onFailure_circuit pol now st)"
proof -
  have i: "halfOpenInFlight st < HalfOpenMaxRequests pol \<Longrightarrow>
      i64 (halfOpenInFlight st + 1) = halfOpenInFlight st + 1"
    and j: "c_state st = circuitStateClosed \<Longrightarrow> i64 (consecutiveFailures st + 1) = consecutiveFailures st + 1"
    and one: "i64 1 = 1"
    using assms by (auto simp: wf_policy_def wf_circuit_def intro: i64_below_policy i64_small)
  show "wf_circuit pol (snd (allow_circuit pol now st))"
    using assms i one by (auto simp: allow_circuit_def wf_circuit_def wf_policy_def Let_def split: circuitState.split)
  show "wf_circuit pol (onSuccess_circuit st)"
    using assms by (auto simp: onSuccess_circuit_def release_probe_def wf_circuit_def wf_policy_def split: circuitState.split)
  show "wf_circuit pol (onFailure_circuit pol now st)"
    using assms j
    by (auto simp: onFailure_circuit_def release_probe_def wf_circuit_def wf_policy_def Let_def split: circuitState.split)
qed

definition wf_breaker :: "scannerRuntimePolicy \<Rightarrow> breaker \<Rightarrow> bool" where
  "wf_breaker pol c \<longleftrightarrow> (\<forall>n. wf_circuit pol (getOrCreate c n))"

lemma wf_breaker_empty: "wf_policy pol \<Longrightarrow> wf_breaker pol newScannerCircuitBreaker"
  by (simp add: wf_breaker_def newScannerCircuitBreaker_def)

lemma wf_breaker_steps:
  assumes "wf_policy pol" "wf_breaker pol c"
  shows "wf_breaker pol (snd (allow pol now c n))" "wf_breaker pol (onSuccess c n)"
    "wf_breaker pol (onFailure pol now c n)" "wf_breaker pol (snd (circuit_state_of c n))"
  using assms wf_circuit_steps [OF assms(1)]
  by (auto simp: wf_breaker_def allow_def onSuccess_def onFailure_def circuit_state_of_def
      split: prod.split) (metis snd_conv)+

section \<open>The abstract breaker\<close>

text \<open>
  What the breaker promises, with exactly the data each state needs: the failures in a row
  while it is closed, the instant it opened, the probes let through while it is half open.
\<close>

datatype circuit_spec = SClosed int | SOpen time | SHalfOpen int

fun spec_allow :: "scannerRuntimePolicy \<Rightarrow> time \<Rightarrow> circuit_spec \<Rightarrow> bool \<times> circuit_spec" where
  "spec_allow pol now (SClosed k) = (True, SClosed k)"
| "spec_allow pol now (SOpen t) =
     (if time_Sub now t < OpenDuration pol then (False, SOpen t) else (True, SHalfOpen 1))"
| "spec_allow pol now (SHalfOpen p) =
     (if p < HalfOpenMaxRequests pol then (True, SHalfOpen (p + 1)) else (False, SHalfOpen p))"

fun spec_success :: "circuit_spec \<Rightarrow> circuit_spec" where
  "spec_success (SOpen t) = SOpen t"
| "spec_success st = SClosed 0"

fun spec_failure :: "scannerRuntimePolicy \<Rightarrow> time \<Rightarrow> circuit_spec \<Rightarrow> circuit_spec" where
  "spec_failure pol now (SClosed k) = (if k + 1 < FailureThreshold pol then SClosed (k + 1) else SOpen now)"
| "spec_failure pol now (SOpen t) = SOpen t"
| "spec_failure pol now (SHalfOpen p) = SOpen now"

definition circuit_abs :: "scannerCircuit \<Rightarrow> circuit_spec" where
  "circuit_abs st =
     (case c_state st of
        circuitStateClosed \<Rightarrow> SClosed (consecutiveFailures st)
      | circuitStateOpen \<Rightarrow> SOpen (openedAt st)
      | circuitStateHalfOpen \<Rightarrow> SHalfOpen (halfOpenInFlight st))"

lemma circuit_abs_steps:
  assumes "wf_policy pol" "wf_circuit pol st"
  shows "spec_allow pol now (circuit_abs st) =
      (fst (allow_circuit pol now st) = None, circuit_abs (snd (allow_circuit pol now st)))"
    "spec_success (circuit_abs st) = circuit_abs (onSuccess_circuit st)"
    "spec_failure pol now (circuit_abs st) = circuit_abs (onFailure_circuit pol now st)"
proof -
  have i: "halfOpenInFlight st < HalfOpenMaxRequests pol \<Longrightarrow>
      i64 (halfOpenInFlight st + 1) = halfOpenInFlight st + 1"
    and j: "c_state st = circuitStateClosed \<Longrightarrow> i64 (consecutiveFailures st + 1) = consecutiveFailures st + 1"
    and one: "i64 1 = 1"
    using assms by (auto simp: wf_policy_def wf_circuit_def intro: i64_below_policy i64_small)
  show "spec_allow pol now (circuit_abs st) =
      (fst (allow_circuit pol now st) = None, circuit_abs (snd (allow_circuit pol now st)))"
    using assms i one
    by (cases "c_state st") (auto simp: allow_circuit_def circuit_abs_def Let_def wf_policy_def wf_circuit_def)
  show "spec_success (circuit_abs st) = circuit_abs (onSuccess_circuit st)"
    by (cases "c_state st") (auto simp: onSuccess_circuit_def release_probe_def circuit_abs_def)
  show "spec_failure pol now (circuit_abs st) = circuit_abs (onFailure_circuit pol now st)"
    using j by (cases "c_state st") (auto simp: onFailure_circuit_def release_probe_def circuit_abs_def Let_def)
qed

definition breaker_abs :: "breaker \<Rightarrow> string \<Rightarrow> circuit_spec" where
  "breaker_abs c n = circuit_abs (getOrCreate c n)"


lemma breaker_abs_upd: "breaker_abs (c(n \<mapsto> st)) = (breaker_abs c)(n := circuit_abs st)"
  by (rule ext) (simp add: breaker_abs_def)

lemma allow_error: "fst (allow pol now c n) = None \<or> fst (allow pol now c n) = Some ErrCircuitOpen"
  by (auto simp: allow_def allow_circuit_def Let_def split: prod.split circuitState.split if_splits)

lemma allow_spec:
  assumes "wf_policy pol" "wf_breaker pol c"
  shows "fst (allow pol now c n) =
      (if fst (spec_allow pol now (breaker_abs c n)) then None else Some ErrCircuitOpen)"
    "breaker_abs (snd (allow pol now c n)) = (breaker_abs c)(n := snd (spec_allow pol now (breaker_abs c n)))"
proof -
  have w: "wf_circuit pol (getOrCreate c n)" using assms(2) by (simp add: wf_breaker_def)
  have a: "allow pol now c n =
      (fst (allow_circuit pol now (getOrCreate c n)), c(n \<mapsto> snd (allow_circuit pol now (getOrCreate c n))))"
    by (simp add: allow_def split: prod.split)
  note st = circuit_abs_steps(1) [OF assms(1) w, of now, folded breaker_abs_def]
  show "fst (allow pol now c n) =
      (if fst (spec_allow pol now (breaker_abs c n)) then None else Some ErrCircuitOpen)"
    using allow_error [of pol now c n] by (auto simp: st a)
  show "breaker_abs (snd (allow pol now c n)) = (breaker_abs c)(n := snd (spec_allow pol now (breaker_abs c n)))"
    by (simp add: st a breaker_abs_upd)
qed

lemma report_spec:
  assumes "wf_policy pol" "wf_breaker pol c"
  shows "breaker_abs (onSuccess c n) = (breaker_abs c)(n := spec_success (breaker_abs c n))"
    "breaker_abs (onFailure pol now c n) = (breaker_abs c)(n := spec_failure pol now (breaker_abs c n))"
proof -
  have w: "wf_circuit pol (getOrCreate c n)" using assms(2) by (simp add: wf_breaker_def)
  show "breaker_abs (onSuccess c n) = (breaker_abs c)(n := spec_success (breaker_abs c n))"
    "breaker_abs (onFailure pol now c n) = (breaker_abs c)(n := spec_failure pol now (breaker_abs c n))"
    using circuit_abs_steps(2,3) [OF assms(1) w, folded breaker_abs_def]
    by (simp_all add: onSuccess_def onFailure_def breaker_abs_upd)
qed

text \<open>C5: The breaker implements its specification: on every well-formed breaker, each method
  does to the abstract circuit of its scanner what the specification says and leaves the
  circuits of the other scanners alone; \<open>allow\<close> fails only with the circuit-open error, and
  exactly when the specification does not admit the call. The counters that the code leaves
  behind in other states (probes of an earlier half-open phase, failures of an open circuit)
  are never read.\<close>

theorem circuit_breaker_refines:
  assumes "wf_policy pol" "wf_breaker pol c"
  shows "(fst (allow pol now c n) =
        (if fst (spec_allow pol now (breaker_abs c n)) then None else Some ErrCircuitOpen)) \<and>
    breaker_abs (snd (allow pol now c n)) = (breaker_abs c)(n := snd (spec_allow pol now (breaker_abs c n))) \<and>
    breaker_abs (onSuccess c n) = (breaker_abs c)(n := spec_success (breaker_abs c n)) \<and>
    breaker_abs (onFailure pol now c n) = (breaker_abs c)(n := spec_failure pol now (breaker_abs c n)) \<and>
    wf_breaker pol (snd (allow pol now c n)) \<and> wf_breaker pol (onSuccess c n) \<and>
    wf_breaker pol (onFailure pol now c n)"
  using allow_spec [OF assms] report_spec [OF assms] wf_breaker_steps [OF assms] by simp

definition ex_policy :: scannerRuntimePolicy where
  "ex_policy = \<lparr>Timeout = 300 * Second, RetryMaxAttempts = 3, RetryInitialBackoff = Second,
     RetryMaxBackoff = 10 * Second, RetryMultiplier = Fin 2, FailureThreshold = 3,
     OpenDuration = 2 * Minute, HalfOpenMaxRequests = 1\<rparr>"

lemma wf_ex_policy [simp]: "wf_policy ex_policy"
  by (simp add: wf_policy_def ex_policy_def duration_units max_int64_def)

theorem circuit_breaker_refines_witness:
  "breaker_abs (onFailure ex_policy 7 newScannerCircuitBreaker ''trivy'') ''trivy'' = SClosed 1"
proof -
  have n: "breaker_abs newScannerCircuitBreaker ''trivy'' = SClosed 0"
    by (simp add: breaker_abs_def newScannerCircuitBreaker_def circuit_abs_def new_circuit_def)
  have "breaker_abs (onFailure ex_policy 7 newScannerCircuitBreaker ''trivy'') =
      (breaker_abs newScannerCircuitBreaker)(''trivy'' := spec_failure ex_policy 7
        (breaker_abs newScannerCircuitBreaker ''trivy''))"
    using circuit_breaker_refines [OF wf_ex_policy wf_breaker_empty [OF wf_ex_policy], of 7 "''trivy''"]
    by blast
  then show ?thesis by (simp add: n ex_policy_def)
qed

section \<open>Tripping and recovering\<close>

text \<open>A run of failures reported at the given instants.\<close>

definition failures :: "scannerRuntimePolicy \<Rightarrow> breaker \<Rightarrow> string \<Rightarrow> time list \<Rightarrow> breaker" where
  "failures pol c n ts = foldl (\<lambda>c t. onFailure pol t c n) c ts"

lemma failures_abs:
  assumes "wf_policy pol"
  shows "wf_breaker pol (failures pol newScannerCircuitBreaker n ts) \<and>
    breaker_abs (failures pol newScannerCircuitBreaker n ts) n =
      (if int (length ts) < FailureThreshold pol then SClosed (int (length ts))
       else SOpen (ts ! nat (FailureThreshold pol - 1)))"
proof (induction ts rule: rev_induct)
  case Nil
  show ?case using assms wf_breaker_empty [OF assms]
    by (simp add: failures_def breaker_abs_def newScannerCircuitBreaker_def circuit_abs_def new_circuit_def wf_policy_def)
next
  case (snoc t ts)
  let ?c = "failures pol newScannerCircuitBreaker n ts"
  have c: "failures pol newScannerCircuitBreaker n (ts @ [t]) = onFailure pol t ?c n"
    by (simp add: failures_def)
  have w: "wf_breaker pol (onFailure pol t ?c n)"
    and a: "breaker_abs (onFailure pol t ?c n) n = spec_failure pol t (breaker_abs ?c n)"
    using report_spec(2) [OF assms conjunct1 [OF snoc.IH]] wf_breaker_steps(3) [OF assms conjunct1 [OF snoc.IH]]
    by simp_all
  have "nat (FailureThreshold pol - 1) < length ts" if "\<not> int (length ts) < FailureThreshold pol"
    using that assms by (auto simp: wf_policy_def)
  moreover have "nat (FailureThreshold pol - 1) = length ts" if "int (length ts) + 1 = FailureThreshold pol"
    using that by simp
  ultimately show ?case
    using snoc.IH w a by (auto simp: c nth_append)
qed

text \<open>C20: The breaker trips after exactly the configured number of failures in a row and no
  sooner, and then rejects the scanner until the open duration has passed since the failure
  that tripped it; the first call after that is let through.\<close>

theorem circuit_trips:
  assumes "wf_policy pol"
    and "c = failures pol newScannerCircuitBreaker n ts"
    and "k = nat (FailureThreshold pol)"
  shows "if length ts < k then fst (allow pol now c n) = None
    else if now - ts ! (k - 1) < OpenDuration pol then fst (allow pol now c n) = Some ErrCircuitOpen
    else fst (allow pol now c n) = None"
proof -
  have w: "wf_breaker pol c" and a: "breaker_abs c n =
      (if int (length ts) < FailureThreshold pol then SClosed (int (length ts))
       else SOpen (ts ! nat (FailureThreshold pol - 1)))"
    using failures_abs [OF assms(1), of n ts] assms(2) by simp_all
  have k: "length ts < k \<longleftrightarrow> int (length ts) < FailureThreshold pol" "nat (FailureThreshold pol - 1) = k - 1"
    using assms(1,3) by (auto simp: wf_policy_def)
  have d: "time_Sub now u < OpenDuration pol \<longleftrightarrow> now - u < OpenDuration pol" for u
    using assms(1) by (intro time_Sub_less_iff) (auto simp: wf_policy_def min_int64_def)
  show ?thesis
    using allow_spec [OF assms(1) w, of now n] by (simp add: a k d)
qed

theorem circuit_trips_witness:
  "fst (allow ex_policy (500 * Second) (failures ex_policy newScannerCircuitBreaker ''clair''
      [100 * Second, 200 * Second, 450 * Second]) ''clair'') = Some ErrCircuitOpen"
  using circuit_trips [OF wf_ex_policy refl refl, of "[100 * Second, 200 * Second, 450 * Second]" "500 * Second" "''clair''"]
  by (simp add: ex_policy_def duration_units)

section \<open>Concurrent scans\<close>

text \<open>
  The breaker as the goroutines of a reconciliation share it. A scan that \<open>allow\<close> lets
  through is outstanding until it reports a success or a failure, or returns without a
  report, as a scan does whose backoff is interrupted. The count of the calls let through
  since a circuit became half open is a ghost.
\<close>

record breaker_sys =
  cb :: breaker
  clock :: time
  outstanding :: "string \<Rightarrow> nat"
  probes :: "string \<Rightarrow> nat"

fun is_half_open :: "circuit_spec \<Rightarrow> bool" where
  "is_half_open (SHalfOpen p) = True"
| "is_half_open c = False"

definition breaker_init :: "breaker_sys \<Rightarrow> bool" where
  "breaker_init s \<longleftrightarrow> cb s = newScannerCircuitBreaker \<and> outstanding s = (\<lambda>_. 0) \<and> probes s = (\<lambda>_. 0)"

definition admit :: "scannerRuntimePolicy \<Rightarrow> string \<Rightarrow> breaker_sys \<Rightarrow> breaker_sys" where
  "admit pol n s =
     s\<lparr>cb := snd (allow pol (clock s) (cb s) n),
       outstanding := (outstanding s)(n := outstanding s n + 1),
       probes := (probes s)(n := if is_half_open (breaker_abs (cb s) n) then probes s n + 1 else 1)\<rparr>"

inductive breaker_step :: "scannerRuntimePolicy \<Rightarrow> breaker_sys \<Rightarrow> breaker_sys \<Rightarrow> bool" for pol where
  tick: "clock s \<le> t \<Longrightarrow> breaker_step pol s (s\<lparr>clock := t\<rparr>)"
| admitted: "fst (allow pol (clock s) (cb s) n) = None \<Longrightarrow> breaker_step pol s (admit pol n s)"
| rejected: "fst (allow pol (clock s) (cb s) n) = Some e \<Longrightarrow>
    breaker_step pol s (s\<lparr>cb := snd (allow pol (clock s) (cb s) n)\<rparr>)"
| succeeded: "0 < outstanding s n \<Longrightarrow>
    breaker_step pol s (s\<lparr>cb := onSuccess (cb s) n, outstanding := (outstanding s)(n := outstanding s n - 1)\<rparr>)"
| failed: "0 < outstanding s n \<Longrightarrow>
    breaker_step pol s (s\<lparr>cb := onFailure pol (clock s) (cb s) n,
      outstanding := (outstanding s)(n := outstanding s n - 1)\<rparr>)"
| abandoned: "0 < outstanding s n \<Longrightarrow>
    breaker_step pol s (s\<lparr>outstanding := (outstanding s)(n := outstanding s n - 1)\<rparr>)"

inductive_cases breaker_stepE: "breaker_step pol s s'"

definition breaker_inv :: "scannerRuntimePolicy \<Rightarrow> breaker_sys \<Rightarrow> bool" where
  "breaker_inv pol s \<longleftrightarrow> wf_breaker pol (cb s) \<and>
     (\<forall>n p. breaker_abs (cb s) n = SHalfOpen p \<longrightarrow> p = int (probes s n) \<and> 1 \<le> p \<and> p \<le> HalfOpenMaxRequests pol)"

lemma spec_allow_half_open:
  assumes "wf_policy pol" "spec_allow pol now b = (ok, SHalfOpen p)"
    and "\<And>q. b = SHalfOpen q \<Longrightarrow> q = int k \<and> 1 \<le> q \<and> q \<le> HalfOpenMaxRequests pol"
  shows "p = int (if ok then (if is_half_open b then k + 1 else 1) else k) \<and> 1 \<le> p \<and> p \<le> HalfOpenMaxRequests pol"
  using assms by (cases b) (auto simp: wf_policy_def split: if_splits)

lemma spec_report_not_half_open [simp]:
  "spec_success b \<noteq> SHalfOpen p" "spec_failure pol now b \<noteq> SHalfOpen p"
  by (cases b; simp)+

lemma breaker_inv_step:
  assumes "wf_policy pol" "breaker_inv pol s" "breaker_step pol s s'"
  shows "breaker_inv pol s'"
  using assms(3)
proof (cases rule: breaker_step.cases)
  case (admitted n)
  have w: "wf_breaker pol (cb s)" using assms(2) by (simp add: breaker_inv_def)
  have "spec_allow pol (clock s) (breaker_abs (cb s) n) =
      (True, snd (spec_allow pol (clock s) (breaker_abs (cb s) n)))"
    using admitted(2) allow_spec(1) [OF assms(1) w, of "clock s" n] by (auto intro: prod_eqI split: if_splits)
  then show ?thesis
    using assms(2) wf_breaker_steps(1) [OF assms(1) w] spec_allow_half_open [OF assms(1), where k = "probes s n"]
    by (fastforce simp: admitted(1) admit_def breaker_inv_def allow_spec(2) [OF assms(1) w])
next
  case (rejected n e)
  have w: "wf_breaker pol (cb s)" using assms(2) by (simp add: breaker_inv_def)
  have "spec_allow pol (clock s) (breaker_abs (cb s) n) =
      (False, snd (spec_allow pol (clock s) (breaker_abs (cb s) n)))"
    using rejected(2) allow_spec(1) [OF assms(1) w, of "clock s" n] by (auto intro: prod_eqI split: if_splits)
  then show ?thesis
    using assms(2) wf_breaker_steps(1) [OF assms(1) w] spec_allow_half_open [OF assms(1), where k = "probes s n"]
    by (fastforce simp: rejected(1) breaker_inv_def allow_spec(2) [OF assms(1) w])
qed (use assms(1,2) report_spec [OF assms(1)] wf_breaker_steps [OF assms(1)] in
      \<open>auto simp: breaker_inv_def\<close>)

lemma breaker_inv_init: "wf_policy pol \<Longrightarrow> breaker_init s \<Longrightarrow> breaker_inv pol s"
  by (simp add: breaker_inv_def breaker_init_def wf_breaker_empty)
    (simp add: breaker_abs_def newScannerCircuitBreaker_def circuit_abs_def new_circuit_def)

interpretation breaker_run:
  inductive_invariant breaker_init "breaker_step pol" "\<lambda>s. wf_policy pol \<longrightarrow> breaker_inv pol s" for pol
  by unfold_locales (auto intro: breaker_inv_init breaker_inv_step)

text \<open>C21: However the goroutines interleave, a half-open circuit has let through at least one
  and at most \<open>halfOpenMaxRequests\<close> calls since it became half open, and a closed circuit has
  seen fewer failures in a row than the threshold.\<close>

theorem breaker_probe_bound:
  assumes "wf_policy pol" "reaches breaker_init (breaker_step pol) s"
  shows "case breaker_abs (cb s) n of
      SHalfOpen p \<Rightarrow> p = int (probes s n) \<and> 1 \<le> p \<and> p \<le> HalfOpenMaxRequests pol
    | SClosed k \<Rightarrow> 0 \<le> k \<and> k < FailureThreshold pol
    | SOpen t \<Rightarrow> True"
proof -
  have i: "breaker_inv pol s" using breaker_run.inv_reaches [OF assms(2)] assms(1) by blast
  then have "wf_circuit pol (getOrCreate (cb s) n)" by (simp add: breaker_inv_def wf_breaker_def)
  then have "case breaker_abs (cb s) n of SClosed k \<Rightarrow> 0 \<le> k \<and> k < FailureThreshold pol | _ \<Rightarrow> True"
    by (simp add: breaker_abs_def circuit_abs_def wf_circuit_def split: circuitState.split)
  then show ?thesis
    using i by (cases "breaker_abs (cb s) n") (auto simp: breaker_inv_def)
qed

definition fresh_sys :: breaker_sys where
  "fresh_sys = \<lparr>cb = newScannerCircuitBreaker, clock = 0, outstanding = (\<lambda>_. 0), probes = (\<lambda>_. 0)\<rparr>"

lemma breaker_init_fresh [simp]: "breaker_init fresh_sys"
  by (simp add: breaker_init_def fresh_sys_def)

theorem breaker_probe_bound_witness:
  "case breaker_abs (cb fresh_sys) ''trivy'' of
      SHalfOpen p \<Rightarrow> p = int (probes fresh_sys ''trivy'') \<and> 1 \<le> p \<and> p \<le> HalfOpenMaxRequests ex_policy
    | SClosed k \<Rightarrow> 0 \<le> k \<and> k < FailureThreshold ex_policy
    | SOpen t \<Rightarrow> True"
  by (rule breaker_probe_bound [OF wf_ex_policy], rule reaches_init, rule breaker_init_fresh)

section \<open>A circuit that never closes again\<close>

text \<open>
  The view of one scanner in a reachable state, and how the steps of that scanner move it.
\<close>

definition breaker_at ::
    "scannerRuntimePolicy \<Rightarrow> string \<Rightarrow> breaker_sys \<Rightarrow> time \<Rightarrow> circuit_spec \<Rightarrow> nat \<Rightarrow> bool" where
  "breaker_at pol n s t b k \<longleftrightarrow> reaches breaker_init (breaker_step pol) s \<and> clock s = t \<and>
     breaker_abs (cb s) n = b \<and> outstanding s n = k"

lemma breaker_at_wf: "wf_policy pol \<Longrightarrow> breaker_at pol n s t b k \<Longrightarrow> wf_breaker pol (cb s)"
  using breaker_run.inv_reaches [of pol s] by (simp add: breaker_at_def breaker_inv_def)

lemma breaker_at_tick: "breaker_at pol n s t b k \<Longrightarrow> t \<le> t' \<Longrightarrow> \<exists>s. breaker_at pol n s t' b k"
  by (rule exI [where x = "s\<lparr>clock := t'\<rparr>"])
    (auto simp: breaker_at_def intro: reaches_step breaker_step.tick)

lemma breaker_at_admit:
  assumes "wf_policy pol" "breaker_at pol n s t b k" "spec_allow pol t b = (True, b')"
  shows "\<exists>s. breaker_at pol n s t b' (k + 1)"
proof (rule exI)
  note al = allow_spec [OF assms(1) breaker_at_wf [OF assms(1,2)], of t n]
  have "fst (allow pol (clock s) (cb s) n) = None"
    using al(1) assms(2,3) by (simp add: breaker_at_def)
  then have "reaches breaker_init (breaker_step pol) (admit pol n s)"
    using assms(2) by (auto simp: breaker_at_def intro: reaches_step breaker_step.admitted)
  then show "breaker_at pol n (admit pol n s) t b' (k + 1)"
    using assms(2,3) al(2) by (auto simp: breaker_at_def admit_def)
qed

lemma breaker_at_fail:
  assumes "wf_policy pol" "breaker_at pol n s t b (k + 1)"
  shows "\<exists>s. breaker_at pol n s t (spec_failure pol t b) k"
proof (rule exI)
  let ?s = "s\<lparr>cb := onFailure pol (clock s) (cb s) n, outstanding := (outstanding s)(n := outstanding s n - 1)\<rparr>"
  have "reaches breaker_init (breaker_step pol) ?s"
    using assms(2) by (intro reaches_step [where s = s and s' = ?s] breaker_step.failed) (simp_all add: breaker_at_def)
  then show "breaker_at pol n ?s t (spec_failure pol t b) k"
    using assms(2) report_spec(2) [OF assms(1) breaker_at_wf [OF assms], of t n]
    by (auto simp: breaker_at_def)
qed

lemma breaker_at_abandon:
  assumes "breaker_at pol n s t b (k + 1)"
  shows "\<exists>s. breaker_at pol n s t b k"
proof (rule exI)
  let ?s = "s\<lparr>outstanding := (outstanding s)(n := outstanding s n - 1)\<rparr>"
  have "reaches breaker_init (breaker_step pol) ?s"
    using assms by (intro reaches_step [where s = s and s' = ?s] breaker_step.abandoned) (simp_all add: breaker_at_def)
  then show "breaker_at pol n ?s t b k"
    using assms by (auto simp: breaker_at_def)
qed

lemma reach_closed:
  assumes "wf_policy pol"
  shows "int k < FailureThreshold pol \<Longrightarrow> \<exists>s. breaker_at pol n s 0 (SClosed (int k)) 0"
proof (induction k)
  case 0
  show ?case
    by (rule exI [where x = fresh_sys])
      (auto simp: breaker_at_def fresh_sys_def breaker_init_def breaker_abs_def newScannerCircuitBreaker_def
        circuit_abs_def new_circuit_def intro: reaches_init)
next
  case (Suc k)
  then obtain s where "breaker_at pol n s 0 (SClosed (int k)) 0" by auto
  then obtain s where "breaker_at pol n s 0 (SClosed (int k)) (0 + 1)"
    using breaker_at_admit [OF assms] by fastforce
  from breaker_at_fail [OF assms this] Suc.prems show ?case by (simp add: add.commute)
qed

lemma reach_open:
  assumes "wf_policy pol"
  shows "\<exists>s. breaker_at pol n s 0 (SOpen 0) 0"
proof -
  let ?k = "nat (FailureThreshold pol - 1)"
  have k: "int ?k < FailureThreshold pol" "int ?k + 1 = FailureThreshold pol"
    using assms by (simp_all add: wf_policy_def)
  obtain s where "breaker_at pol n s 0 (SClosed (int ?k)) 0"
    using reach_closed [OF assms k(1)] by blast
  then obtain s where "breaker_at pol n s 0 (SClosed (int ?k)) (0 + 1)"
    using breaker_at_admit [OF assms] by fastforce
  from breaker_at_fail [OF assms this] show ?thesis using k by simp
qed

lemma reach_half_open:
  assumes "wf_policy pol" "int p < HalfOpenMaxRequests pol"
  shows "\<exists>s. breaker_at pol n s (OpenDuration pol) (SHalfOpen (int p + 1)) (p + 1)"
  using assms(2)
proof (induction p)
  case 0
  obtain s where "breaker_at pol n s 0 (SOpen 0) 0" using reach_open [OF assms(1)] by blast
  then obtain s where s: "breaker_at pol n s (OpenDuration pol) (SOpen 0) 0"
    using breaker_at_tick [of pol n s 0 "SOpen 0" 0 "OpenDuration pol"] assms(1) by (auto simp: wf_policy_def)
  have "\<not> time_Sub (OpenDuration pol) 0 < OpenDuration pol"
    using assms(1) time_Sub_ge [of "OpenDuration pol" "OpenDuration pol" 0] by (simp add: wf_policy_def)
  then show ?case using breaker_at_admit [OF assms(1) s] by simp
next
  case (Suc p)
  then obtain s where "breaker_at pol n s (OpenDuration pol) (SHalfOpen (int p + 1)) (p + 1)" by auto
  from breaker_at_admit [OF assms(1) this] Suc.prems show ?case by (simp add: add.commute add.left_commute)
qed

lemma reach_abandoned: "breaker_at pol n s t b k \<Longrightarrow> \<exists>s. breaker_at pol n s t b 0"
proof (induction k arbitrary: s)
  case (Suc k)
  then show ?case using breaker_at_abandon [of pol n s t b k] by auto
qed auto

text \<open>A half-open circuit whose probes are used up and gone.\<close>

definition stuck :: "scannerRuntimePolicy \<Rightarrow> string \<Rightarrow> breaker_sys \<Rightarrow> bool" where
  "stuck pol n s \<longleftrightarrow> wf_policy pol \<and> wf_breaker pol (cb s) \<and>
     breaker_abs (cb s) n = SHalfOpen (HalfOpenMaxRequests pol) \<and> outstanding s n = 0"

lemma stuck_rejects: "stuck pol n s \<Longrightarrow> fst (allow pol t (cb s) n) = Some ErrCircuitOpen"
  using allow_spec(1) [of pol "cb s" t n] by (simp add: stuck_def)

lemma stuck_step:
  assumes "stuck pol n s" "breaker_step pol s s'"
  shows "stuck pol n s'"
  using assms(2)
proof (cases rule: breaker_step.cases)
  case (admitted m)
  then have "m \<noteq> n" using stuck_rejects [OF assms(1)] by auto
  then show ?thesis using assms(1) allow_spec(2) [of pol "cb s" "clock s" m] wf_breaker_steps(1)
    by (simp add: stuck_def admitted(1) admit_def)
next
  case (rejected m e)
  then show ?thesis using assms(1) allow_spec(2) [of pol "cb s" "clock s" m] wf_breaker_steps(1)
    by (auto simp: stuck_def)
qed (use assms(1) report_spec wf_breaker_steps in \<open>auto simp: stuck_def\<close>)

interpretation stuck_forever: closed_set "breaker_step pol" "stuck pol n" for pol n
  by unfold_locales (rule stuck_step)



end
