(* ===== verification/Adaptive_Limiter.thy ===== *)
theory Adaptive_Limiter
  imports Go_Float64
begin

text \<open>
  The adaptive rate limiter of \<open>internal/concurrency/adaptive_limiter.go\<close>. Its token bucket
  is a library; what the code sets in it, the current limit, is a field here. The counters
  are int64 and the rates float64, with the rounding of each operation.
\<close>

record limiter =
  limit :: float64
  minRPS :: float64
  maxRPS :: float64
  errorRateThreshold :: float64
  totalScans :: int
  errorScans :: int

definition NewAdaptiveLimiter :: "float64 \<Rightarrow> float64 \<Rightarrow> float64 \<Rightarrow> limiter" where
  "NewAdaptiveLimiter mx mn thr =
     (let mx = (if fle mx (Fin 0) then Fin 1 else mx);
          mn = (if flt mn (Fin 0) then Fin 0 else mn);
          mn = (if flt mx mn then mx else mn);
          thr = (if fle thr (Fin 0) \<or> flt (Fin 1) thr then Fin (1 / 2) else thr)
      in \<lparr>limit = mx, minRPS = mn, maxRPS = mx, errorRateThreshold = thr,
          totalScans = 0, errorScans = 0\<rparr>)"

definition errorRateLocked :: "limiter \<Rightarrow> float64" where
  "errorRateLocked a =
     (if totalScans a = 0 then Fin 0
      else fdiv (float_of_int (errorScans a)) (float_of_int (totalScans a)))"

definition effectiveRPSLocked :: "limiter \<Rightarrow> float64" where
  "effectiveRPSLocked a =
     (let errRate = errorRateLocked a in
      if fle (errorRateThreshold a) errRate then minRPS a
      else if fle errRate (Fin 0) then maxRPS a
      else
        let ratio = fdiv errRate (errorRateThreshold a)
        in fsub (maxRPS a) (fmul ratio (fsub (maxRPS a) (minRPS a))))"

definition RecordResult :: "limiter \<Rightarrow> bool \<Rightarrow> limiter" where
  "RecordResult a isError =
     (let a = a\<lparr>totalScans := i64 (totalScans a + 1)\<rparr>;
          a = (if isError then a\<lparr>errorScans := i64 (errorScans a + 1)\<rparr> else a);
          newRate = effectiveRPSLocked a
      in a\<lparr>limit := newRate\<rparr>)"

definition ErrorRate :: "limiter \<Rightarrow> float64" where
  "ErrorRate a = errorRateLocked a"

section \<open>The error rate\<close>

text \<open>
  The settings after construction: finite numbers with the order the constructor
  enforces. The counters: no more errors than scans, and both within an int64.
\<close>

definition wf_rates :: "limiter \<Rightarrow> bool" where
  "wf_rates a \<longleftrightarrow> (\<exists>mn mx thr. minRPS a = Fin mn \<and> maxRPS a = Fin mx \<and> errorRateThreshold a = Fin thr \<and>
     is_float mn \<and> is_float mx \<and> is_float thr \<and> 0 \<le> mn \<and> mn \<le> mx \<and> 0 < mx \<and> 0 < thr \<and> thr \<le> 1)"

definition wf_counts :: "limiter \<Rightarrow> bool" where
  "wf_counts a \<longleftrightarrow> 0 \<le> errorScans a \<and> errorScans a \<le> totalScans a \<and> totalScans a \<le> max_int64"

lemma is_float_2_63: "is_float 9223372036854775808"
proof -
  have e: "exp2 63 = (9223372036854775808 :: rat)" by (simp add: exp2_def)
  have "grid 9223372036854775808 \<le> 63"
  proof (rule grid_le)
    have "exp2 63 < exp2 (63 + 53)" by simp
    then show "(9223372036854775808 :: rat) < exp2 (63 + 53)" by (simp only: e)
  qed simp_all
  then have "round64 9223372036854775808 = 9223372036854775808"
    by (intro round64_exact [where m = 1 and g = 63]) (simp_all add: e)
  then show ?thesis by (simp add: is_float_def max_float_def)
qed

lemma float_of_int_nonneg:
  assumes "0 \<le> n" "n \<le> max_int64"
  shows "float_of_int n = Fin (round64 (of_int n)) \<and> 0 \<le> round64 (of_int n :: rat)"
proof -
  have "(of_int n :: rat) \<le> of_int 9223372036854775808"
    using assms(2) by (simp only: of_int_le_iff max_int64_def)
  then show ?thesis
    using mk_float_between [OF is_float_0 is_float_2_63, of "of_int n"] assms(1)
    by (force simp: float_of_int_def)
qed

lemma errorRate_bounds:
  assumes "wf_counts a"
  obtains q where "errorRateLocked a = Fin q" "0 \<le> q" "q \<le> 1"
proof (cases "totalScans a = 0")
  case True
  then show ?thesis by (intro that [of 0]) (simp_all add: errorRateLocked_def)
next
  case False
  define e where "e = round64 (of_int (errorScans a))"
  define t where "t = round64 (of_int (totalScans a))"
  have c: "0 \<le> errorScans a" "errorScans a \<le> totalScans a" "1 \<le> totalScans a" "totalScans a \<le> max_int64"
    using assms False by (auto simp: wf_counts_def)
  have et: "float_of_int (errorScans a) = Fin e" "0 \<le> e" "float_of_int (totalScans a) = Fin t"
    using float_of_int_nonneg [of "errorScans a"] float_of_int_nonneg [of "totalScans a"] c
    by (auto simp: e_def t_def)
  have "e \<le> t" using c by (simp add: e_def t_def round64_mono)
  have "round64 1 \<le> t" unfolding t_def using c by (intro round64_mono) simp
  then have t: "1 \<le> t" by simp
  then have r: "0 \<le> e / t" "e / t \<le> 1" using et \<open>e \<le> t\<close> by (simp_all add: divide_le_eq)
  obtain q where "mk_float (e / t) = Fin q" "0 \<le> q" "q \<le> 1"
    using mk_float_between [OF is_float_0 is_float_1 r] by blast
  then show ?thesis using False et t by (intro that [of q]) (auto simp: errorRateLocked_def)
qed

lemma errorRate_0:
  assumes "wf_counts a" "errorScans a = 0"
  shows "errorRateLocked a = Fin 0"
proof (cases "totalScans a = 0")
  case True
  then show ?thesis by (simp add: errorRateLocked_def)
next
  case False
  have c: "1 \<le> totalScans a" "totalScans a \<le> max_int64" using assms False by (auto simp: wf_counts_def)
  have "round64 1 \<le> round64 (of_int (totalScans a))" using c by (intro round64_mono) simp
  moreover have "float_of_int (totalScans a) = Fin (round64 (of_int (totalScans a)))"
    using float_of_int_nonneg [of "totalScans a"] c by simp
  moreover have "float_of_int 0 = Fin 0" by (simp add: float_of_int_def mk_float_exact)
  ultimately show ?thesis
    using False assms(2) by (simp add: errorRateLocked_def mk_float_exact)
qed

section \<open>The effective rate\<close>

text \<open>The rate between the two ends, with the rounding of its four operations.\<close>

definition interpolated :: "rat \<Rightarrow> rat \<Rightarrow> rat \<Rightarrow> rat \<Rightarrow> rat" where
  "interpolated mx mn thr q = round64 (mx - round64 (round64 (q / thr) * round64 (mx - mn)))"

lemma interpolated_props:
  assumes "is_float mn" "is_float mx" "is_float thr" "0 \<le> mn" "mn \<le> mx" "0 < mx" "0 < thr" "0 \<le> q" "q \<le> thr"
  shows "fsub (Fin mx) (fmul (fdiv (Fin q) (Fin thr)) (fsub (Fin mx) (Fin mn))) = Fin (interpolated mx mn thr q)"
    "0 \<le> interpolated mx mn thr q" "interpolated mx mn thr q \<le> mx"
proof -
  have r: "0 \<le> q / thr" "q / thr \<le> 1" using assms by (simp_all add: divide_le_eq)
  obtain ra where ra: "mk_float (q / thr) = Fin ra" "0 \<le> ra" "ra \<le> 1" "ra = round64 (q / thr)"
    using mk_float_between [OF is_float_0 is_float_1 r] by blast
  have d: "0 \<le> mx - mn" "mx - mn \<le> mx" using assms by simp_all
  obtain di where di: "mk_float (mx - mn) = Fin di" "0 \<le> di" "di \<le> mx" "di = round64 (mx - mn)"
    using mk_float_between [OF is_float_0 assms(2) d] by blast
  have p: "0 \<le> ra * di" "ra * di \<le> mx"
    using ra di mult_right_mono [of ra 1 di] by simp_all
  obtain pr where pr: "mk_float (ra * di) = Fin pr" "0 \<le> pr" "pr \<le> mx" "pr = round64 (ra * di)"
    using mk_float_between [OF is_float_0 assms(2) p] by blast
  have s: "0 \<le> mx - pr" "mx - pr \<le> mx" using pr by simp_all
  obtain re where re: "mk_float (mx - pr) = Fin re" "0 \<le> re" "re \<le> mx" "re = round64 (mx - pr)"
    using mk_float_between [OF is_float_0 assms(2) s] by blast
  have i: "interpolated mx mn thr q = re"
    using ra(4) di(4) pr(4) re(4) by (simp add: interpolated_def)
  show "fsub (Fin mx) (fmul (fdiv (Fin q) (Fin thr)) (fsub (Fin mx) (Fin mn))) = Fin (interpolated mx mn thr q)"
    using assms(7) by (simp add: ra(1) di(1) pr(1) re(1) i)
  show "0 \<le> interpolated mx mn thr q" "interpolated mx mn thr q \<le> mx"
    using re by (simp_all add: i)
qed

lemma interpolated_antimono:
  assumes "0 < thr" "mn \<le> mx" "q \<le> q'"
  shows "interpolated mx mn thr q' \<le> interpolated mx mn thr q"
proof -
  have "round64 (q / thr) \<le> round64 (q' / thr)"
    using assms by (intro round64_mono divide_right_mono) auto
  moreover have "0 \<le> round64 (mx - mn)" using assms by (intro round64_nonneg) simp
  ultimately have "round64 (q / thr) * round64 (mx - mn) \<le> round64 (q' / thr) * round64 (mx - mn)"
    by (rule mult_right_mono)
  then have "round64 (round64 (q / thr) * round64 (mx - mn)) \<le> round64 (round64 (q' / thr) * round64 (mx - mn))"
    by (rule round64_mono)
  then show ?thesis unfolding interpolated_def by (intro round64_mono) simp
qed

lemma effectiveRPS_cases:
  assumes "wf_rates a" "wf_counts a"
  obtains mn mx thr q where "minRPS a = Fin mn" "maxRPS a = Fin mx" "errorRateThreshold a = Fin thr"
    "errorRateLocked a = Fin q" "0 \<le> mn" "mn \<le> mx" "0 < thr" "0 \<le> q"
    "effectiveRPSLocked a = Fin (if thr \<le> q then mn else if q = 0 then mx else interpolated mx mn thr q)"
    "q < thr \<Longrightarrow> 0 \<le> interpolated mx mn thr q \<and> interpolated mx mn thr q \<le> mx"
proof -
  obtain mn mx thr where s: "minRPS a = Fin mn" "maxRPS a = Fin mx" "errorRateThreshold a = Fin thr"
      "is_float mn" "is_float mx" "is_float thr" "0 \<le> mn" "mn \<le> mx" "0 < mx" "0 < thr" "thr \<le> 1"
    using assms(1) by (auto simp: wf_rates_def)
  obtain q where q: "errorRateLocked a = Fin q" "0 \<le> q" "q \<le> 1"
    using errorRate_bounds [OF assms(2)] by blast
  note ip = interpolated_props [OF s(4-10) q(2)]
  have ge: "fle (Fin thr) (Fin q) \<longleftrightarrow> thr \<le> q" and z: "fle (Fin q) (Fin 0) \<longleftrightarrow> q = 0"
    using q(2) by (auto simp: fle_def feq_def)
  show ?thesis
  proof (rule that [OF s(1-3) q(1) s(7,8,10) q(2)])
    show "effectiveRPSLocked a = Fin (if thr \<le> q then mn else if q = 0 then mx else interpolated mx mn thr q)"
      using ip(1) by (simp add: effectiveRPSLocked_def Let_def q(1) s(1-3) ge z del: fsub.simps fmul.simps fdiv.simps)
    show "0 \<le> interpolated mx mn thr q \<and> interpolated mx mn thr q \<le> mx" if "q < thr"
      using ip(2,3) that by simp
  qed
qed

section \<open>Properties\<close>

lemma is_float_half: "is_float (1 / 2)"
  using round64_exact [of "1 / 2" 1 "-1"] grid_le [of "1 / 2" "-1"]
  by (simp add: is_float_def max_float_def exp2_def)

lemma NewAdaptiveLimiter_wf:
  assumes "is_float mx" "is_float mn" "is_float thr"
  shows "wf_rates (NewAdaptiveLimiter (Fin mx) (Fin mn) (Fin thr)) \<and>
    wf_counts (NewAdaptiveLimiter (Fin mx) (Fin mn) (Fin thr))"
proof -
  note is_float_half
  moreover obtain mn' mx' thr' where "mn' = (if mn < 0 then 0 else mn)" "mx' = (if mx \<le> 0 then 1 else mx)"
      "thr' = (if thr \<le> 0 \<or> 1 < thr then 1 / 2 else thr)" by blast
  moreover have "NewAdaptiveLimiter (Fin mx) (Fin mn) (Fin thr) =
      \<lparr>limit = Fin mx', minRPS = Fin (if mx' < mn' then mx' else mn'), maxRPS = Fin mx',
        errorRateThreshold = Fin thr', totalScans = 0, errorScans = 0\<rparr>"
    using calculation(2-4) by (auto simp: NewAdaptiveLimiter_def Let_def fle_def feq_def)
  ultimately show ?thesis
    using assms by (simp add: wf_rates_def wf_counts_def max_int64_def)
qed

lemma RecordResult_keeps:
  assumes "wf_rates a" "wf_counts a" "totalScans a < max_int64"
  shows "wf_rates (RecordResult a e)" "wf_counts (RecordResult a e)"
    "totalScans (RecordResult a e) = totalScans a + 1"
    "maxRPS (RecordResult a e) = maxRPS a" "minRPS (RecordResult a e) = minRPS a"
    "errorRateThreshold (RecordResult a e) = errorRateThreshold a"
proof -
  have i: "i64 (totalScans a + 1) = totalScans a + 1" "i64 (errorScans a + 1) = errorScans a + 1"
    using assms(2,3) by (auto intro!: i64_small simp: wf_counts_def max_int64_def)
  show "wf_rates (RecordResult a e)" "totalScans (RecordResult a e) = totalScans a + 1"
    "maxRPS (RecordResult a e) = maxRPS a" "minRPS (RecordResult a e) = minRPS a"
    "errorRateThreshold (RecordResult a e) = errorRateThreshold a"
    using assms(1) by (simp_all add: RecordResult_def Let_def wf_rates_def i)
  show "wf_counts (RecordResult a e)"
    using assms(2,3) by (simp add: RecordResult_def Let_def wf_counts_def i)
qed

lemma limit_RecordResult: "limit (RecordResult a e) = effectiveRPSLocked (RecordResult a e)"
  by (simp add: RecordResult_def Let_def effectiveRPSLocked_def errorRateLocked_def)

text \<open>A history of results, oldest first.\<close>

definition record_all :: "limiter \<Rightarrow> bool list \<Rightarrow> limiter" where
  "record_all a es = foldl RecordResult a es"

lemma record_all_keeps:
  assumes "wf_rates a" "wf_counts a" "totalScans a + int (length es) \<le> max_int64"
  shows "wf_rates (record_all a es) \<and> wf_counts (record_all a es) \<and>
    totalScans (record_all a es) = totalScans a + int (length es) \<and>
    maxRPS (record_all a es) = maxRPS a \<and> minRPS (record_all a es) = minRPS a \<and>
    errorRateThreshold (record_all a es) = errorRateThreshold a"
  using assms
proof (induction es rule: rev_induct)
  case Nil
  then show ?case by (simp add: record_all_def)
next
  case (snoc e es)
  then have ih: "wf_rates (record_all a es)" "wf_counts (record_all a es)"
      "totalScans (record_all a es) = totalScans a + int (length es)"
      "maxRPS (record_all a es) = maxRPS a" "minRPS (record_all a es) = minRPS a"
      "errorRateThreshold (record_all a es) = errorRateThreshold a"
    by simp_all
  have "totalScans (record_all a es) < max_int64" using snoc.prems(3) ih(3) by simp
  from RecordResult_keeps [OF ih(1,2) this, of e] ih show ?case
    by (simp add: record_all_def)
qed



text \<open>Errors never speed the dispatch up: of two limiters with the same settings, the one
  with the higher error rate has an effective rate that is not higher, as long as that rate
  is below the threshold; at the threshold the rate is the minimum.\<close>

theorem limiter_antitone:
  assumes "wf_rates a" "wf_counts a" "wf_counts b"
    and "minRPS b = minRPS a" "maxRPS b = maxRPS a" "errorRateThreshold b = errorRateThreshold a"
    and "fle (errorRateLocked a) (errorRateLocked b)"
    and "flt (errorRateLocked b) (errorRateThreshold b)"
  shows "fle (effectiveRPSLocked b) (effectiveRPSLocked a)"
proof -
  have wb: "wf_rates b" using assms(1,4-6) by (simp add: wf_rates_def)
  obtain mn mx thr q where c: "minRPS a = Fin mn" "maxRPS a = Fin mx" "errorRateThreshold a = Fin thr"
      "errorRateLocked a = Fin q" "mn \<le> mx" "0 < thr" "0 \<le> q"
      "effectiveRPSLocked a = Fin (if thr \<le> q then mn else if q = 0 then mx else interpolated mx mn thr q)"
    using effectiveRPS_cases [OF assms(1,2)] by metis
  obtain q' where d: "errorRateLocked b = Fin q'" "0 \<le> q'"
      "effectiveRPSLocked b = Fin (if thr \<le> q' then mn else if q' = 0 then mx else interpolated mx mn thr q')"
      "q' < thr \<Longrightarrow> interpolated mx mn thr q' \<le> mx"
    using effectiveRPS_cases [OF wb assms(3)] assms(4-6) c(1-3) by (metis float64.inject)
  have "q \<le> q'" "q' < thr" using assms(6-8) c(3,4) d(1) by (auto simp: fle_def feq_def)
  then show ?thesis
    using c(5-8) d interpolated_antimono [OF c(6,5) \<open>q \<le> q'\<close>] by (auto simp: fle_def feq_def)
qed

theorem limiter_antitone_witness:
  "fle (effectiveRPSLocked \<lparr>limit = Fin 1, minRPS = Fin 0, maxRPS = Fin 1, errorRateThreshold = Fin 1,
          totalScans = 4, errorScans = 2\<rparr>)
       (effectiveRPSLocked \<lparr>limit = Fin 1, minRPS = Fin 0, maxRPS = Fin 1, errorRateThreshold = Fin 1,
          totalScans = 4, errorScans = 1\<rparr>)"
    (is "fle (effectiveRPSLocked ?b) (effectiveRPSLocked ?a)")
proof (rule limiter_antitone)
  have "is_float (1 / 4)" "is_float 4" "is_float 2"
    using round64_exact [of "1 / 4" 1 "-2"] grid_le [of "1 / 4" "-2"] round64_int [of 4] round64_int [of 2]
    by (simp_all add: is_float_def max_float_def exp2_def)
  then have e: "errorRateLocked ?a = Fin (1 / 4)" "errorRateLocked ?b = Fin (1 / 2)"
    by (simp_all add: errorRateLocked_def float_of_int_def mk_float_exact is_float_half)
  show "fle (errorRateLocked ?a) (errorRateLocked ?b)" "flt (errorRateLocked ?b) (errorRateThreshold ?b)"
    by (simp_all add: e fle_def)
qed (simp_all add: wf_rates_def wf_counts_def max_int64_def)

end
