(* ===== verification/Scanner_Runtime.thy ===== *)
theory Scanner_Runtime
  imports Circuit_Breaker Scan_Model Adaptive_Limiter
begin

text \<open>
  The resilient execution of a scan, from \<open>internal/reconciler/scanner_runtime.go\<close>: the
  classification of scanner errors, the backoff between attempts and the retry loop under
  the circuit breaker. A scanner, the sleep of the reconciler and the clock act on a world
  that the loop threads through; they are the fields of an environment.
\<close>

section \<open>Classes of errors\<close>

type_synonym scannerErrorClass = string

definition scannerErrorClassTimeout :: scannerErrorClass where
  "scannerErrorClassTimeout = ''timeout''"
definition scannerErrorClassTransient :: scannerErrorClass where
  "scannerErrorClassTransient = ''transient''"
definition scannerErrorClassPermanent :: scannerErrorClass where
  "scannerErrorClassPermanent = ''permanent''"
definition scannerErrorClassCircuitOpen :: scannerErrorClass where
  "scannerErrorClassCircuitOpen = ''circuit_open''"

lemmas class_defs = scannerErrorClassTimeout_def scannerErrorClassTransient_def
  scannerErrorClassPermanent_def scannerErrorClassCircuitOpen_def

lemma class_distinct [simp]:
  "scannerErrorClassPermanent \<noteq> scannerErrorClassTransient" "scannerErrorClassPermanent \<noteq> scannerErrorClassTimeout"
  "scannerErrorClassCircuitOpen \<noteq> scannerErrorClassTransient" "scannerErrorClassCircuitOpen \<noteq> scannerErrorClassTimeout"
  "scannerErrorClassTransient \<noteq> scannerErrorClassTimeout" "scannerErrorClassCircuitOpen \<noteq> scannerErrorClassPermanent"
  by (simp_all add: class_defs)

text \<open>
  \<open>errors.As\<close> with an interface target finds the first error of the chain that has the
  methods. \<open>context.DeadlineExceeded\<close> is a \<open>net.Error\<close>.
\<close>

fun is_net_error :: "go_error \<Rightarrow> bool" where
  "is_net_error (ErrForeign s isNet tmp inner) = isNet"
| "is_net_error ErrDeadlineExceeded = True"
| "is_net_error e = False"

fun temporary_of :: "go_error \<Rightarrow> bool option" where
  "temporary_of (ErrForeign s isNet tmp inner) = tmp"
| "temporary_of ErrDeadlineExceeded = Some True"
| "temporary_of e = None"

definition isTemporaryError :: "go_error \<Rightarrow> bool" where
  "isTemporaryError err =
     (if \<exists>e \<in> set (err_chain err). is_net_error e then True
      else case find (\<lambda>e. temporary_of e \<noteq> None) (err_chain err) of
          Some e \<Rightarrow> the (temporary_of e)
        | None \<Rightarrow> False)"

definition classifyScannerError :: "go_error \<Rightarrow> scannerErrorClass" where
  "classifyScannerError err =
     (if errors_Is err ErrCircuitOpen then scannerErrorClassCircuitOpen
      else if errors_Is err ErrDeadlineExceeded then scannerErrorClassTimeout
      else if errors_Is err ErrCanceled then scannerErrorClassTransient
      else if isTemporaryError err then scannerErrorClassTransient
      else scannerErrorClassPermanent)"

definition isRetryableScannerError :: "scannerErrorClass \<Rightarrow> bool" where
  "isRetryableScannerError errClass \<longleftrightarrow>
     errClass = scannerErrorClassTransient \<or> errClass = scannerErrorClassTimeout"

text \<open>The class of a scanner error does not depend on the messages wrapped around it: an
  error wrapped with \<open>%w\<close> has the class of the error inside. A scan is retried exactly when
  the error is not a circuit rejection and its chain holds a deadline, a cancellation, a
  network error, or a temporary error reported as such.\<close>

theorem classification_unwraps:
  "classifyScannerError (ErrWrap pre e post) = classifyScannerError e \<and>
   (isRetryableScannerError (classifyScannerError e) \<longleftrightarrow>
      \<not> errors_Is e ErrCircuitOpen \<and>
      (errors_Is e ErrDeadlineExceeded \<or> errors_Is e ErrCanceled \<or> isTemporaryError e))"
  by (simp add: classifyScannerError_def isRetryableScannerError_def isTemporaryError_def)

section \<open>The backoff\<close>

text \<open>
  The conversion of a number that does not fit in an int64 gives the platform's result:
  the smallest int64 on amd64, the nearest one on arm64 (zero for NaN).
\<close>

definition oob_amd64 :: "float64 \<Rightarrow> int" where
  "oob_amd64 x = min_int64"

definition oob_arm64 :: "float64 \<Rightarrow> int" where
  "oob_arm64 x = (if x = NaN then 0 else if fle x (Fin 0) then min_int64 else max_int64)"

definition retryBackoff :: "(float64 \<Rightarrow> int) \<Rightarrow> scannerRuntimePolicy \<Rightarrow> int \<Rightarrow> duration" where
  "retryBackoff oob pol attempt =
     (let attempt = (if attempt \<le> 0 then 1 else attempt);
          multiplier = (if flt (RetryMultiplier pol) (Fin 1) then Fin 1 else RetryMultiplier pol);
          backoffFloat = fmul (float_of_int (RetryInitialBackoff pol)) (math_Pow multiplier (nat (attempt - 1)));
          backoff = int64_of_float oob backoffFloat
      in if RetryMaxBackoff pol < backoff then RetryMaxBackoff pol else backoff)"

lemma pow_loop_nonneg: "0 \<le> a1 \<Longrightarrow> 0 \<le> x1 \<Longrightarrow> 0 \<le> fst (pow_loop i a1 ae x1 xe)"
proof (induction i a1 ae x1 xe rule: pow_loop.induct)
  case (1 i a1 ae x1 xe)
  then show ?case
    by (subst pow_loop.simps) (auto simp: Let_def round64_nonneg)
qed

text \<open>The numbers a backoff is computed from: not negative, and not NaN.\<close>

fun fnonneg :: "float64 \<Rightarrow> bool" where
  "fnonneg (Fin a) = (0 \<le> a)"
| "fnonneg PInf = True"
| "fnonneg x = False"

lemma fnonneg_mk_float [simp]: "0 \<le> x \<Longrightarrow> fnonneg (mk_float x)"
  using round64_nonneg [of x] max_float_ge1 by (auto simp: mk_float_def Let_def)

lemma fnonneg_math_Pow:
  assumes "fle (Fin 1) x"
  shows "fnonneg (math_Pow x n)"
proof (cases x)
  case (Fin a)
  then have "1 \<le> a" using assms by (auto simp: fle_def feq_def)
  then have "0 \<le> fst (Frexp a)" by (simp add: Frexp_def Let_def)
  then have "fnonneg (case Frexp a of (x1, xe) \<Rightarrow>
      case pow_loop n 1 0 x1 xe of (a1, ae) \<Rightarrow> mk_float (a1 * exp2 ae))"
    using pow_loop_nonneg [of 1 "fst (Frexp a)" n 0 "snd (Frexp a)"]
    by (auto split: prod.split intro!: fnonneg_mk_float mult_nonneg_nonneg)
  then show ?thesis using \<open>1 \<le> a\<close> Fin by (simp add: math_Pow_def)
qed (use assms in \<open>auto simp: math_Pow_def fle_def feq_def\<close>)

lemma fnonneg_fmul: "0 < a \<Longrightarrow> fnonneg y \<Longrightarrow> fnonneg (fmul (Fin a) y)"
  by (cases y) (auto simp: inf_of_def)

lemma float_of_int_pos:
  assumes "0 < n" "n \<le> max_int64"
  shows "\<exists>a. float_of_int n = Fin a \<and> 0 < a"
proof -
  have "round64 1 \<le> round64 (of_int n)" using assms by (intro round64_mono) simp
  then show ?thesis using float_of_int_nonneg [of n] assms by auto
qed

lemma int64_of_fnonneg:
  "fnonneg x \<Longrightarrow> 0 \<le> int64_of_float oob x \<or> int64_of_float oob x = oob x"
  by (cases x) (auto simp: rat_trunc_def)

text \<open>A backoff never exceeds the configured maximum, and it is not negative as long as
  the conversion to a duration does not overflow: it lies in the range from zero to the
  maximum, or it is the platform's result for a product that is out of range.\<close>

theorem retryBackoff_range:
  assumes "0 < RetryInitialBackoff pol" "RetryInitialBackoff pol \<le> max_int64" "0 \<le> RetryMaxBackoff pol"
    and "RetryMultiplier pol \<noteq> NaN"
  shows "retryBackoff oob pol attempt \<le> RetryMaxBackoff pol \<and>
    (0 \<le> retryBackoff oob pol attempt \<or> (\<exists>x. fnonneg x \<and> retryBackoff oob pol attempt = oob x))"
proof -
  let ?m = "if flt (RetryMultiplier pol) (Fin 1) then Fin 1 else RetryMultiplier pol"
  let ?x = "fmul (float_of_int (RetryInitialBackoff pol))
      (math_Pow ?m (nat ((if attempt \<le> 0 then 1 else attempt) - 1)))"
  have "fle (Fin 1) ?m" using assms(4) by (cases "RetryMultiplier pol") (auto simp: fle_def feq_def)
  moreover obtain a where "float_of_int (RetryInitialBackoff pol) = Fin a" "0 < a"
    using float_of_int_pos [OF assms(1,2)] by blast
  ultimately have x: "fnonneg ?x" by (simp only: fnonneg_fmul fnonneg_math_Pow)
  from int64_of_fnonneg [OF x, of oob] x show ?thesis
    using assms(3) by (auto simp: retryBackoff_def Let_def simp del: fmul.simps)
qed

theorem retryBackoff_range_witness:
  "retryBackoff oob_arm64 ex_policy 9 \<le> RetryMaxBackoff ex_policy \<and>
    (0 \<le> retryBackoff oob_arm64 ex_policy 9 \<or>
     (\<exists>x. fnonneg x \<and> retryBackoff oob_arm64 ex_policy 9 = oob_arm64 x))"
  by (rule retryBackoff_range) (simp_all add: ex_policy_def duration_units max_int64_def)

section \<open>The backoff under the default settings\<close>

lemma exp2_half: "exp2 e / 2 = exp2 (e - 1)"
  by (simp add: exp2_diff exp2_def [of 1])

lemma round64_exp2 [simp]: "-1074 \<le> e \<Longrightarrow> round64 (exp2 e) = exp2 e"
  by (rule round64_exact [where m = 1 and g = e]) (auto intro!: grid_le)

lemma round64_quarter: "round64 (1 / 4) = 1 / 4"
  using round64_exp2 [of "-2"] by (simp add: exp2_def)

text \<open>The repeated squaring of a power of two multiplies only powers of two.\<close>

lemma pow_loop_2:
  assumes "j + int i \<le> 1074" "1 \<le> p" "p * int i \<le> 4000"
  shows "\<exists>a e. pow_loop i (exp2 (- j)) ae (1 / 2) (p + 1) = (a, e) \<and> a * exp2 e = exp2 (ae - j + p * int i)"
  using assms
proof (induction i arbitrary: j ae p rule: less_induct)
  case (less i)
  show ?case
  proof (cases "i = 0")
    case True
    then show ?thesis by (subst pow_loop.simps) (simp flip: exp2_add)
  next
    case False
    have "p * 1 \<le> p * int i" using False less.prems(2) by (intro mult_left_mono) auto
    then have xe: "\<not> (p + 1 < -4096 \<or> 4096 < p + 1)" using less.prems(2,3) by linarith
    have i: "int i = 2 * int (i div 2) + (if odd i then 1 else 0)" by presburger
    have d: "i div 2 < i" "1 \<le> 2 * p" "2 * p * int (i div 2) \<le> 4000"
      using False less.prems i by (auto simp: algebra_simps split: if_splits)
    have r: "pow_loop i (exp2 (- j)) ae (1 / 2) (p + 1) =
        (if odd i then pow_loop (i div 2) (exp2 (- (j + 1))) (ae + (p + 1)) (1 / 2) (2 * p + 1)
         else pow_loop (i div 2) (exp2 (- j)) ae (1 / 2) (2 * p + 1))"
    proof -
      have "- (j + 1) = - j - 1" by simp
      then have "round64 (exp2 (- j) / 2) = exp2 (- (j + 1))"
        using round64_exp2 [of "- (j + 1)"] less.prems(1) False by (simp add: exp2_half)
      then show ?thesis
        using False xe by (subst pow_loop.simps) (simp add: Let_def round64_quarter add.commute [of 1])
    qed
    show ?thesis
    proof (cases "odd i")
      case True
      have b: "j + 1 + int (i div 2) \<le> 1074" using less.prems(1) i True by simp
      have "p * int i = p * (2 * int (i div 2) + 1)" using True i by simp
      then have "ae + (p + 1) - (j + 1) + 2 * p * int (i div 2) = ae - j + p * int i"
        by (simp add: algebra_simps)
      with less.IH [OF d(1) b d(2,3), of "ae + (p + 1)"] True show ?thesis
        by (simp only: r if_True simp_thms)
    next
      case ev: False
      have b: "j + int (i div 2) \<le> 1074" using less.prems(1) i False by simp
      have "2 * int (i div 2) = int i" using ev i by simp
      then have "ae - j + 2 * p * int (i div 2) = ae - j + p * int i"
        by (metis mult.assoc mult.commute)
      with less.IH [OF d(1) b d(2,3), of ae] ev show ?thesis
        by (simp only: r if_False simp_thms)
    qed
  qed
qed

lemma is_float_exp2_mult:
  assumes "0 \<le> m" "m < 9007199254740992" "0 \<le> e" "e \<le> 960"
  shows "is_float (of_int m * exp2 e)"
proof -
  have m: "(of_int m :: rat) < exp2 53"
  proof -
    have "(of_int m :: rat) < of_int (2 ^ nat 53)" using assms(2) by (simp only: of_int_less_iff) simp
    then show ?thesis using exp2_int [of 53] by simp
  qed
  have lt: "of_int m * exp2 e < exp2 (e + 53)"
    using m by (simp add: exp2_add mult.commute)
  have "round64 (of_int m * exp2 e) = of_int m * exp2 e"
  proof (cases "m = 0")
    case False
    then show ?thesis
      using assms lt by (intro round64_exact [where m = m and g = e] grid_le) auto
  qed simp
  moreover have "of_int m * exp2 e \<le> max_float"
  proof -
    have "exp2 (e + 53) \<le> exp2 1013" using assms(4) by simp
    also have "exp2 1013 \<le> max_float" by (simp add: exp2_def max_float_def)
    finally show ?thesis using lt by simp
  qed
  ultimately show ?thesis using assms(1) by (simp add: is_float_def)
qed

lemma math_Pow_2:
  assumes "n \<le> 960"
  shows "math_Pow (Fin 2) n = Fin (exp2 (int n))"
proof -
  have "binade 2 = 1" by (rule binade_unique) (simp_all add: exp2_def)
  then have f: "Frexp 2 = (1 / 2, 1 + 1)" by (simp add: Frexp_def exp2_def)
  obtain a e where "pow_loop n (exp2 (- 0)) 0 (1 / 2) (1 + 1) = (a, e)" "a * exp2 e = exp2 (0 - 0 + 1 * int n)"
    using pow_loop_2 [of 0 n 1 0] assms by auto
  moreover have "mk_float (exp2 (int n)) = Fin (exp2 (int n))"
    using is_float_exp2_mult [of 1 "int n"] assms by (simp add: mk_float_exact)
  ultimately show ?thesis by (simp add: math_Pow_def f exp2_def)
qed

lemma second_pow_rat: "of_int (2 ^ k * Second) = (1000000000 * exp2 (int k) :: rat)"
  by (simp add: exp2_def Second_def)

lemma retryBackoff_2:
  assumes "RetryInitialBackoff pol = Second" "RetryMultiplier pol = Fin 2" "1 \<le> attempt" "attempt \<le> 961"
    and "v = 2 ^ nat (attempt - 1) * Second"
  shows "retryBackoff oob pol attempt =
    (let b = (if v \<le> max_int64 then v else oob (Fin (of_int v)))
     in if RetryMaxBackoff pol < b then RetryMaxBackoff pol else b)"
proof -
  define k where "k = nat (attempt - 1)"
  have k: "k \<le> 960" "nat (attempt - 1) = k" using assms(4) by (simp_all add: k_def)
  have v: "of_int v = (1000000000 * exp2 (int k) :: rat)" using second_pow_rat [of k] assms(5) k(2) by simp
  have "float_of_int Second = Fin 1000000000"
    using round64_int [of 1000000000] max_float_ge1
    by (simp add: float_of_int_def Second_def mk_float_def Let_def max_float_def)
  moreover have "mk_float (1000000000 * exp2 (int k)) = Fin (of_int v)"
    using is_float_exp2_mult [of 1000000000 "int k"] k(1) by (simp add: mk_float_exact v)
  moreover have v0: "0 \<le> v" by (simp add: assms(5) Second_def)
  moreover have "rat_trunc (of_int v) = v" using v0 by (simp add: rat_trunc_def)
  ultimately show ?thesis
    using assms(1-3) math_Pow_2 [OF k(1)]
    by (auto simp: retryBackoff_def Let_def k(2) in_i64_def max_int64_def min_int64_def)
qed

text \<open>C35: With the default retry settings the backoffs are 1, 2, 4, 8 and then 10 seconds,
  whatever the platform, up to the 34th attempt. From the 35th the product exceeds an int64
  and the cap compares the platform's conversion result: on amd64 it is negative, so the
  backoff is not capped and the retry is immediate.\<close>

theorem default_backoff:
  assumes "InitialBackoff (rt_Retry rt) = 0" "MaxBackoff (rt_Retry rt) = 0"
    "BackoffMultiplier (rt_Retry rt) = Fin 0"
    and "1 \<le> attempt" "attempt \<le> 961"
  shows "retryBackoff oob (newScannerRuntimePolicy rt) attempt =
    (if attempt \<le> 4 then 2 ^ nat (attempt - 1) * Second
     else if attempt \<le> 34 then 10 * Second
     else min (10 * Second) (oob (Fin (of_int (2 ^ nat (attempt - 1) * Second)))))"
proof -
  let ?pol = "newScannerRuntimePolicy rt"
  have p: "RetryInitialBackoff ?pol = Second" "RetryMultiplier ?pol = Fin 2" "RetryMaxBackoff ?pol = 10 * Second"
    using assms(1-3) by (simp_all add: newScannerRuntimePolicy_def EffectiveScannerRuntimeConfig_def Let_def
      or_default_def or_default_f_def feq_def default_defs)
  define k where "k = nat (attempt - 1)"
  have a: "attempt = int k + 1" using assms(4) by (simp add: k_def)
  have k: "k \<le> 3 \<longleftrightarrow> attempt \<le> 4" "k \<le> 33 \<longleftrightarrow> attempt \<le> 34" by (simp_all add: a)
  have lo: "(2::int) ^ k \<le> 2 ^ 3" if "k \<le> 3" using that by (intro power_increasing) auto
  have mid: "(2::int) ^ 4 \<le> 2 ^ k" if "\<not> k \<le> 3" using that by (intro power_increasing) auto
  have in_range: "(2::int) ^ k \<le> 2 ^ 33" if "k \<le> 33" using that by (intro power_increasing) auto
  have out: "(2::int) ^ 34 \<le> 2 ^ k" if "\<not> k \<le> 33" using that by (intro power_increasing) auto
  have r: "2 ^ k * Second \<le> max_int64 \<longleftrightarrow> k \<le> 33"
    using in_range out by (fastforce simp: Second_def max_int64_def)
  have c: "10 * Second < 2 ^ k * Second \<longleftrightarrow> \<not> k \<le> 3"
    using lo mid by (fastforce simp: Second_def)
  have "k \<le> 33" if "k \<le> 3" using that by simp
  then show ?thesis
    using retryBackoff_2 [OF p(1,2) assms(4,5) refl, of oob]
    by (auto simp: k_def [symmetric] p(3) r c k Let_def)
qed

theorem default_backoff_witness:
  "retryBackoff oob_amd64 (newScannerRuntimePolicy (Runtime (cfg_Scanners ex_config))) 35 = min_int64"
proof -
  have z: "InitialBackoff (rt_Retry (Runtime (cfg_Scanners ex_config))) = 0"
      "MaxBackoff (rt_Retry (Runtime (cfg_Scanners ex_config))) = 0"
      "BackoffMultiplier (rt_Retry (Runtime (cfg_Scanners ex_config))) = Fin 0"
    by (simp_all add: ex_config_def)
  show ?thesis
    using default_backoff [OF z, of 35 oob_amd64] by (simp add: oob_amd64_def min_int64_def Second_def)
qed

section \<open>The execution of a scan\<close>

text \<open>
  What a scan acts on: the clock, the scanner under a timeout (none where the deadline is
  the caller's), and the sleep between attempts, which fails when the context ends.
\<close>

record 'w scan_env =
  env_now :: "'w \<Rightarrow> time"
  env_scan :: "'w \<Rightarrow> duration option \<Rightarrow> image_ref \<Rightarrow> scan_result result \<times> 'w"
  env_sleep :: "'w \<Rightarrow> duration \<Rightarrow> go_error option \<times> 'w"

record runtime_settings =
  rs_policy :: scannerRuntimePolicy
  scannerTimeoutsByName :: "string \<rightharpoonup> duration"
  rs_metrics :: bool
  rs_oob :: "float64 \<Rightarrow> int"

record 'w scan_state =
  ss_breaker :: breaker
  ss_gauge :: "string \<rightharpoonup> circuitState"
  ss_world :: 'w

definition timeoutForScanner :: "runtime_settings \<Rightarrow> string \<Rightarrow> duration" where
  "timeoutForScanner r scannerName =
     (case scannerTimeoutsByName r scannerName of Some timeout \<Rightarrow> timeout | None \<Rightarrow> Timeout (rs_policy r))"

definition updateCircuitStateMetric ::
    "runtime_settings \<Rightarrow> string \<Rightarrow> 'w scan_state \<Rightarrow> 'w scan_state" where
  "updateCircuitStateMetric r scannerName s =
     (if \<not> rs_metrics r then s
      else case circuit_state_of (ss_breaker s) scannerName of (st, c) \<Rightarrow>
        s\<lparr>ss_breaker := c, ss_gauge := (ss_gauge s)(scannerName \<mapsto> st)\<rparr>)"

definition fadd :: "float64 \<Rightarrow> float64 \<Rightarrow> float64" where
  "fadd x y = fsub x (fneg y)"

text \<open>Integer division truncates toward zero; the divisor is positive here.\<close>

definition trunc_div :: "int \<Rightarrow> int \<Rightarrow> int" where
  "trunc_div a b = (if 0 \<le> a then a div b else - ((- a) div b))"

definition duration_Seconds :: "duration \<Rightarrow> float64" where
  "duration_Seconds d =
     (let sec = trunc_div d Second; nsec = d - sec * Second
      in fadd (float_of_int sec) (fdiv (float_of_int nsec) (Fin 1000000000)))"

definition report_success :: "runtime_settings \<Rightarrow> string \<Rightarrow> 'w scan_state \<Rightarrow> 'w scan_state" where
  "report_success r scannerName s =
     updateCircuitStateMetric r scannerName (s\<lparr>ss_breaker := onSuccess (ss_breaker s) scannerName\<rparr>)"

definition report_failure ::
    "'w scan_env \<Rightarrow> runtime_settings \<Rightarrow> string \<Rightarrow> 'w scan_state \<Rightarrow> 'w scan_state" where
  "report_failure env r scannerName s = updateCircuitStateMetric r scannerName
     (s\<lparr>ss_breaker := onFailure (rs_policy r) (env_now env (ss_world s)) (ss_breaker s) scannerName\<rparr>)"

type_synonym scan_return = "scan_result option \<times> float64 \<times> scannerErrorClass \<times> go_error option"

text \<open>One call of the scanner: the outcome, and the total duration with its own added.\<close>

definition scan_attempt ::
    "'w scan_env \<Rightarrow> runtime_settings \<Rightarrow> string \<Rightarrow> image_ref \<Rightarrow> 'w scan_state \<Rightarrow> float64 \<Rightarrow>
     scan_result result \<times> 'w scan_state \<times> float64" where
  "scan_attempt env r scannerName img s totalDuration =
     (let timeout = timeoutForScanner r scannerName;
          start = env_now env (ss_world s)
      in case env_scan env (ss_world s) (if 0 < timeout then Some timeout else None) img of
          (res, w) \<Rightarrow> (res, s\<lparr>ss_world := w\<rparr>, fadd totalDuration (duration_Seconds (time_Sub (env_now env w) start))))"

function retry_loop ::
    "'w scan_env \<Rightarrow> runtime_settings \<Rightarrow> string \<Rightarrow> image_ref \<Rightarrow> int \<Rightarrow> int \<Rightarrow> float64 \<Rightarrow> 'w scan_state \<Rightarrow>
     scan_return \<times> 'w scan_state" where
  "retry_loop env r scannerName img attempts attempt totalDuration s =
     (if attempts < attempt
      then ((None, totalDuration, scannerErrorClassPermanent,
             Some (ErrNew (''scanner '' @ scannerName @ '' failed unexpectedly''))), s)
      else case scan_attempt env r scannerName img s totalDuration of
        (Inr scanResult, s, totalDuration) \<Rightarrow> ((Some scanResult, totalDuration, [], None), report_success r scannerName s)
      | (Inl err, s, totalDuration) \<Rightarrow>
          let errClass = classifyScannerError err in
          if \<not> isRetryableScannerError errClass \<or> attempt = attempts
          then ((None, totalDuration, errClass,
                 Some (ErrWrap (''scanner '' @ scannerName @ '' failed after '' @ show_int attempt @ '' attempt(s): '') err [])),
                report_failure env r scannerName s)
          else case env_sleep env (ss_world s) (retryBackoff (rs_oob r) (rs_policy r) attempt) of
              (Some err, w) \<Rightarrow>
                ((None, totalDuration, scannerErrorClassTransient,
                  Some (ErrWrap ''scanner retry backoff interrupted: '' err [])), s\<lparr>ss_world := w\<rparr>)
            | (None, w) \<Rightarrow> retry_loop env r scannerName img attempts (attempt + 1) totalDuration (s\<lparr>ss_world := w\<rparr>))"
  by pat_completeness auto
termination
  by (relation "measure (\<lambda>(env, r, n, img, attempts, attempt, totalDuration, s). nat (attempts + 1 - attempt))") auto

declare retry_loop.simps [simp del]

definition executeScannerWithResilience ::
    "'w scan_env \<Rightarrow> runtime_settings \<Rightarrow> string \<Rightarrow> image_ref \<Rightarrow> 'w scan_state \<Rightarrow> scan_return \<times> 'w scan_state" where
  "executeScannerWithResilience env r scannerName scanImageRef s =
     (case allow (rs_policy r) (env_now env (ss_world s)) (ss_breaker s) scannerName of
        (Some err, c) \<Rightarrow> ((None, Fin 0, scannerErrorClassCircuitOpen, Some err),
          updateCircuitStateMetric r scannerName (s\<lparr>ss_breaker := c\<rparr>))
      | (None, c) \<Rightarrow>
          let s = updateCircuitStateMetric r scannerName (s\<lparr>ss_breaker := c\<rparr>);
              attempts = (if RetryMaxAttempts (rs_policy r) \<le> 0 then 1 else RetryMaxAttempts (rs_policy r))
          in retry_loop env r scannerName scanImageRef attempts 1 (Fin 0) s)"

section \<open>What an execution does\<close>

text \<open>The state after a number of attempts that all failed with a retryable error and whose
  backoffs all completed; none where the loop stops earlier.\<close>

fun retried ::
    "'w scan_env \<Rightarrow> runtime_settings \<Rightarrow> string \<Rightarrow> image_ref \<Rightarrow> nat \<Rightarrow> int \<Rightarrow> float64 \<Rightarrow> 'w scan_state \<Rightarrow>
     (float64 \<times> 'w scan_state) option" where
  "retried env r n img 0 attempt totalDuration s = Some (totalDuration, s)"
| "retried env r n img (Suc k) attempt totalDuration s =
     (case scan_attempt env r n img s totalDuration of
        (Inr res, _, _) \<Rightarrow> None
      | (Inl err, s1, t1) \<Rightarrow>
          if isRetryableScannerError (classifyScannerError err)
          then case env_sleep env (ss_world s1) (retryBackoff (rs_oob r) (rs_policy r) attempt) of
              (None, w) \<Rightarrow> retried env r n img k (attempt + 1) t1 (s1\<lparr>ss_world := w\<rparr>)
            | (Some _, _) \<Rightarrow> None
          else None)"

lemma scan_attempt_breaker:
  "scan_attempt env r n img s t = (res, s1, t1) \<Longrightarrow> ss_breaker s1 = ss_breaker s \<and> ss_gauge s1 = ss_gauge s"
  by (auto simp: scan_attempt_def Let_def split: prod.splits)

lemma retried_breaker:
  "retried env r n img k a t s = Some (t', s') \<Longrightarrow> ss_breaker s' = ss_breaker s \<and> ss_gauge s' = ss_gauge s"
proof (induction k arbitrary: a t s)
  case (Suc k)
  then show ?case
    by (auto split: prod.splits sum.splits option.splits if_splits dest: scan_attempt_breaker)
qed auto

text \<open>The three ways the loop ends, in the state the last attempt starts from.\<close>

definition loop_end ::
    "'w scan_env \<Rightarrow> runtime_settings \<Rightarrow> string \<Rightarrow> image_ref \<Rightarrow> int \<Rightarrow> int \<Rightarrow> float64 \<Rightarrow> 'w scan_state \<Rightarrow>
     scan_return \<Rightarrow> 'w scan_state \<Rightarrow> bool" where
  "loop_end env r n img attempts attempt t s ret s' \<longleftrightarrow>
     (case scan_attempt env r n img s t of
        (Inr res, s1, t1) \<Rightarrow> ret = (Some res, t1, [], None) \<and> s' = report_success r n s1
      | (Inl err, s1, t1) \<Rightarrow>
          if \<not> isRetryableScannerError (classifyScannerError err) \<or> attempt = attempts
          then (\<exists>msg. ret = (None, t1, classifyScannerError err, Some (ErrWrap msg err []))) \<and>
            s' = report_failure env r n s1
          else \<exists>e w. env_sleep env (ss_world s1) (retryBackoff (rs_oob r) (rs_policy r) attempt) = (Some e, w) \<and>
            ret = (None, t1, scannerErrorClassTransient, Some (ErrWrap ''scanner retry backoff interrupted: '' e [])) \<and>
            s' = s1\<lparr>ss_world := w\<rparr>)"

lemma retry_loop_outcome:
  assumes "attempt \<le> attempts" "retry_loop env r n img attempts attempt t s = (ret, s')"
  shows "\<exists>k tk sk. attempt + int k \<le> attempts \<and> retried env r n img k attempt t s = Some (tk, sk) \<and>
    loop_end env r n img attempts (attempt + int k) tk sk ret s'"
  using assms
proof (induction env r n img attempts attempt t s rule: retry_loop.induct)
  case (1 env r n img attempts attempt t s)
  obtain res s1 t1 where sa: "scan_attempt env r n img s t = (res, s1, t1)"
    by (cases "scan_attempt env r n img s t") auto
  note loop = 1(3) [unfolded retry_loop.simps [of env r n img attempts attempt t s]]
  show ?case
  proof (cases res)
    case (Inr ok)
    then show ?thesis using 1(2) loop sa
      by (intro exI [where x = 0]) (auto simp: loop_end_def)
  next
    case (Inl err)
    let ?stop = "\<not> isRetryableScannerError (classifyScannerError err) \<or> attempt = attempts"
    obtain e w where sl: "env_sleep env (ss_world s1) (retryBackoff (rs_oob r) (rs_policy r) attempt) = (e, w)"
      by (cases "env_sleep env (ss_world s1) (retryBackoff (rs_oob r) (rs_policy r) attempt)") auto
    show ?thesis
    proof (cases "?stop \<or> e \<noteq> None")
      case True
      then show ?thesis using 1(2) loop sa sl Inl
        by (intro exI [where x = 0]) (auto simp: loop_end_def Let_def)
    next
      case False
      then have l: "retry_loop env r n img attempts (attempt + 1) t1 (s1\<lparr>ss_world := w\<rparr>) = (ret, s')"
        using 1(2) loop sa sl Inl by (auto simp: Let_def)
      have "attempt + 1 \<le> attempts" "\<not> attempts < attempt" using 1(2) False by auto
      then obtain k tk sk where "attempt + 1 + int k \<le> attempts"
          "retried env r n img k (attempt + 1) t1 (s1\<lparr>ss_world := w\<rparr>) = Some (tk, sk)"
          "loop_end env r n img attempts (attempt + 1 + int k) tk sk ret s'"
        using 1(1) [OF _ sa [symmetric] Inl refl refl _ sl [symmetric] _ _ l] False by auto
      then show ?thesis using sa sl Inl False
        by (intro exI [where x = "Suc k"]) (auto simp: algebra_simps)
    qed
  qed
qed

text \<open>A return has either a result or an error.\<close>

lemma loop_end_shape:
  "loop_end env r n img attempts attempt t s (res, d, c, err) s' \<Longrightarrow> err = None \<longleftrightarrow> res \<noteq> None"
  by (auto simp: loop_end_def split: prod.splits sum.splits if_splits)

lemma execute_shape:
  assumes "executeScannerWithResilience env r n img s = ((res, d, c, err), s')"
  shows "err = None \<longleftrightarrow> res \<noteq> None"
proof -
  obtain e cb where al: "allow (rs_policy r) (env_now env (ss_world s)) (ss_breaker s) n = (e, cb)"
    by (cases "allow (rs_policy r) (env_now env (ss_world s)) (ss_breaker s) n") auto
  show ?thesis
  proof (cases e)
    case None
    let ?m = "if RetryMaxAttempts (rs_policy r) \<le> 0 then 1 else RetryMaxAttempts (rs_policy r)"
    have "retry_loop env r n img ?m 1 (Fin 0) (updateCircuitStateMetric r n (s\<lparr>ss_breaker := cb\<rparr>)) =
        ((res, d, c, err), s')"
      using assms None by (simp add: executeScannerWithResilience_def Let_def al)
    moreover have "1 \<le> ?m" by simp
    ultimately show ?thesis using retry_loop_outcome loop_end_shape by metis
  qed (use assms in \<open>auto simp: executeScannerWithResilience_def al\<close>)
qed

text \<open>A scanner that the breaker rejects is not called, and a scanner let through is called
  at least once and at most as often as configured.\<close>

definition max_attempts :: "runtime_settings \<Rightarrow> int" where
  "max_attempts r = (if RetryMaxAttempts (rs_policy r) \<le> 0 then 1 else RetryMaxAttempts (rs_policy r))"

text \<open>C6: The execution of a scan has exactly these outcomes. Where the breaker rejects, the
  world is untouched and the class is circuit-open. Otherwise there is a number of completed
  retries, below the configured attempts, after which the last attempt succeeds and reports a
  success, fails for good (an error that is not retryable, or the last attempt) and reports a
  failure, or has its backoff interrupted and reports nothing.\<close>

theorem execute_outcome:
  assumes "executeScannerWithResilience env r n img s = (ret, s')"
    and "allow (rs_policy r) (env_now env (ss_world s)) (ss_breaker s) n = (e, c)"
    and "s0 = updateCircuitStateMetric r n (s\<lparr>ss_breaker := c\<rparr>)"
  shows "case e of
      Some err \<Rightarrow> ret = (None, Fin 0, scannerErrorClassCircuitOpen, Some ErrCircuitOpen) \<and>
        s' = s0 \<and> ss_world s' = ss_world s
    | None \<Rightarrow> \<exists>k tk sk. 1 + int k \<le> max_attempts r \<and>
        retried env r n img k 1 (Fin 0) s0 = Some (tk, sk) \<and> ss_breaker sk = ss_breaker s0 \<and>
        loop_end env r n img (max_attempts r) (1 + int k) tk sk ret s'"
proof (cases e)
  case None
  have "1 \<le> max_attempts r" by (simp add: max_attempts_def)
  moreover have "retry_loop env r n img (max_attempts r) 1 (Fin 0) s0 = (ret, s')"
    using assms None by (simp add: executeScannerWithResilience_def Let_def max_attempts_def)
  ultimately show ?thesis
    using retry_loop_outcome [of 1 "max_attempts r" env r n img "Fin 0" s0 ret s'] None
    by (fastforce dest: retried_breaker)
next
  case (Some err)
  have "err = ErrCircuitOpen" using allow_error [of "rs_policy r" "env_now env (ss_world s)" "ss_breaker s" n]
    assms(2) Some by simp
  moreover have "ss_world s0 = ss_world s"
    by (simp add: assms(3) updateCircuitStateMetric_def split: prod.split)
  ultimately show ?thesis
    using assms Some by (simp add: executeScannerWithResilience_def)
qed

text \<open>A world for examples: the instant, and the outcomes of the scans and the sleeps to come.\<close>

record demo_world =
  dw_now :: time
  dw_scans :: "scan_result result list"
  dw_sleeps :: "go_error option list"

definition demo_env :: "demo_world scan_env" where
  "demo_env =
     \<lparr>env_now = dw_now,
      env_scan = (\<lambda>w timeout img. case dw_scans w of
          [] \<Rightarrow> (Inl (ErrNew ''no outcome''), w)
        | x # xs \<Rightarrow> (x, w\<lparr>dw_scans := xs\<rparr>)),
      env_sleep = (\<lambda>w d. case dw_sleeps w of
          [] \<Rightarrow> (None, w\<lparr>dw_now := dw_now w + d\<rparr>)
        | x # xs \<Rightarrow> (x, w\<lparr>dw_now := dw_now w + d, dw_sleeps := xs\<rparr>))\<rparr>"

definition ex_runtime :: runtime_settings where
  "ex_runtime = \<lparr>rs_policy = ex_policy, scannerTimeoutsByName = Map.empty, rs_metrics = True, rs_oob = oob_amd64\<rparr>"

definition ex_scan_state :: "scan_result result list \<Rightarrow> go_error option list \<Rightarrow> demo_world scan_state" where
  "ex_scan_state scans sleeps = \<lparr>ss_breaker = newScannerCircuitBreaker, ss_gauge = Map.empty,
     ss_world = \<lparr>dw_now = 0, dw_scans = scans, dw_sleeps = sleeps\<rparr>\<rparr>"

theorem execute_outcome_witness:
  "\<exists>k tk sk. 1 + int k \<le> max_attempts ex_runtime \<and>
    retried demo_env ex_runtime ''trivy'' zero_image k 1 (Fin 0)
      (updateCircuitStateMetric ex_runtime ''trivy''
        (ex_scan_state [Inl ErrCanceled] []\<lparr>ss_breaker := [''trivy'' \<mapsto> new_circuit]\<rparr>)) = Some (tk, sk)"
proof -
  let ?s = "ex_scan_state [Inl ErrCanceled] []"
  have "allow (rs_policy ex_runtime) (env_now demo_env (ss_world ?s)) (ss_breaker ?s) ''trivy'' =
      (None, [''trivy'' \<mapsto> new_circuit])"
    by (simp add: allow_def allow_circuit_def ex_scan_state_def newScannerCircuitBreaker_def new_circuit_def
      getOrCreate_def)
  from execute_outcome [OF surjective_pairing this refl, of zero_image] show ?thesis by auto
qed

lemma breaker_abs_metric [simp]:
  "breaker_abs (ss_breaker (updateCircuitStateMetric r n s)) = breaker_abs (ss_breaker s)"
proof -
  have "breaker_abs (c(n \<mapsto> getOrCreate c n)) = breaker_abs c" for c
    by (rule ext) (simp add: breaker_abs_def)
  then show ?thesis by (simp add: updateCircuitStateMetric_def circuit_state_of_def)
qed

lemma ss_world_metric [simp]: "ss_world (updateCircuitStateMetric r n s) = ss_world s"
  by (simp add: updateCircuitStateMetric_def split: prod.split)

lemma wf_breaker_metric [simp]:
  "wf_breaker pol (ss_breaker (updateCircuitStateMetric r n s)) = wf_breaker pol (ss_breaker s)"
  by (auto simp: updateCircuitStateMetric_def circuit_state_of_def wf_breaker_def)

text \<open>An interrupted backoff costs the circuit its only probe. Where the open duration has
  passed, one half-open request is allowed, the scan fails with a retryable error and the
  sleep before its retry is interrupted, the circuit is left half open with its probe taken and
  nobody to return it, and the breaker rejects the scanner at every later time.\<close>

theorem interrupted_probe_blocks:
  assumes "wf_policy (rs_policy r)" "HalfOpenMaxRequests (rs_policy r) = 1" "2 \<le> RetryMaxAttempts (rs_policy r)"
    and "wf_breaker (rs_policy r) (ss_breaker s)" "breaker_abs (ss_breaker s) n = SOpen t"
    and "OpenDuration (rs_policy r) \<le> time_Sub (env_now env (ss_world s)) t"
    and "env_scan env (ss_world s)
      (if 0 < timeoutForScanner r n then Some (timeoutForScanner r n) else None) img = (Inl err, w)"
    and "isRetryableScannerError (classifyScannerError err)"
    and "env_sleep env w (retryBackoff (rs_oob r) (rs_policy r) 1) = (Some e, w')"
  shows "breaker_abs (ss_breaker (snd (executeScannerWithResilience env r n img s))) n = SHalfOpen 1 \<and>
    fst (allow (rs_policy r) now (ss_breaker (snd (executeScannerWithResilience env r n img s))) n) = Some ErrCircuitOpen"
proof -
  let ?pol = "rs_policy r" and ?now = "env_now env (ss_world s)"
  obtain c where al: "allow ?pol ?now (ss_breaker s) n = (None, c)" "breaker_abs c n = SHalfOpen 1" "wf_breaker ?pol c"
    using allow_spec [OF assms(1,4), of ?now n] wf_breaker_steps(1) [OF assms(1,4), of ?now n] assms(5,6)
    by (cases "allow ?pol ?now (ss_breaker s) n") auto
  let ?s0 = "updateCircuitStateMetric r n (s\<lparr>ss_breaker := c\<rparr>)"
  have "snd (executeScannerWithResilience env r n img s) = ?s0\<lparr>ss_world := w'\<rparr>"
    using assms(3,7-9) by (simp add: executeScannerWithResilience_def al Let_def retry_loop.simps scan_attempt_def)
  then have b: "ss_breaker (snd (executeScannerWithResilience env r n img s)) = ss_breaker ?s0" by simp
  then have "wf_breaker ?pol (ss_breaker (snd (executeScannerWithResilience env r n img s)))"
    "breaker_abs (ss_breaker (snd (executeScannerWithResilience env r n img s))) n = SHalfOpen 1"
    using al(2,3) by simp_all
  then show ?thesis using allow_spec(1) [OF assms(1)] assms(2) by simp
qed

definition ex_tripped :: "demo_world scan_state" where
  "ex_tripped = \<lparr>ss_breaker = [''snyk'' \<mapsto>
       \<lparr>c_state = circuitStateOpen, consecutiveFailures = 3, openedAt = 0, halfOpenInFlight = 0\<rparr>],
     ss_gauge = Map.empty,
     ss_world = \<lparr>dw_now = 200 * Second, dw_scans = [Inl ErrDeadlineExceeded], dw_sleeps = [Some ErrCanceled]\<rparr>\<rparr>"

theorem interrupted_probe_blocks_witness:
  "fst (allow ex_policy (1000000 * Hour)
     (ss_breaker (snd (executeScannerWithResilience demo_env ex_runtime ''snyk'' zero_image ex_tripped))) ''snyk'') =
   Some ErrCircuitOpen"
proof -
  have r: "rs_policy ex_runtime = ex_policy" by (simp add: ex_runtime_def)
  have "wf_breaker ex_policy (ss_breaker ex_tripped)"
    by (auto simp: wf_breaker_def getOrCreate_def ex_tripped_def wf_circuit_def ex_policy_def new_circuit_def)
  moreover have "breaker_abs (ss_breaker ex_tripped) ''snyk'' = SOpen 0"
    by (simp add: breaker_abs_def getOrCreate_def ex_tripped_def circuit_abs_def)
  moreover have "isRetryableScannerError (classifyScannerError ErrDeadlineExceeded)"
    by (simp add: classifyScannerError_def isRetryableScannerError_def errors_Is_def)
  ultimately show ?thesis
    using interrupted_probe_blocks [of ex_runtime ex_tripped "''snyk''" 0 demo_env zero_image ErrDeadlineExceeded
        "\<lparr>dw_now = 200 * Second, dw_scans = [], dw_sleeps = [Some ErrCanceled]\<rparr>" ErrCanceled
        "\<lparr>dw_now = 200 * Second + retryBackoff (rs_oob ex_runtime) ex_policy 1, dw_scans = [], dw_sleeps = []\<rparr>"
        "1000000 * Hour"]
    by (simp add: r demo_env_def ex_tripped_def) (simp add: ex_policy_def time_Sub_def duration_units min_int64_def max_int64_def)
qed

end
