(* ===== verification/State_Backend.thy ===== *)
theory State_Backend
  imports Go_Time
begin

text \<open>
  The state entries of \<open>internal/state/entry.go\<close> and the contract of \<open>internal/state/backend.go\<close>.
  A backend acts on a store at an instant; its three methods return the error of the call
  beside the store, because even a read changes the store where it drops an expired entry.
\<close>

record entry =
  e_Fingerprint :: string
  e_LastScannedTime :: time
  e_LastPublishedTime :: time
  e_Summary :: string

definition zero_entry :: entry where
  "zero_entry = \<lparr>e_Fingerprint = [], e_LastScannedTime = 0, e_LastPublishedTime = 0, e_Summary = []\<rparr>"

record 's backend =
  be_GetEntry :: "time \<Rightarrow> string \<Rightarrow> 's \<Rightarrow> entry option result \<times> 's"
  be_SetEntry :: "time \<Rightarrow> string \<Rightarrow> entry \<Rightarrow> 's \<Rightarrow> go_error option \<times> 's"
  be_DeleteEntry :: "time \<Rightarrow> string \<Rightarrow> 's \<Rightarrow> go_error option \<times> 's"

text \<open>
  What the reconciler relies on. A store that works at an instant works from then on. In a
  working store the methods do not fail, and at every instant from the call on the store reads as a map: a read returns the binding of its instant
  and leaves the map alone, a write binds one key, a delete unbinds one. A backend may forget
  part of an entry (the fraction of a second) and may let it expire: an entry written at \<open>t\<close> is
  shown at \<open>t'\<close> as \<open>shows_entry t t' e\<close>. What it shows has the fingerprint and the summary of
  what was written, and an entry scanned at the instant it is written is shown at that instant.
\<close>

locale state_backend =
  fixes be :: "'s backend"
    and works :: "time \<Rightarrow> 's \<Rightarrow> bool"
    and view :: "time \<Rightarrow> 's \<Rightarrow> string \<Rightarrow> entry option"
    and keeps :: "time \<Rightarrow> entry \<Rightarrow> bool"
    and shows_entry :: "time \<Rightarrow> time \<Rightarrow> entry \<Rightarrow> entry option"
  assumes works_later: "works t st \<Longrightarrow> t \<le> t' \<Longrightarrow> works t' st"
    and get_law: "works t st \<Longrightarrow> be_GetEntry be t k st = (r, st') \<Longrightarrow>
      r = Inr (view t st k) \<and> works t st' \<and> (\<forall>t' \<ge> t. view t' st' = view t' st)"
    and set_law: "works t st \<Longrightarrow> keeps t e \<Longrightarrow> be_SetEntry be t k e st = (err, st') \<Longrightarrow>
      err = None \<and> works t st' \<and> (\<forall>t' \<ge> t. view t' st' = (view t' st)(k := shows_entry t t' e))"
    and delete_law: "works t st \<Longrightarrow> be_DeleteEntry be t k st = (err, st') \<Longrightarrow>
      err = None \<and> works t st' \<and> (\<forall>t' \<ge> t. view t' st' = (view t' st)(k := None))"
    and shows_faithful: "keeps t e \<Longrightarrow> shows_entry t t' e = Some e' \<Longrightarrow>
      e_Fingerprint e' = e_Fingerprint e \<and> e_Summary e' = e_Summary e"
    and shows_fresh: "keeps t e \<Longrightarrow> e_LastScannedTime e = t \<Longrightarrow> shows_entry t t e \<noteq> None"
begin

lemma get_after_set:
  assumes "works t st" "keeps t e" "e_LastScannedTime e = t"
    and "be_SetEntry be t k e st = (err, st1)" "be_GetEntry be t k st1 = (r, st2)"
  shows "\<exists>e'. r = Inr (Some e') \<and> e_Fingerprint e' = e_Fingerprint e \<and> e_Summary e' = e_Summary e"
proof -
  have s: "works t st1" "view t st1 k = shows_entry t t e" using set_law [OF assms(1,2,4)] by simp_all
  then have "r = Inr (shows_entry t t e)" using get_law [OF s(1) assms(5)] by simp
  then show ?thesis using shows_fresh [OF assms(2,3)] shows_faithful [OF assms(2)] by fastforce
qed

lemma get_after_delete:
  assumes "works t st" "be_DeleteEntry be t k st = (err, st1)" "be_GetEntry be t k st1 = (r, st2)"
  shows "r = Inr None"
  using delete_law [OF assms(1,2)] get_law [of t st1, OF _ assms(3)] by auto

end

end
