(* ===== verification/Reconciler.thy ===== *)
theory Reconciler
  imports Scanner_Runtime Image_Ref Policy Publisher State_Backend
begin

text \<open>
  The reconciler of \<open>internal/reconciler/reconcile.go\<close>: from the pod specification of a
  workload to its images, scans, state and events. Each function acts on the state the
  goroutines share: the circuit breaker, the rate limiter, the state store, the metrics and
  the world of the external services. Log output is left out.
\<close>

section \<open>Metrics\<close>

text \<open>The metrics of \<open>internal/metrics\<close> that the reconciler changes, with their label values.\<close>

datatype metric =
    ImagesObservedTotal | ImagesResolvedTotal | ImageResolutionErrorsTotal
  | ScansTotal | ScanErrorsTotal | ScansInFlight | ScanQueueDepth | NamespaceScanQueueDepth
  | ScannerErrorClassTotal string string | ScannerSkippedTotal string string
  | EventsPublishedTotal | EventPublishErrorsTotal | DedupeHitsTotal
  | ReconcileRunsTotal string | WorkloadsReconciledTotal string
  | StateLookupsTotal string | StateUpdatesTotal string | EventSkipsTotal string

type_synonym metrics = "metric \<Rightarrow> int"

section \<open>The state and the environment\<close>

record k8s_event =
  ke_Namespace :: string
  ke_GenerateName :: string
  ke_Object_Kind :: string
  ke_Object_Name :: string
  ke_Object_Namespace :: string
  ke_Object_UID :: string
  ke_Object_APIVersion :: string
  ke_Reason :: string
  ke_Action :: string
  ke_Message :: string
  ke_Type :: string
  ke_FirstTimestamp :: time
  ke_LastTimestamp :: time
  ke_EventTime :: time
  ke_ReportingController :: string
  ke_ReportingInstance :: string
  ke_Source_Component :: string

record 'w scanner =
  sc_Name :: string
  sc_Scan :: "'w \<Rightarrow> duration option \<Rightarrow> image_ref \<Rightarrow> scan_result result \<times> 'w"

record workloadInfo =
  wl_Kind :: string
  wl_Name :: string
  wl_UID :: string
  wl_APIVersion :: string
  wl_PodSpec :: pod_spec

record k8s_workload =
  kw_Name :: string
  kw_UID :: string
  kw_PodSpec :: pod_spec

text \<open>The cluster as the clientset lists it.\<close>

record cluster =
  cl_Namespaces :: "string list result"
  cl_Deployments :: "string \<Rightarrow> k8s_workload list result"
  cl_StatefulSets :: "string \<Rightarrow> k8s_workload list result"
  cl_DaemonSets :: "string \<Rightarrow> k8s_workload list result"

text \<open>
  The parts of the reconciler that do not change in a run, and the external services: the
  clock, the sleep, the registry, the Komodor client and the events API (none where the code
  holds a nil pointer).
\<close>

record ('w, 's) recon_env =
  re_cfg :: config
  re_settings :: runtime_settings
  re_scanners :: "'w scanner list"
  re_backend :: "'s backend"
  re_now :: "'w \<Rightarrow> time"
  re_sleep :: "'w \<Rightarrow> duration \<Rightarrow> go_error option \<times> 'w"
  re_digest :: "'w \<Rightarrow> string \<Rightarrow> string result"
  re_publish :: "('w \<Rightarrow> event \<Rightarrow> go_error option \<times> 'w) option"
  re_create_event :: "('w \<Rightarrow> k8s_event \<Rightarrow> go_error option \<times> 'w) option"

record ('w, 's) recon =
  r_scan :: "'w scan_state"
  r_backpressure :: limiter
  r_store :: 's
  r_metrics :: metrics
  r_durations :: "float64 list"

definition r_now :: "('w, 's) recon_env \<Rightarrow> ('w, 's) recon \<Rightarrow> time" where
  "r_now env r = re_now env (ss_world (r_scan r))"

definition metric_Add :: "metric \<Rightarrow> int \<Rightarrow> ('w, 's) recon \<Rightarrow> ('w, 's) recon" where
  "metric_Add m n r = r\<lparr>r_metrics := (r_metrics r)(m := r_metrics r m + n)\<rparr>"

definition Inc :: "metric \<Rightarrow> ('w, 's) recon \<Rightarrow> ('w, 's) recon" where
  "Inc m r = metric_Add m 1 r"

definition Dec :: "metric \<Rightarrow> ('w, 's) recon \<Rightarrow> ('w, 's) recon" where
  "Dec m r = metric_Add m (-1) r"

definition with_world :: "'w \<Rightarrow> ('w, 's) recon \<Rightarrow> ('w, 's) recon" where
  "with_world w r = r\<lparr>r_scan := (r_scan r)\<lparr>ss_world := w\<rparr>\<rparr>"

text \<open>The three methods of the backend on the store of the state.\<close>

definition GetEntry :: "('w, 's) recon_env \<Rightarrow> string \<Rightarrow> ('w, 's) recon \<Rightarrow> entry option result \<times> ('w, 's) recon" where
  "GetEntry env k r = (case be_GetEntry (re_backend env) (r_now env r) k (r_store r) of
     (res, st) \<Rightarrow> (res, r\<lparr>r_store := st\<rparr>))"

definition SetEntry :: "('w, 's) recon_env \<Rightarrow> string \<Rightarrow> entry \<Rightarrow> ('w, 's) recon \<Rightarrow> go_error option \<times> ('w, 's) recon" where
  "SetEntry env k e r = (case be_SetEntry (re_backend env) (r_now env r) k e (r_store r) of
     (err, st) \<Rightarrow> (err, r\<lparr>r_store := st\<rparr>))"

definition DeleteEntry :: "('w, 's) recon_env \<Rightarrow> string \<Rightarrow> ('w, 's) recon \<Rightarrow> go_error option \<times> ('w, 's) recon" where
  "DeleteEntry env k r = (case be_DeleteEntry (re_backend env) (r_now env r) k (r_store r) of
     (err, st) \<Rightarrow> (err, r\<lparr>r_store := st\<rparr>))"

section \<open>State and publication of a result\<close>

definition cleanupPreviousDigestState ::
    "('w, 's) recon_env \<Rightarrow> string \<Rightarrow> string \<Rightarrow> ('w, 's) recon \<Rightarrow> ('w, 's) recon" where
  "cleanupPreviousDigestState env latestDigestKey stateKey r =
     (case GetEntry env latestDigestKey r of
        (Inl err, r) \<Rightarrow> r
      | (Inr None, r) \<Rightarrow> r
      | (Inr (Some latestDigestEntry), r) \<Rightarrow>
          if e_Fingerprint latestDigestEntry = [] \<or> e_Fingerprint latestDigestEntry = stateKey then r
          else snd (DeleteEntry env (e_Fingerprint latestDigestEntry) r))"

definition loadLastFingerprint ::
    "('w, 's) recon_env \<Rightarrow> string \<Rightarrow> ('w, 's) recon \<Rightarrow> string \<times> ('w, 's) recon" where
  "loadLastFingerprint env stateKey r =
     (case GetEntry env stateKey r of
        (Inl err, r) \<Rightarrow> ([], Inc (StateLookupsTotal ''error'') r)
      | (Inr None, r) \<Rightarrow> ([], Inc (StateLookupsTotal ''miss'') r)
      | (Inr (Some lastEntry), r) \<Rightarrow> (e_Fingerprint lastEntry, Inc (StateLookupsTotal ''hit'') r))"

definition k8s_event_of :: "string \<Rightarrow> scan_result \<Rightarrow> workload_context \<Rightarrow> k8s_event" where
  "k8s_event_of scannerName scanResult workloadCtx =
     (let s = sr_Summary scanResult;
          eventType = (if 0 < Total s then ''Warning'' else ''Normal'');
          counts = ''critical='' @ show_int (Critical s) @ '' high='' @ show_int (High s)
            @ '' medium='' @ show_int (Medium s) @ '' low='' @ show_int (Low s);
          summary = counts @ '' total='' @ show_int (Total s);
          message = ''summary='' @ CHR 0x22 # summary @ CHR 0x22 # '' scanner='' @ scannerName
            @ '' image='' @ img_Resolved (sr_Image scanResult) @ '' findings='' @ show_int (Total s)
            @ '' ('' @ counts @ '')'';
          now = sr_ScannedAt scanResult
      in \<lparr>ke_Namespace = wc_Namespace workloadCtx, ke_GenerateName = ''komodor-security-report-'',
          ke_Object_Kind = wc_Kind workloadCtx, ke_Object_Name = wc_Name workloadCtx,
          ke_Object_Namespace = wc_Namespace workloadCtx, ke_Object_UID = wc_UID workloadCtx,
          ke_Object_APIVersion = wc_APIVersion workloadCtx,
          ke_Reason = ''VulnerabilityScan'', ke_Action = ''Scan'', ke_Message = message, ke_Type = eventType,
          ke_FirstTimestamp = now, ke_LastTimestamp = now, ke_EventTime = now,
          ke_ReportingController = ''komodor-security-reporter'',
          ke_ReportingInstance = wc_Name workloadCtx,
          ke_Source_Component = ''komodor-security-reporter''\<rparr>)"

definition publishKubernetesEvent ::
    "('w, 's) recon_env \<Rightarrow> string \<Rightarrow> scan_result \<Rightarrow> workload_context \<Rightarrow> ('w, 's) recon \<Rightarrow>
     go_error option \<times> ('w, 's) recon" where
  "publishKubernetesEvent env scannerName scanResult workloadCtx r =
     (case re_create_event env of
        None \<Rightarrow> (Some (ErrNew ''kubernetes clientset is not configured''), r)
      | Some create \<Rightarrow>
          (case create (ss_world (r_scan r)) (k8s_event_of scannerName scanResult workloadCtx) of
             (Some err, w) \<Rightarrow> (Some (ErrWrap ''create kubernetes event: '' err []), with_world w r)
           | (None, w) \<Rightarrow> (None, with_world w r)))"

definition state_key :: "reg_image_ref \<Rightarrow> string \<Rightarrow> string" where
  "state_key resolved scannerName = Digest resolved @ ''/'' @ scannerName"

definition latest_digest_key :: "reg_image_ref \<Rightarrow> string \<Rightarrow> string" where
  "latest_digest_key resolved scannerName =
     ''latest/'' @ Registry resolved @ ''/'' @ Repository resolved @ '':'' @ Tag resolved @ ''/'' @ scannerName"

text \<open>The publication to Komodor, and whether it succeeded.\<close>

definition publish_to_komodor ::
    "('w, 's) recon_env \<Rightarrow> scan_result \<Rightarrow> workload_context \<Rightarrow> event_options \<Rightarrow> ('w, 's) recon \<Rightarrow>
     bool \<times> ('w, 's) recon" where
  "publish_to_komodor env scanResult workloadCtx eventOpts r =
     (if \<not> PublishToKomodor (Mode (cfg_Publishing (re_cfg env))) then (False, r)
      else case re_publish env of
          None \<Rightarrow> (False, Inc EventPublishErrorsTotal r)
        | Some publish \<Rightarrow>
            (case publish (ss_world (r_scan r)) (EventFromScanResult scanResult workloadCtx eventOpts) of
               (Some err, w) \<Rightarrow> (False, Inc EventPublishErrorsTotal (with_world w r))
             | (None, w) \<Rightarrow> (True, with_world w r)))"

definition publish_to_events ::
    "('w, 's) recon_env \<Rightarrow> string \<Rightarrow> scan_result \<Rightarrow> workload_context \<Rightarrow> ('w, 's) recon \<Rightarrow>
     bool \<times> ('w, 's) recon" where
  "publish_to_events env scannerName scanResult workloadCtx r =
     (if \<not> PublishToEvents (Mode (cfg_Publishing (re_cfg env))) then (False, r)
      else case publishKubernetesEvent env scannerName scanResult workloadCtx r of
          (Some err, r) \<Rightarrow> (False, Inc EventPublishErrorsTotal r)
        | (None, r) \<Rightarrow> (True, r))"

definition record_publication ::
    "('w, 's) recon_env \<Rightarrow> string \<Rightarrow> time \<Rightarrow> scan_result \<Rightarrow> ('w, 's) recon \<Rightarrow> ('w, 's) recon" where
  "record_publication env stateKey now scanResult r =
     (let r = Inc EventsPublishedTotal r;
          stateEntry = \<lparr>e_Fingerprint = Fingerprint scanResult, e_LastScannedTime = now, e_LastPublishedTime = now,
            e_Summary = show_int (Total (sr_Summary scanResult)) @ '' findings''\<rparr>
      in case SetEntry env stateKey stateEntry r of
          (Some err, r) \<Rightarrow> Inc (StateUpdatesTotal ''error'') r
        | (None, r) \<Rightarrow> Inc (StateUpdatesTotal ''success'') r)"

definition handleScanResultStateAndPublish ::
    "('w, 's) recon_env \<Rightarrow> string \<Rightarrow> reg_image_ref \<Rightarrow> scan_result \<Rightarrow> workload_context \<Rightarrow> event_options \<Rightarrow>
     ('w, 's) recon \<Rightarrow> ('w, 's) recon" where
  "handleScanResultStateAndPublish env scannerName resolved scanResult workloadCtx eventOpts r =
     (let stateKey = state_key resolved scannerName;
          latestDigestKey = latest_digest_key resolved scannerName;
          r = cleanupPreviousDigestState env latestDigestKey stateKey r;
          now = r_now env r;
          r = snd (SetEntry env latestDigestKey
                \<lparr>e_Fingerprint = stateKey, e_LastScannedTime = now, e_LastPublishedTime = now,
                 e_Summary = Digest resolved\<rparr> r);
          (lastFingerprint, r) = loadLastFingerprint env stateKey r
      in if \<not> EvaluatePublish scanResult lastFingerprint False
         then Inc (EventSkipsTotal ''deduplicated'') (Inc DedupeHitsTotal r)
         else if \<not> ShouldPublish scanResult eventOpts
         then Inc (EventSkipsTotal ''severity_threshold'') r
         else
           let (komodor, r) = publish_to_komodor env scanResult workloadCtx eventOpts r;
               (events, r) = publish_to_events env scannerName scanResult workloadCtx r;
               publishedCount = (if komodor then 1 else 0) + (if events then 1 else (0::int))
           in if publishedCount = 0 then r
              else record_publication env stateKey now scanResult r)"

section \<open>One scan of one image\<close>

definition prepareScanImage ::
    "('w, 's) recon_env \<Rightarrow> extracted_image \<Rightarrow> ('w, 's) recon \<Rightarrow>
     (reg_image_ref \<times> image_ref) option \<times> ('w, 's) recon" where
  "prepareScanImage env extractedImg r =
     (case Parse (ei_Image extractedImg) of
        Inl err \<Rightarrow> (None, r)
      | Inr imageRef \<Rightarrow>
          (case Resolve (re_digest env (ss_world (r_scan r))) imageRef of
             (_, Some err) \<Rightarrow> (None, Inc ImageResolutionErrorsTotal r)
           | (resolved, None) \<Rightarrow>
               (Some (resolved,
                  \<lparr>img_Original = Original resolved, img_Registry = Registry resolved,
                   img_Repository = Repository resolved, img_Tag = Tag resolved,
                   img_Digest = Digest resolved, img_Resolved = Resolved resolved\<rparr>),
                Inc ImagesResolvedTotal r)))"

definition scanner_env :: "('w, 's) recon_env \<Rightarrow> 'w scanner \<Rightarrow> 'w scan_env" where
  "scanner_env env sc = \<lparr>env_now = re_now env, env_scan = sc_Scan sc, env_sleep = re_sleep env\<rparr>"

text \<open>The first error of a workload is the one it returns.\<close>

definition setError :: "go_error option \<Rightarrow> go_error option \<Rightarrow> go_error option" where
  "setError s_err err = (if err = None then s_err else if s_err = None then err else s_err)"

definition runScannerForImage ::
    "('w, 's) recon_env \<Rightarrow> string \<Rightarrow> workloadInfo \<Rightarrow> extracted_image \<Rightarrow> reg_image_ref \<Rightarrow> image_ref \<Rightarrow>
     'w scanner \<Rightarrow> go_error option \<Rightarrow> ('w, 's) recon \<Rightarrow> go_error option \<times> ('w, 's) recon" where
  "runScannerForImage env namespace wl extractedImg resolved scanImageRef sc execErr r =
     (case executeScannerWithResilience (scanner_env env sc) (re_settings env) (sc_Name sc) scanImageRef (r_scan r) of
        ((scanResult, scanDuration, errClass, err), s) \<Rightarrow>
          let r = r\<lparr>r_scan := s\<rparr> in
          (case (err, scanResult) of
             (Some e, _) \<Rightarrow>
               let r = r\<lparr>r_backpressure := RecordResult (r_backpressure r) True\<rparr>;
                   r = Inc (ScannerErrorClassTotal (sc_Name sc) errClass) (Inc ScanErrorsTotal r);
                   r = (if errClass = scannerErrorClassCircuitOpen
                        then Inc (ScannerSkippedTotal (sc_Name sc) ''circuit_open'') r else r)
               in (setError execErr (Some e), Dec ScansInFlight r)
           | (None, Some scanResult) \<Rightarrow>
               let r = Inc ScansTotal r;
                   r = r\<lparr>r_durations := r_durations r @ [scanDuration],
                         r_backpressure := RecordResult (r_backpressure r) False\<rparr>;
                   cfg = re_cfg env;
                   workloadCtx = \<lparr>wc_ClusterName = cfg_ClusterName cfg, wc_Namespace = namespace,
                     wc_Kind = wl_Kind wl, wc_Name = wl_Name wl, wc_UID = wl_UID wl,
                     wc_APIVersion = wl_APIVersion wl, wc_Container = ei_ContainerName extractedImg\<rparr>;
                   eventOpts = \<lparr>MinimumSeverity = p_MinimumSeverity (cfg_Publishing cfg),
                     IncludeTopFindings = p_IncludeTopFindings (cfg_Publishing cfg),
                     PublishCleanScans = p_PublishCleanScans (cfg_Publishing cfg)\<rparr>
               in (execErr, Dec ScansInFlight
                    (handleScanResultStateAndPublish env (sc_Name sc) resolved scanResult workloadCtx eventOpts r))
           | (None, None) \<Rightarrow> (execErr, r)))"

section \<open>Workloads\<close>

definition workload_of :: "string \<Rightarrow> k8s_workload \<Rightarrow> workloadInfo" where
  "workload_of kind kw = \<lparr>wl_Kind = kind, wl_Name = kw_Name kw, wl_UID = kw_UID kw,
     wl_APIVersion = ''apps/v1'', wl_PodSpec = kw_PodSpec kw\<rparr>"

definition listWorkloads :: "cluster \<Rightarrow> string \<Rightarrow> string \<Rightarrow> workloadInfo list result" where
  "listWorkloads cl namespace kind =
     (if kind = ''Deployment'' then
        (case cl_Deployments cl namespace of Inl err \<Rightarrow> Inl (ErrWrap ''list deployments: '' err [])
         | Inr items \<Rightarrow> Inr (map (workload_of kind) items))
      else if kind = ''StatefulSet'' then
        (case cl_StatefulSets cl namespace of Inl err \<Rightarrow> Inl (ErrWrap ''list statefulsets: '' err [])
         | Inr items \<Rightarrow> Inr (map (workload_of kind) items))
      else if kind = ''DaemonSet'' then
        (case cl_DaemonSets cl namespace of Inl err \<Rightarrow> Inl (ErrWrap ''list daemonsets: '' err [])
         | Inr items \<Rightarrow> Inr (map (workload_of kind) items))
      else Inr [])"

fun isExcluded :: "string \<Rightarrow> string list \<Rightarrow> bool" where
  "isExcluded ns [] = False"
| "isExcluded ns (excl # exclusions) = (if ns = excl then True else isExcluded ns exclusions)"

definition resolveNamespaces :: "config \<Rightarrow> cluster \<Rightarrow> string list result" where
  "resolveNamespaces cfg cl =
     (if Include (cfg_Namespaces cfg) \<noteq> [] then Inr (sort (Include (cfg_Namespaces cfg)))
      else case cl_Namespaces cl of
          Inl err \<Rightarrow> Inl (ErrWrap ''list namespaces: '' err [])
        | Inr names \<Rightarrow> Inr (sort names))"

section \<open>Construction\<close>

definition NewReconciler :: "config \<Rightarrow> 'w \<Rightarrow> 's \<Rightarrow> ('w, 's) recon" where
  "NewReconciler cfg w st =
     (let bp = Backpressure (EffectiveScannersConfig (cfg_Scanners cfg))
      in \<lparr>r_scan = \<lparr>ss_breaker = newScannerCircuitBreaker, ss_gauge = Map.empty, ss_world = w\<rparr>,
          r_backpressure = NewAdaptiveLimiter (MaxRPS bp) (MinRPS bp) (ErrorRateThreshold bp),
          r_store = st, r_metrics = (\<lambda>_. 0), r_durations = []\<rparr>)"

section \<open>What the steps leave alone\<close>

lemma r_metrics_simps [simp]:
  "r_metrics (Inc m r) = (r_metrics r)(m := r_metrics r m + 1)"
  "r_metrics (Dec m r) = (r_metrics r)(m := r_metrics r m - 1)"
  "r_metrics (with_world w r) = r_metrics r"
  by (simp_all add: Inc_def Dec_def metric_Add_def with_world_def)

lemma r_store_simps [simp]:
  "r_store (Inc m r) = r_store r" "r_store (Dec m r) = r_store r" "r_store (with_world w r) = r_store r"
  by (simp_all add: Inc_def Dec_def metric_Add_def with_world_def)

lemma r_scan_simps [simp]:
  "r_scan (Inc m r) = r_scan r" "r_scan (Dec m r) = r_scan r"
  "r_scan (with_world w r) = (r_scan r)\<lparr>ss_world := w\<rparr>"
  by (simp_all add: Inc_def Dec_def metric_Add_def with_world_def)

lemma r_now_simps [simp]: "r_now env (Inc m r) = r_now env r" "r_now env (Dec m r) = r_now env r"
  by (simp_all add: r_now_def)

lemma metric_labels [simp]:
  "EventSkipsTotal ''deduplicated'' \<noteq> EventSkipsTotal ''severity_threshold''"
  "EventSkipsTotal ''severity_threshold'' \<noteq> EventSkipsTotal ''deduplicated''"
  "StateUpdatesTotal ''success'' \<noteq> StateUpdatesTotal ''error''"
  "StateUpdatesTotal ''error'' \<noteq> StateUpdatesTotal ''success''"
  by simp_all

text \<open>A call of the backend changes the store and nothing else.\<close>

definition same_but_store :: "('w, 's) recon \<Rightarrow> ('w, 's) recon \<Rightarrow> bool" where
  "same_but_store r r' \<longleftrightarrow> r' = r\<lparr>r_store := r_store r'\<rparr>"

lemma same_but_storeD:
  "same_but_store r r' \<Longrightarrow> r_metrics r' = r_metrics r \<and> r_scan r' = r_scan r \<and>
    r_backpressure r' = r_backpressure r \<and> r_durations r' = r_durations r"
  by (simp add: same_but_store_def) (metis recon.select_convs recon.surjective recon.update_convs)

lemma same_but_store_now: "same_but_store r r' \<Longrightarrow> r_now env r' = r_now env r"
  by (auto simp: r_now_def dest: same_but_storeD)

lemma same_but_store_refl [simp]: "same_but_store r r"
  by (simp add: same_but_store_def)

lemma same_but_store_trans: "same_but_store r r' \<Longrightarrow> same_but_store r' r'' \<Longrightarrow> same_but_store r r''"
  by (simp add: same_but_store_def) (metis recon.surjective recon.update_convs(3))

lemma store_calls_same:
  "GetEntry env k r = (x, r') \<Longrightarrow> same_but_store r r'"
  "SetEntry env k e r = (y, r') \<Longrightarrow> same_but_store r r'"
  "DeleteEntry env k r = (y, r') \<Longrightarrow> same_but_store r r'"
  by (auto simp: same_but_store_def GetEntry_def SetEntry_def DeleteEntry_def split: prod.splits)

lemma cleanup_same: "same_but_store r (cleanupPreviousDigestState env lk sk r)"
proof -
  obtain x r1 where g: "GetEntry env lk r = (x, r1)" by (cases "GetEntry env lk r") auto
  have "same_but_store r1 (snd (DeleteEntry env k r1))" for k
    by (cases "DeleteEntry env k r1") (auto dest: store_calls_same)
  then show ?thesis
    using store_calls_same(1) [OF g] same_but_store_trans
    by (auto simp: cleanupPreviousDigestState_def g split: sum.split option.split)
qed

text \<open>The state a result is judged in: after the bookkeeping of the latest digest.\<close>

definition after_latest ::
    "('w, 's) recon_env \<Rightarrow> string \<Rightarrow> reg_image_ref \<Rightarrow> ('w, 's) recon \<Rightarrow> string \<times> ('w, 's) recon" where
  "after_latest env scannerName resolved r =
     (let stateKey = state_key resolved scannerName;
          latestDigestKey = latest_digest_key resolved scannerName;
          r = cleanupPreviousDigestState env latestDigestKey stateKey r;
          now = r_now env r;
          r = snd (SetEntry env latestDigestKey
                \<lparr>e_Fingerprint = stateKey, e_LastScannedTime = now, e_LastPublishedTime = now,
                 e_Summary = Digest resolved\<rparr> r)
      in loadLastFingerprint env stateKey r)"

definition lookup_outcome :: "metric \<Rightarrow> bool" where
  "lookup_outcome m \<longleftrightarrow> m \<in> {StateLookupsTotal ''error'', StateLookupsTotal ''miss'', StateLookupsTotal ''hit''}"

lemma lookup_outcome_other:
  "lookup_outcome l \<Longrightarrow>
    l \<noteq> DedupeHitsTotal \<and> DedupeHitsTotal \<noteq> l \<and>
    l \<noteq> EventSkipsTotal x \<and> EventSkipsTotal x \<noteq> l \<and>
    l \<noteq> EventPublishErrorsTotal \<and> EventPublishErrorsTotal \<noteq> l \<and>
    l \<noteq> EventsPublishedTotal \<and> EventsPublishedTotal \<noteq> l \<and>
    l \<noteq> StateUpdatesTotal y \<and> StateUpdatesTotal y \<noteq> l \<and>
    l \<noteq> ScansInFlight \<and> ScansInFlight \<noteq> l \<and>
    l \<noteq> ScansTotal \<and> ScansTotal \<noteq> l \<and>
    l \<noteq> ScanErrorsTotal \<and> ScanErrorsTotal \<noteq> l \<and>
    l \<noteq> ScanQueueDepth \<and> ScanQueueDepth \<noteq> l \<and>
    l \<noteq> NamespaceScanQueueDepth \<and> NamespaceScanQueueDepth \<noteq> l \<and>
    l \<noteq> ScannerSkippedTotal u v \<and> ScannerSkippedTotal u v \<noteq> l \<and>
    l \<noteq> ScannerErrorClassTotal a b \<and> ScannerErrorClassTotal a b \<noteq> l"
  by (auto simp: lookup_outcome_def)

lemma loadLast_metrics:
  "\<exists>m. lookup_outcome m \<and> r_metrics (snd (loadLastFingerprint env k r)) = (r_metrics r)(m := r_metrics r m + 1)"
  "r_scan (snd (loadLastFingerprint env k r)) = r_scan r"
proof -
  obtain x r1 where g: "GetEntry env k r = (x, r1)" by (cases "GetEntry env k r") auto
  note s = same_but_storeD [OF store_calls_same(1) [OF g]]
  show "\<exists>m. lookup_outcome m \<and> r_metrics (snd (loadLastFingerprint env k r)) = (r_metrics r)(m := r_metrics r m + 1)"
    using s by (auto simp: loadLastFingerprint_def g lookup_outcome_def split: sum.split option.split)
  show "r_scan (snd (loadLastFingerprint env k r)) = r_scan r"
    using s by (auto simp: loadLastFingerprint_def g split: sum.split option.split)
qed

lemma after_latest_metrics:
  "\<exists>m. lookup_outcome m \<and> r_metrics (snd (after_latest env n resolved r)) = (r_metrics r)(m := r_metrics r m + 1)"
  "r_scan (snd (after_latest env n resolved r)) = r_scan r"
proof -
  let ?r = "cleanupPreviousDigestState env (latest_digest_key resolved n) (state_key resolved n) r"
  let ?e = "\<lparr>e_Fingerprint = state_key resolved n, e_LastScannedTime = r_now env ?r,
    e_LastPublishedTime = r_now env ?r, e_Summary = Digest resolved\<rparr>"
  obtain err r1 where s: "SetEntry env (latest_digest_key resolved n) ?e ?r = (err, r1)"
    by (cases "SetEntry env (latest_digest_key resolved n) ?e ?r") auto
  have "same_but_store r r1" using cleanup_same store_calls_same(2) [OF s] same_but_store_trans by blast
  then have "r_metrics r1 = r_metrics r" "r_scan r1 = r_scan r" by (auto dest: same_but_storeD)
  moreover have "after_latest env n resolved r = loadLastFingerprint env (state_key resolved n) r1"
    by (simp add: after_latest_def Let_def s)
  ultimately show
    "\<exists>m. lookup_outcome m \<and> r_metrics (snd (after_latest env n resolved r)) = (r_metrics r)(m := r_metrics r m + 1)"
    "r_scan (snd (after_latest env n resolved r)) = r_scan r"
    using loadLast_metrics [of env "state_key resolved n" r1] by simp_all
qed

lemma after_latest_now: "r_now env (snd (after_latest env n resolved r)) = r_now env r"
  by (simp add: r_now_def after_latest_metrics(2))

text \<open>The publication, on the state the bookkeeping leaves.\<close>

definition publish_result ::
    "('w, 's) recon_env \<Rightarrow> string \<Rightarrow> string \<Rightarrow> time \<Rightarrow> scan_result \<Rightarrow> workload_context \<Rightarrow> event_options \<Rightarrow>
     ('w, 's) recon \<Rightarrow> ('w, 's) recon" where
  "publish_result env scannerName stateKey now scanResult workloadCtx eventOpts r =
     (let (komodor, r) = publish_to_komodor env scanResult workloadCtx eventOpts r;
          (events, r) = publish_to_events env scannerName scanResult workloadCtx r
      in if komodor \<or> events then record_publication env stateKey now scanResult r else r)"

text \<open>A result is never held back for its fingerprint: the stored one does not matter.\<close>

lemma handle_eq:
  "handleScanResultStateAndPublish env n resolved res wctx opts r =
    (let r1 = snd (after_latest env n resolved r) in
     if \<not> ShouldPublish res opts then Inc (EventSkipsTotal ''severity_threshold'') r1
     else publish_result env n (state_key resolved n) (r_now env r) res wctx opts r1)"
proof -
  have "EvaluatePublish res fp False" for fp by (simp add: EvaluatePublish_def Let_def)
  moreover have "r_now env (cleanupPreviousDigestState env lk sk r) = r_now env r" for lk sk
    by (rule same_but_store_now [OF cleanup_same])
  ultimately show ?thesis
    by (simp add: handleScanResultStateAndPublish_def after_latest_def publish_result_def Let_def
        split: prod.split)
qed

section \<open>The outcome of a result\<close>

definition count_if :: "bool \<Rightarrow> int" where
  "count_if b = (if b then 1 else 0)"

lemma publish_to_komodor_metrics:
  assumes "publish_to_komodor env res wctx opts r = (ok, r')"
  shows "r_metrics r' = (r_metrics r)(EventPublishErrorsTotal := r_metrics r EventPublishErrorsTotal
      + count_if (PublishToKomodor (Mode (cfg_Publishing (re_cfg env)))) - count_if ok) \<and>
    (ok \<longrightarrow> PublishToKomodor (Mode (cfg_Publishing (re_cfg env)))) \<and> r_store r' = r_store r"
  using assms
  by (auto simp: publish_to_komodor_def count_if_def split: if_splits option.splits prod.splits)

lemma publish_to_events_metrics:
  assumes "publish_to_events env n res wctx r = (ok, r')"
  shows "r_metrics r' = (r_metrics r)(EventPublishErrorsTotal := r_metrics r EventPublishErrorsTotal
      + count_if (PublishToEvents (Mode (cfg_Publishing (re_cfg env)))) - count_if ok) \<and>
    (ok \<longrightarrow> PublishToEvents (Mode (cfg_Publishing (re_cfg env)))) \<and> r_store r' = r_store r"
  using assms
  by (auto simp: publish_to_events_def publishKubernetesEvent_def count_if_def
      split: if_splits option.splits prod.splits)

lemma record_publication_metrics:
  "\<exists>m \<in> {StateUpdatesTotal ''success'', StateUpdatesTotal ''error''}.
    r_metrics (record_publication env k now res r) =
      (r_metrics r)(EventsPublishedTotal := r_metrics r EventsPublishedTotal + 1, m := r_metrics r m + 1)"
proof -
  let ?e = "\<lparr>e_Fingerprint = Fingerprint res, e_LastScannedTime = now, e_LastPublishedTime = now,
            e_Summary = show_int (Total (sr_Summary res)) @ '' findings''\<rparr>"
  obtain err r1 where s: "SetEntry env k ?e (Inc EventsPublishedTotal r) = (err, r1)"
    by (cases "SetEntry env k ?e (Inc EventsPublishedTotal r)") auto
  then have "r_metrics r1 = (r_metrics r)(EventsPublishedTotal := r_metrics r EventsPublishedTotal + 1)"
    by (auto dest!: store_calls_same(2) same_but_storeD)
  then show ?thesis
    by (cases err) (auto simp: record_publication_def Let_def s)
qed

definition destinations :: "config \<Rightarrow> int" where
  "destinations cfg = count_if (PublishToKomodor (Mode (cfg_Publishing cfg)))
     + count_if (PublishToEvents (Mode (cfg_Publishing cfg)))"

text \<open>What a run adds to a metric.\<close>

definition added :: "metric \<Rightarrow> ('w, 's) recon \<Rightarrow> ('w, 's) recon \<Rightarrow> int" where
  "added m r r' = r_metrics r' m - r_metrics r m"

lemma publish_metricsI:
  assumes "m \<in> {StateUpdatesTotal ''success'', StateUpdatesTotal ''error''}"
    "0 \<le> f" "f \<le> d" "p = count_if (f < d)"
    "M' = M(EventPublishErrorsTotal := M EventPublishErrorsTotal + f,
        EventsPublishedTotal := M EventsPublishedTotal + p, m := M m + p)"
  shows "\<exists>failed published m. m \<in> {StateUpdatesTotal ''success'', StateUpdatesTotal ''error''} \<and>
    0 \<le> failed \<and> failed \<le> d \<and> published = count_if (failed < d) \<and>
    M' = M(EventPublishErrorsTotal := M EventPublishErrorsTotal + failed,
        EventsPublishedTotal := M EventsPublishedTotal + published, m := M m + published)"
  using assms by blast

lemma publish_result_metrics:
  "\<exists>failed published m. m \<in> {StateUpdatesTotal ''success'', StateUpdatesTotal ''error''} \<and>
    0 \<le> failed \<and> failed \<le> destinations (re_cfg env) \<and> published = count_if (failed < destinations (re_cfg env)) \<and>
    r_metrics (publish_result env n k now res wctx opts r) =
      (r_metrics r)(EventPublishErrorsTotal := r_metrics r EventPublishErrorsTotal + failed,
        EventsPublishedTotal := r_metrics r EventsPublishedTotal + published, m := r_metrics r m + published)"
proof -
  define r' where "r' = publish_result env n k now res wctx opts r"
  obtain ok1 r1 where k: "publish_to_komodor env res wctx opts r = (ok1, r1)"
    by (cases "publish_to_komodor env res wctx opts r") auto
  obtain ok2 r2 where e: "publish_to_events env n res wctx r1 = (ok2, r2)"
    by (cases "publish_to_events env n res wctx r1") auto
  let ?failed = "destinations (re_cfg env) - count_if ok1 - count_if ok2"
  note km = publish_to_komodor_metrics [OF k] and em = publish_to_events_metrics [OF e]
  have m2: "r_metrics r2 = (r_metrics r)(EventPublishErrorsTotal := r_metrics r EventPublishErrorsTotal + ?failed)"
    using km em by (simp add: destinations_def algebra_simps)
  have b: "0 \<le> ?failed" "?failed \<le> destinations (re_cfg env)"
      "?failed < destinations (re_cfg env) \<longleftrightarrow> ok1 \<or> ok2"
    using km em by (auto simp: destinations_def count_if_def)
  have r': "r' = (if ok1 \<or> ok2 then record_publication env k now res r2 else r2)"
    by (simp add: r'_def publish_result_def k e)
  show ?thesis
  proof (cases "ok1 \<or> ok2")
    case True
    obtain m where "m \<in> {StateUpdatesTotal ''success'', StateUpdatesTotal ''error''}"
        "r_metrics r' = (r_metrics r2)(EventsPublishedTotal := r_metrics r2 EventsPublishedTotal + 1,
          m := r_metrics r2 m + 1)"
      using record_publication_metrics [of env k now res r2] True r' by auto
    moreover from this(1) have "m \<noteq> EventPublishErrorsTotal" "m \<noteq> EventsPublishedTotal" by auto
    ultimately show ?thesis
      using b m2 True unfolding r'_def [symmetric]
      by (intro publish_metricsI [where m = m and f = ?failed and p = 1]) (simp_all add: count_if_def)
  next
    case False
    with b m2 r' show ?thesis
      unfolding r'_def [symmetric]
      by (intro publish_metricsI [where m = "StateUpdatesTotal ''error''" and f = ?failed and p = 0])
        (simp_all add: count_if_def fun_eq_iff)
  qed
qed


section \<open>The accounting of a scan\<close>

text \<open>The metrics a result can change, and those it cannot.\<close>

lemma handle_metrics_frame:
  assumes "m \<in> {ScansTotal, ScanErrorsTotal, ScansInFlight, ScanQueueDepth, NamespaceScanQueueDepth, DedupeHitsTotal,
        ImagesObservedTotal, ImagesResolvedTotal, ImageResolutionErrorsTotal}
      \<or> (\<exists>a b. m = ScannerSkippedTotal a b \<or> m = ReconcileRunsTotal a \<or> m = WorkloadsReconciledTotal a)"
  shows "r_metrics (handleScanResultStateAndPublish env n resolved res wctx opts r) m = r_metrics r m"
proof -
  let ?r1 = "snd (after_latest env n resolved r)"
  obtain l where l: "lookup_outcome l" "r_metrics ?r1 = (r_metrics r)(l := r_metrics r l + 1)"
    using after_latest_metrics(1) by blast
  have "r_metrics ?r1 m = r_metrics r m"
    using assms l by (auto simp: lookup_outcome_def)
  moreover have "r_metrics (publish_result env n k now res wctx opts r1) m = r_metrics r1 m" for k now r1
    using publish_result_metrics [of env n k now res wctx opts r1] assms
    by (elim exE conjE disjE insertE emptyE) simp_all
  ultimately show ?thesis using assms by (auto simp: handle_eq Let_def)
qed

lemma r_backpressure_simps [simp]:
  "r_backpressure (Inc m r) = r_backpressure r" "r_backpressure (Dec m r) = r_backpressure r"
  "r_backpressure (with_world w r) = r_backpressure r"
  by (simp_all add: Inc_def Dec_def metric_Add_def with_world_def)

lemma loadLast_backpressure: "r_backpressure (snd (loadLastFingerprint env k r)) = r_backpressure r"
proof -
  obtain x r1 where g: "GetEntry env k r = (x, r1)" by (cases "GetEntry env k r") auto
  then show ?thesis
    using same_but_storeD [OF store_calls_same(1) [OF g]]
    by (auto simp: loadLastFingerprint_def split: sum.split option.split)
qed

lemma SetEntry_backpressure: "r_backpressure (snd (SetEntry env k e r)) = r_backpressure r"
  by (cases "SetEntry env k e r") (auto dest!: store_calls_same(2) same_but_storeD)

lemma after_latest_backpressure: "r_backpressure (snd (after_latest env n resolved r)) = r_backpressure r"
  by (simp add: after_latest_def Let_def loadLast_backpressure SetEntry_backpressure
      same_but_storeD [OF cleanup_same])

lemma publish_result_backpressure:
  "r_backpressure (publish_result env n k now res wctx opts r) = r_backpressure r"
proof -
  have "r_backpressure (snd (publish_to_komodor env res wctx opts r1)) = r_backpressure r1"
    "r_backpressure (snd (publish_to_events env n res wctx r1)) = r_backpressure r1" for r1
    by (auto simp: publish_to_komodor_def publish_to_events_def publishKubernetesEvent_def
        split: option.split prod.split)
  moreover have "r_backpressure (record_publication env k now res r1) = r_backpressure r1" for r1
  proof -
    obtain e where e: "\<And>r2. record_publication env k now res r1 =
        (case SetEntry env k e (Inc EventsPublishedTotal r1) of
           (Some err, r) \<Rightarrow> Inc (StateUpdatesTotal ''error'') r | (None, r) \<Rightarrow> Inc (StateUpdatesTotal ''success'') r)"
      by (simp add: record_publication_def Let_def)
    show ?thesis
      by (cases "SetEntry env k e (Inc EventsPublishedTotal r1)")
        (auto simp: e dest!: store_calls_same(2) same_but_storeD split: option.split)
  qed
  ultimately show ?thesis
    by (auto simp: publish_result_def split: prod.split) (metis snd_conv)+
qed

lemma handle_backpressure:
  "r_backpressure (handleScanResultStateAndPublish env n resolved res wctx opts r) = r_backpressure r"
  by (simp add: handle_eq Let_def after_latest_backpressure publish_result_backpressure)

lemma totalScans_RecordResult [simp]: "totalScans (RecordResult a e) = i64 (totalScans a + 1)"
  by (simp add: RecordResult_def Let_def)

lemma scan_metrics:
  "let (err', r') = runScannerForImage env ns wl ei resolved img sc err r; d = (\<lambda>m. added m r r');
       ((_, _, cls, e), _) = executeScannerWithResilience (scanner_env env sc) (re_settings env) (sc_Name sc) img (r_scan r)
   in d ScansTotal = count_if (e = None) \<and> d ScanErrorsTotal = count_if (e \<noteq> None) \<and>
      d DedupeHitsTotal = 0 \<and> d ScansInFlight = -1 \<and>
      totalScans (r_backpressure r') = i64 (totalScans (r_backpressure r) + 1) \<and>
      d (ScannerSkippedTotal (sc_Name sc) ''circuit_open'') =
        count_if (e \<noteq> None \<and> cls = scannerErrorClassCircuitOpen) \<and>
      err' = (if err = None then e else err)"
proof -
  obtain res d cls e s where x: "executeScannerWithResilience (scanner_env env sc) (re_settings env) (sc_Name sc)
      img (r_scan r) = ((res, d, cls, e), s)"
    by (cases "executeScannerWithResilience (scanner_env env sc) (re_settings env) (sc_Name sc) img (r_scan r)") auto
  show ?thesis
  proof (cases e)
    case None
    then obtain result where "res = Some result" using execute_shape [OF x] by auto
    then show ?thesis using None
      by (simp add: runScannerForImage_def x Let_def added_def handle_metrics_frame handle_backpressure
          count_if_def)
  next
    case (Some f)
    then show ?thesis
      by (simp add: runScannerForImage_def x Let_def added_def count_if_def setError_def)
  qed
qed

lemma scan_metrics_frame:
  assumes "runScannerForImage env ns wl ei resolved img sc err r = (err', r')"
    and "m \<in> {ScanQueueDepth, NamespaceScanQueueDepth, ImagesObservedTotal, ImagesResolvedTotal, ImageResolutionErrorsTotal}
      \<or> (\<exists>a. m = ReconcileRunsTotal a \<or> m = WorkloadsReconciledTotal a)"
  shows "r_metrics r' m = r_metrics r m"
proof -
  have "r_metrics (r\<lparr>r_scan := s, r_backpressure := b\<rparr>) m = r_metrics r m"
    "r_metrics (r\<lparr>r_durations := d\<rparr>) m = r_metrics r m" for r :: "('a, 'b) recon" and s b d
    by simp_all
  then show ?thesis
    using assms by (auto simp: runScannerForImage_def Let_def handle_metrics_frame split: prod.splits option.splits if_splits)
qed

text \<open>A scan that ran is accounted for once. Whatever its outcome, it adds one to exactly
  one of the scans and the scan errors, leaves the dedupe counter alone, gives back its place
  among the scans in flight, tells the rate limiter of one result, and counts as skipped
  exactly when the breaker rejected it. It sets the error of the workload exactly when it
  failed and is the first to do so.\<close>

theorem scan_accounting:
  "let (err', r') = runScannerForImage env ns wl ei resolved img sc err r; d = (\<lambda>m. added m r r');
       ((_, _, cls, e), _) = executeScannerWithResilience (scanner_env env sc) (re_settings env) (sc_Name sc) img (r_scan r)
   in d ScansTotal = count_if (e = None) \<and> d ScanErrorsTotal = count_if (e \<noteq> None) \<and>
      d DedupeHitsTotal = 0 \<and> d ScansInFlight = -1 \<and>
      totalScans (r_backpressure r') = i64 (totalScans (r_backpressure r) + 1) \<and>
      d (ScannerSkippedTotal (sc_Name sc) ''circuit_open'') =
        count_if (e \<noteq> None \<and> cls = scannerErrorClassCircuitOpen) \<and>
      err' = (if err = None then e else err)"
  by (rule scan_metrics)

section \<open>The state a result leaves\<close>

text \<open>
  On the map a backend shows, a result does the following: it unbinds the state of the
  digest the tag had before, binds the latest digest, and binds the fingerprint of the
  result if the result was published.
\<close>

definition latest_entry :: "reg_image_ref \<Rightarrow> string \<Rightarrow> time \<Rightarrow> entry" where
  "latest_entry resolved n t = \<lparr>e_Fingerprint = state_key resolved n, e_LastScannedTime = t,
     e_LastPublishedTime = t, e_Summary = Digest resolved\<rparr>"

definition published_entry :: "scan_result \<Rightarrow> time \<Rightarrow> entry" where
  "published_entry res t = \<lparr>e_Fingerprint = Fingerprint res, e_LastScannedTime = t, e_LastPublishedTime = t,
     e_Summary = show_int (Total (sr_Summary res)) @ '' findings''\<rparr>"

text \<open>The key that the bookkeeping of the latest digest drops.\<close>

definition stale_key :: "entry option \<Rightarrow> string \<Rightarrow> string option" where
  "stale_key latest sk = (case latest of
     None \<Rightarrow> None
   | Some e \<Rightarrow> if e_Fingerprint e = [] \<or> e_Fingerprint e = sk then None else Some (e_Fingerprint e))"

definition unbind :: "string option \<Rightarrow> (string \<Rightarrow> entry option) \<Rightarrow> string \<Rightarrow> entry option" where
  "unbind ko m = (case ko of None \<Rightarrow> m | Some k \<Rightarrow> m(k := None))"

lemma record_publication_now: "r_now env (record_publication env k now res r) = r_now env r"
proof -
  let ?e = "published_entry res now"
  obtain err r2 where s: "SetEntry env k ?e (Inc EventsPublishedTotal r) = (err, r2)"
    by (cases "SetEntry env k ?e (Inc EventsPublishedTotal r)") auto
  then show ?thesis
    using same_but_store_now [OF store_calls_same(2) [OF s], of env]
    by (simp add: record_publication_def published_entry_def split: option.split)
qed

context state_backend
begin

lemma GetEntry_works:
  assumes "re_backend env = be" "works (r_now env r) (r_store r)" "GetEntry env k r = (x, r')"
  shows "x = Inr (view (r_now env r) (r_store r) k) \<and> works (r_now env r) (r_store r') \<and>
    (\<forall>t' \<ge> r_now env r. view t' (r_store r') = view t' (r_store r))"
  using get_law [OF assms(2), of k x "r_store r'"] assms(1,3)
  by (auto simp: GetEntry_def split: prod.splits)

lemma SetEntry_works:
  assumes "re_backend env = be" "works (r_now env r) (r_store r)" "keeps (r_now env r) e" "SetEntry env k e r = (x, r')"
  shows "x = None \<and> works (r_now env r) (r_store r') \<and>
    (\<forall>t' \<ge> r_now env r. view t' (r_store r') = (view t' (r_store r))(k := shows_entry (r_now env r) t' e))"
  using set_law [OF assms(2,3), of k x "r_store r'"] assms(1,4)
  by (auto simp: SetEntry_def split: prod.splits)

lemma cleanup_works:
  assumes "re_backend env = be" "works (r_now env r) (r_store r)"
  shows "works (r_now env r) (r_store (cleanupPreviousDigestState env lk sk r)) \<and>
    (\<forall>t' \<ge> r_now env r. view t' (r_store (cleanupPreviousDigestState env lk sk r)) =
      unbind (stale_key (view (r_now env r) (r_store r) lk) sk) (view t' (r_store r)))"
proof -
  obtain x r1 where g: "GetEntry env lk r = (x, r1)" by (cases "GetEntry env lk r") auto
  note gw = GetEntry_works [OF assms g]
  have n: "r_now env r1 = r_now env r" by (rule same_but_store_now [OF store_calls_same(1) [OF g]])
  show ?thesis
  proof (cases "stale_key (view (r_now env r) (r_store r) lk) sk")
    case None
    then have "cleanupPreviousDigestState env lk sk r = r1"
      using gw by (auto simp: cleanupPreviousDigestState_def g stale_key_def split: option.splits if_splits)
    then show ?thesis using gw None by (simp add: unbind_def)
  next
    case (Some k)
    obtain err r2 where d: "DeleteEntry env k r1 = (err, r2)" by (cases "DeleteEntry env k r1") auto
    have "cleanupPreviousDigestState env lk sk r = r2"
      using gw Some d by (auto simp: cleanupPreviousDigestState_def g stale_key_def split: option.splits if_splits)
    moreover have "works (r_now env r) (r_store r2) \<and>
        (\<forall>t' \<ge> r_now env r. view t' (r_store r2) = (view t' (r_store r1))(k := None))"
      using delete_law [of "r_now env r1" "r_store r1" k err "r_store r2"] gw assms(1) d n
      by (auto simp: DeleteEntry_def split: prod.splits)
    ultimately show ?thesis using gw Some by (simp add: unbind_def)
  qed
qed

lemma after_latest_works:
  assumes "re_backend env = be" "works (r_now env r) (r_store r)" "keeps (r_now env r) (latest_entry resolved n (r_now env r))"
  shows "works (r_now env r) (r_store (snd (after_latest env n resolved r))) \<and>
    (\<forall>t' \<ge> r_now env r. view t' (r_store (snd (after_latest env n resolved r))) =
      (unbind (stale_key (view (r_now env r) (r_store r) (latest_digest_key resolved n)) (state_key resolved n))
        (view t' (r_store r)))
      (latest_digest_key resolved n := shows_entry (r_now env r) t' (latest_entry resolved n (r_now env r))))"
proof -
  let ?lk = "latest_digest_key resolved n" and ?sk = "state_key resolved n"
  let ?r1 = "cleanupPreviousDigestState env ?lk ?sk r" and ?t = "r_now env r"
  have n1: "r_now env ?r1 = ?t" by (rule same_but_store_now [OF cleanup_same])
  note c = cleanup_works [OF assms(1,2), of ?lk ?sk]
  obtain err r2 where s: "SetEntry env ?lk (latest_entry resolved n ?t) ?r1 = (err, r2)"
    by (cases "SetEntry env ?lk (latest_entry resolved n ?t) ?r1") auto
  have sw: "works (r_now env r) (r_store r2) \<and> (\<forall>t' \<ge> ?t. view t' (r_store r2) =
      (view t' (r_store ?r1))(?lk := shows_entry ?t t' (latest_entry resolved n ?t)))"
    using SetEntry_works [OF assms(1) _ _ s] c assms(3) n1 by simp
  have n2: "r_now env r2 = ?t" using same_but_store_now [OF store_calls_same(2) [OF s]] n1 by simp
  obtain x r3 where g: "GetEntry env ?sk r2 = (x, r3)" by (cases "GetEntry env ?sk r2") auto
  have "after_latest env n resolved r = loadLastFingerprint env ?sk r2"
    using s by (simp add: after_latest_def Let_def n1 latest_entry_def)
  moreover have "r_store (snd (loadLastFingerprint env ?sk r2)) = r_store r3"
    by (simp add: loadLastFingerprint_def g split: sum.split option.split)
  ultimately show ?thesis using GetEntry_works [OF assms(1) _ g] sw c n2 by simp
qed

lemma record_publication_works:
  assumes "re_backend env = be" "works (r_now env r) (r_store r)" "keeps (r_now env r) (published_entry res now)"
  shows "works (r_now env r) (r_store (record_publication env k now res r)) \<and>
    r_now env (record_publication env k now res r) = r_now env r \<and>
    view (r_now env r) (r_store (record_publication env k now res r)) = (view (r_now env r) (r_store r))
      (k := shows_entry (r_now env r) (r_now env r) (published_entry res now))"
proof -
  let ?r = "Inc EventsPublishedTotal r"
  obtain err r2 where s: "SetEntry env k (published_entry res now) ?r = (err, r2)"
    by (cases "SetEntry env k (published_entry res now) ?r") auto
  have sw: "err = None" "works (r_now env r) (r_store r2)" "view (r_now env r) (r_store r2) = (view (r_now env r) (r_store r))
      (k := shows_entry (r_now env r) (r_now env r) (published_entry res now))"
    using SetEntry_works [OF assms(1) _ _ s] assms(2,3) by simp_all
  moreover have "record_publication env k now res r = Inc (StateUpdatesTotal ''success'') r2"
    using s sw(1) by (simp add: record_publication_def published_entry_def)
  moreover have "r_now env r2 = r_now env r" using same_but_store_now [OF store_calls_same(2) [OF s]] by simp
  ultimately show ?thesis by simp
qed

lemma handle_works:
  fixes env :: "('w, 's) recon_env"
  assumes "re_backend env = be" "works (r_now env r) (r_store r)"
    and "r' = handleScanResultStateAndPublish env n resolved res wctx opts r"
    and "t = r_now env r" "t' = r_now env r'" "t \<le> t'"
    and "keeps t (latest_entry resolved n t)" "keeps t' (published_entry res t)"
  shows "works t' (r_store r') \<and> view t' (r_store r') =
    (let m = (unbind (stale_key (view t (r_store r) (latest_digest_key resolved n)) (state_key resolved n))
          (view t' (r_store r)))
        (latest_digest_key resolved n := shows_entry t t' (latest_entry resolved n t))
     in if 0 < added EventsPublishedTotal r r'
        then m(state_key resolved n := shows_entry t' t' (published_entry res t)) else m)"
proof -
  let ?r1 = "snd (after_latest env n resolved r)"
  have w: "works t' (r_store ?r1)"
    using works_later [OF _ assms(6)] after_latest_works [OF assms(1,2), of resolved n] assms(4,7) by simp
  have a: "works t (r_store ?r1)" "\<And>t'. t \<le> t' \<Longrightarrow> view t' (r_store ?r1) =
      (unbind (stale_key (view t (r_store r) (latest_digest_key resolved n)) (state_key resolved n))
        (view t' (r_store r)))(latest_digest_key resolved n := shows_entry t t' (latest_entry resolved n t))"
    using after_latest_works [OF assms(1,2), of resolved n] assms(4,7) by simp_all
  obtain l where l: "lookup_outcome l" "r_metrics ?r1 = (r_metrics r)(l := r_metrics r l + 1)"
    using after_latest_metrics(1) by blast
  note ln = lookup_outcome_other [OF l(1)]
  show ?thesis
  proof (cases "ShouldPublish res opts")
    case False
    then have "r' = Inc (EventSkipsTotal ''severity_threshold'') ?r1" by (simp add: assms(3) handle_eq)
    then show ?thesis using a w assms(6) by (simp add: added_def l(2) ln)
  next
    case True
    obtain ok1 r2 where k: "publish_to_komodor env res wctx opts ?r1 = (ok1, r2)"
      by (cases "publish_to_komodor env res wctx opts ?r1") auto
    obtain ok2 r3 where e: "publish_to_events env n res wctx r2 = (ok2, r3)"
      by (cases "publish_to_events env n res wctx r2") auto
    note km = publish_to_komodor_metrics [OF k] and em = publish_to_events_metrics [OF e]
    have st: "r_store r3 = r_store ?r1" using km em by simp
    have mp: "r_metrics r3 EventsPublishedTotal = r_metrics r EventsPublishedTotal"
      using km em by (simp add: l(2) ln)
    have r': "r' = (if ok1 \<or> ok2 then record_publication env (state_key resolved n) t res r3 else r3)"
      using True by (simp add: assms(3,4) handle_eq publish_result_def k e)
    show ?thesis
    proof (cases "ok1 \<or> ok2")
      case True
      have now3: "t' = r_now env r3"
        using record_publication_now True r' assms(5) by simp
      have p: "0 < added EventsPublishedTotal r r'"
        using record_publication_metrics [of env "state_key resolved n" t res r3] True r' mp
        by (auto simp: added_def)
      show ?thesis
        using record_publication_works [OF assms(1), of r3 res t "state_key resolved n"] a w assms(6,8) True r' p now3 st
        by simp
    next
      case False
      then show ?thesis using a w assms(6) r' st mp by (simp add: added_def)
    qed
  qed
qed

end

end
