(* ===== verification/Komodor_Client.thy ===== *)
theory Komodor_Client
  imports Reconciler Go_Decode
begin

text \<open>
  The Komodor API client of \<open>internal/komodor/client.go\<close>: the requests it sends, the JSON of an
  event, how answers are judged, and the publisher that the reconciler calls. The transport
  (net/http and the server behind it, the joining and parsing of URLs, the text of a time) is a
  parameter; the bytes of the bodies are the model's.
\<close>

section \<open>Requests and answers\<close>

record http_request =
  rq_Method :: string
  rq_URL :: string
  rq_Header :: "(string \<times> string) list"
  rq_Body :: string

text \<open>An answer: its status, what reading the body gives, and the error that ends the reading.\<close>

record http_response =
  rp_StatusCode :: int
  rp_Body :: string
  rp_BodyErr :: "go_error option"

record 'w transport =
  tp_MarshalTime :: "time \<Rightarrow> string result"
  tp_JoinPath :: "string \<Rightarrow> string \<Rightarrow> string result"
  tp_NewRequest :: "string \<Rightarrow> string \<Rightarrow> go_error option"
  tp_Do :: "http_request \<Rightarrow> 'w \<Rightarrow> http_response result \<times> 'w"
  tp_json_err :: "string \<Rightarrow> go_error"

record client =
  kc_baseURL :: string
  kc_apiKey :: string
  kc_validateURL :: string
  kc_Timeout :: duration

definition defaultAPIKeyValidationURL :: string where
  "defaultAPIKeyValidationURL = ''https://api.komodor.com/api/v2/apikey/validate''"

definition NewClient :: "string \<Rightarrow> string \<Rightarrow> client" where
  "NewClient baseURL apiKey =
     \<lparr>kc_baseURL = baseURL, kc_apiKey = apiKey, kc_validateURL = defaultAPIKeyValidationURL, kc_Timeout = 30 * Second\<rparr>"

text \<open>\<open>Header.Set\<close> writes the canonical form of a key: a capital at the start and after a dash.\<close>

fun canonical_key :: "bool \<Rightarrow> string \<Rightarrow> string" where
  "canonical_key upper [] = []"
| "canonical_key upper (c # s) = (if upper then upper_char c else lower_char c) # canonical_key (c = CHR ''-'') s"

definition Header_Set :: "string \<Rightarrow> string \<Rightarrow> http_request \<Rightarrow> http_request" where
  "Header_Set k v req = req\<lparr>rq_Header :=
     (canonical_key True k, v) # filter (\<lambda>h. fst h \<noteq> canonical_key True k) (rq_Header req)\<rparr>"

definition setAuthHeaders :: "client \<Rightarrow> http_request \<Rightarrow> http_request" where
  "setAuthHeaders c req = Header_Set ''X-API-KEY'' (kc_apiKey c) req"

section \<open>The validation of the API key\<close>

fun decode_bool :: "bool \<Rightarrow> json \<Rightarrow> bool option" where
  "decode_bool old JNull = Some old"
| "decode_bool old (JBool b) = Some b"
| "decode_bool old _ = None"

definition validation_fields :: "apiKeyValidationResponse struct_field list" where
  "validation_fields =
     [(''valid'', \<lambda>v a. map_option (\<lambda>b. a\<lparr>Valid := b\<rparr>) (decode_bool (Valid a) v)),
      string_field ''Status'' Status (\<lambda>s a. a\<lparr>Status := s\<rparr>)]"

definition zero_validation :: apiKeyValidationResponse where
  "zero_validation = \<lparr>Valid = False, Status = []\<rparr>"

definition parseAPIKeyValidationResponse ::
    "(string \<Rightarrow> go_error) \<Rightarrow> http_response \<Rightarrow> (string \<times> apiKeyValidationResponse) result" where
  "parseAPIKeyValidationResponse json_err resp =
     (case rp_BodyErr resp of
        Some err \<Rightarrow> Inl (ErrWrap ''read validation response: '' err [])
      | None \<Rightarrow>
          let body = rp_Body resp in
          if body = [] then Inr (body, zero_validation)
          else case json_Unmarshal body of
              None \<Rightarrow> Inl (ErrWrap ''decode validation response: '' (json_err body) [])
            | Some v \<Rightarrow>
                (case decode_struct validation_fields v zero_validation of
                   None \<Rightarrow> Inl (ErrWrap ''decode validation response: '' (json_err body) [])
                 | Some a \<Rightarrow> Inr (body, a)))"

definition ValidateAPIKey :: "'w transport \<Rightarrow> client \<Rightarrow> 'w \<Rightarrow> go_error option \<times> 'w" where
  "ValidateAPIKey tp c w =
     (case tp_NewRequest tp ''GET'' (kc_validateURL c) of
        Some err \<Rightarrow> (Some (ErrWrap ''create validation request: '' err []), w)
      | None \<Rightarrow>
          let req = setAuthHeaders c \<lparr>rq_Method = ''GET'', rq_URL = kc_validateURL c, rq_Header = [], rq_Body = []\<rparr>
          in case tp_Do tp req w of
              (Inl err, w) \<Rightarrow> (Some (ErrWrap ''validate api key: '' err []), w)
            | (Inr resp, w) \<Rightarrow>
                (case parseAPIKeyValidationResponse (tp_json_err tp) resp of
                   Inl err \<Rightarrow> (Some err, w)
                 | Inr (body, validationResp) \<Rightarrow>
                     (evaluateAPIKeyValidation (rp_StatusCode resp) body validationResp, w)))"

section \<open>The event on the wire\<close>

text \<open>A nil slice is \<open>null\<close>; the top findings are nil where there are none. A time writes itself,
  and may refuse.\<close>

fun detail_json :: "(time \<Rightarrow> string result) \<Rightarrow> detail \<Rightarrow> json result" where
  "detail_json mt (DStr s) = Inr (JStr s)"
| "detail_json mt (DInt i) = Inr (JNum (show_int i))"
| "detail_json mt (DStrs ss) = Inr (if ss = [] then JNull else JArr (map JStr ss))"
| "detail_json mt (DTime t) =
     (case mt t of
        Inl err \<Rightarrow> Inl (ErrWrap ''json: error calling MarshalJSON for type time.Time: '' err [])
      | Inr s \<Rightarrow> Inr (JStr s))"

fun details_json :: "(time \<Rightarrow> string result) \<Rightarrow> (string \<times> detail) list \<Rightarrow> (string \<times> json) list result" where
  "details_json mt [] = Inr []"
| "details_json mt ((k, d) # ds) =
     (case detail_json mt d of
        Inl err \<Rightarrow> Inl err
      | Inr v \<Rightarrow> (case details_json mt ds of Inl err \<Rightarrow> Inl err | Inr vs \<Rightarrow> Inr ((k, v) # vs)))"

definition omitempty :: "string \<Rightarrow> string list \<Rightarrow> (string \<times> json) list" where
  "omitempty name ss = (if ss = [] then [] else [(name, JArr (map JStr ss))])"

definition Scope_json :: "scope \<Rightarrow> json" where
  "Scope_json s = JObj (omitempty ''clusters'' (Clusters s) @ omitempty ''namespaces'' (Namespaces s)
     @ omitempty ''servicesNames'' (ServicesNames s))"

text \<open>The fields in the order of the struct, the details, a map, in the order of their keys. The
  scope is a struct, which \<open>omitempty\<close> never omits.\<close>

definition Event_json :: "(time \<Rightarrow> string result) \<Rightarrow> event \<Rightarrow> json result" where
  "Event_json mt e =
     (case details_json mt (sort_key fst (ev_Details e)) of
        Inl err \<Rightarrow> Inl err
      | Inr ds \<Rightarrow> Inr (JObj
          ([(''eventType'', JStr (ev_EventType e)), (''summary'', JStr (ev_Summary e))]
           @ (if ev_Severity e = [] then [] else [(''severity'', JStr (ev_Severity e))])
           @ [(''scope'', Scope_json (ev_Scope e))]
           @ (if ds = [] then [] else [(''details'', JObj ds)]))))"

text \<open>The answer to a publication.\<close>

definition publish_answer :: "http_response result \<Rightarrow> go_error option" where
  "publish_answer answer =
     (case answer of
        Inl err \<Rightarrow> Some (ErrWrap ''publish event: '' err [])
      | Inr resp \<Rightarrow>
          if rp_StatusCode resp < 200 \<or> rp_StatusCode resp \<ge> 300
          then Some (ErrNew (''publish event: status '' @ show_int (rp_StatusCode resp) @ '': '' @ rp_Body resp))
          else None)"

definition event_request :: "client \<Rightarrow> string \<Rightarrow> string \<Rightarrow> http_request" where
  "event_request c eventsURL body =
     setAuthHeaders c (Header_Set ''Content-Type'' ''application/json''
       \<lparr>rq_Method = ''POST'', rq_URL = eventsURL, rq_Header = [], rq_Body = body\<rparr>)"

definition PublishEvent :: "'w transport \<Rightarrow> client \<Rightarrow> event option \<Rightarrow> 'w \<Rightarrow> go_error option \<times> 'w" where
  "PublishEvent tp c ev w =
     (case ev of None \<Rightarrow> (Some (ErrNew ''publish event: event is required''), w)
      | Some ev \<Rightarrow>
     (case Event_json (tp_MarshalTime tp) ev of Inl err \<Rightarrow> (Some (ErrWrap ''marshal event: '' err []), w)
      | Inr v \<Rightarrow>
     (case tp_JoinPath tp (kc_baseURL c) ''/mgmt/v1/events'' of Inl err \<Rightarrow> (Some (ErrWrap ''build events url: '' err []), w)
      | Inr eventsURL \<Rightarrow>
     (case tp_NewRequest tp ''POST'' eventsURL of Some err \<Rightarrow> (Some (ErrWrap ''create request: '' err []), w)
      | None \<Rightarrow>
     (case tp_Do tp (event_request c eventsURL (Marshal_json v)) w of
        (answer, w) \<Rightarrow> (publish_answer answer, w))))))"

section \<open>The publisher\<close>

record publisher =
  pb_client :: client

definition NewPublisher :: "client \<Rightarrow> publisher" where
  "NewPublisher c = \<lparr>pb_client = c\<rparr>"

definition Publish :: "'w transport \<Rightarrow> publisher \<Rightarrow> event \<Rightarrow> 'w \<Rightarrow> go_error option \<times> 'w" where
  "Publish tp p ev w = PublishEvent tp (pb_client p) (Some ev) w"

section \<open>Lemmas\<close>

lemma details_json_all:
  "details_json mt ds = Inr vs \<Longrightarrow>
     list_all2 (\<lambda>(k, d) (k', v). k' = k \<and> detail_json mt d = Inr v) ds vs"
  by (induction mt ds arbitrary: vs rule: details_json.induct) (auto split: sum.splits)

lemma details_json_keys: "details_json mt ds = Inr vs \<Longrightarrow> map fst vs = map fst ds"
  by (induction mt ds arbitrary: vs rule: details_json.induct) (auto split: sum.splits)

text \<open>The texts that the codec reads back: ASCII, with every key once.\<close>

fun ascii_detail :: "(time \<Rightarrow> string result) \<Rightarrow> detail \<Rightarrow> bool" where
  "ascii_detail mt (DStr s) = ascii s"
| "ascii_detail mt (DInt i) = True"
| "ascii_detail mt (DStrs ss) = list_all ascii ss"
| "ascii_detail mt (DTime t) = (case mt t of Inl _ \<Rightarrow> False | Inr s \<Rightarrow> ascii s)"

definition wf_event :: "(time \<Rightarrow> string result) \<Rightarrow> event \<Rightarrow> bool" where
  "wf_event mt e \<longleftrightarrow>
     list_all ascii ([ev_EventType e, ev_Summary e, ev_Severity e] @ Clusters (ev_Scope e)
       @ Namespaces (ev_Scope e) @ ServicesNames (ev_Scope e)) \<and>
     distinct (map fst (ev_Details e)) \<and>
     (\<forall>(k, d) \<in> set (ev_Details e). ascii k \<and> ascii_detail mt d)"

lemma wf_members_iff: "wf_members ms \<longleftrightarrow> (\<forall>(k, v) \<in> set ms. ascii k \<and> wf_json v)"
  by (induction ms) auto

lemma wf_elements_iff: "wf_elements vs \<longleftrightarrow> (\<forall>v \<in> set vs. wf_json v)"
  by (induction vs) auto

lemma members_depth_le: "(\<forall>(k, v) \<in> set ms. json_depth v \<le> n) \<Longrightarrow> members_depth ms \<le> n"
  by (induction ms) auto

lemma elements_depth_leaves: "elements_depth (map JStr ss) = 0"
  by (induction ss) auto

lemma detail_json_wf:
  assumes "ascii_detail mt d"
  obtains v where "detail_json mt d = Inr v" "wf_json v" "json_depth v \<le> 1"
proof (cases d)
  case (DStrs ss)
  then show ?thesis
    using assms that [of "if ss = [] then JNull else JArr (map JStr ss)"]
    by (auto simp: wf_elements_iff list_all_iff elements_depth_leaves)
next
  case (DTime t)
  then obtain s where "mt t = Inr s" "ascii s" using assms by (auto split: sum.splits)
  then show ?thesis using DTime that [of "JStr s"] by simp
qed (use assms that in auto)

lemma details_json_wf:
  assumes "\<forall>(k, d) \<in> set ds. ascii k \<and> ascii_detail mt d"
  shows "\<exists>vs. details_json mt ds = Inr vs \<and> (\<forall>(k, v) \<in> set vs. ascii k \<and> wf_json v \<and> json_depth v \<le> 1)"
  using assms
proof (induction ds)
  case (Cons p ds)
  obtain k d where p: "p = (k, d)" by (cases p) auto
  obtain v where "detail_json mt d = Inr v" "wf_json v" "json_depth v \<le> 1"
    using Cons.prems detail_json_wf [of mt d] p by auto
  then show ?case using Cons p by auto
qed simp

text \<open>A map reads the same from any list of its members.\<close>

lemma json_lookup_distinct:
  assumes "distinct (map fst ms)" "(k, v) \<in> set ms"
  shows "json_lookup ms k = Some v"
  using assms by (simp add: json_lookup_def rev_map [symmetric])

lemma list_all2_sorted_member:
  assumes "list_all2 P (sort_key f xs) ys" "x \<in> set xs"
  shows "\<exists>y \<in> set ys. P x y"
  using assms by (metis list_all2_conv_all_nth in_set_conv_nth set_sort)

lemma Event_json_wf:
  assumes "wf_event mt e"
  obtains ms where "Event_json mt e = Inr (JObj ms)" "wf_json (JObj ms)" "json_depth (JObj ms) \<le> max_nesting"
    "json_lookup ms ''eventType'' = Some (JStr (ev_EventType e))"
    "json_lookup ms ''summary'' = Some (JStr (ev_Summary e))"
    "json_lookup ms ''severity'' = (if ev_Severity e = [] then None else Some (JStr (ev_Severity e)))"
    "json_lookup ms ''scope'' = Some (Scope_json (ev_Scope e))"
    "\<And>k d. (k, d) \<in> set (ev_Details e) \<Longrightarrow> \<exists>ds v. json_lookup ms ''details'' = Some (JObj ds) \<and>
       detail_json mt d = Inr v \<and> json_lookup ds k = Some v"
proof -
  have d: "\<forall>(k, d) \<in> set (sort_key fst (ev_Details e)). ascii k \<and> ascii_detail mt d"
    using assms by (simp add: wf_event_def)
  from details_json_wf [OF this] obtain ds where ds: "details_json mt (sort_key fst (ev_Details e)) = Inr ds"
    and wf: "\<forall>(k, v) \<in> set ds. ascii k \<and> wf_json v \<and> json_depth v \<le> 1" by blast
  define ms where "ms = [(''eventType'', JStr (ev_EventType e)), (''summary'', JStr (ev_Summary e))]
     @ (if ev_Severity e = [] then [] else [(''severity'', JStr (ev_Severity e))])
     @ [(''scope'', Scope_json (ev_Scope e))] @ (if ds = [] then [] else [(''details'', JObj ds)])"
  have dist: "distinct (map fst ds)"
    using details_json_keys [OF ds] assms by (simp add: wf_event_def distinct_map inj_on_def)
  have scope: "wf_json (Scope_json (ev_Scope e))" "json_depth (Scope_json (ev_Scope e)) \<le> 2"
    using assms by (auto simp: wf_event_def Scope_json_def omitempty_def wf_members_iff wf_elements_iff list_all_iff
        elements_depth_leaves byte_def)
  have obj: "wf_json (JObj ds)" "json_depth (JObj ds) \<le> 2"
    using wf by (fastforce simp: wf_members_iff intro!: members_depth_le)+
  have e: "Event_json mt e = Inr (JObj ms)" by (simp add: Event_json_def ds ms_def)
  have w: "wf_json (JObj ms)"
    using assms scope obj by (auto simp: ms_def wf_event_def wf_members_iff byte_def)
  have n: "json_depth (JObj ms) \<le> max_nesting"
    using scope obj by (auto simp: ms_def max_nesting_def)
  have m: "\<exists>ds v. json_lookup ms ''details'' = Some (JObj ds) \<and> detail_json mt d = Inr v \<and> json_lookup ds k = Some v"
    if m: "(k, d) \<in> set (ev_Details e)" for k d
  proof -
    from list_all2_sorted_member [OF details_json_all [OF ds] m]
    obtain v where v: "(k, v) \<in> set ds" "detail_json mt d = Inr v" by auto
    then show ?thesis using json_lookup_distinct [OF dist v(1)] by (auto simp: ms_def json_lookup_def)
  qed
  show thesis by (rule that [OF e w n _ _ _ _ m]) (simp_all add: ms_def json_lookup_def)
qed

lemma wf_event_of_result:
  assumes "list_all ascii [wc_ClusterName wctx, wc_Namespace wctx, wc_Kind wctx, wc_Name wctx, wc_Container wctx,
      sr_Scanner res, img_Resolved (sr_Image res), img_Digest (sr_Image res), sr_ReportURL res, MinimumSeverity opts]"
    and "\<forall>f \<in> set (sr_Findings res). ascii (f_CVE f)" and "mt (sr_ScannedAt res) = Inr stamp" "ascii stamp"
  shows "wf_event mt (EventFromScanResult res wctx opts)"
proof -
  have t: "list_all ascii (topFindingsList (sr_Findings res) n)" for n
    using assms(2) by (auto simp: topFindingsList_eq take_cves_def list_all_iff dest!: in_set_takeD)
  have m: "ascii (mapSeverityToEvent (sr_Summary res))" by (simp add: byte_def mapSeverityToEvent_def)
  show ?thesis
    using assms t m
    by (simp add: wf_event_def EventFromScanResult_def Let_def countRiskContext_eq byte_def)
qed

definition accepted :: "http_response result \<Rightarrow> bool" where
  "accepted answer \<longleftrightarrow> (case answer of Inl _ \<Rightarrow> False | Inr resp \<Rightarrow> 200 \<le> rp_StatusCode resp \<and> rp_StatusCode resp < 300)"

lemma publish_answer_None: "publish_answer answer = None \<longleftrightarrow> accepted answer"
  by (auto simp: publish_answer_def accepted_def split: sum.splits)

section \<open>Properties\<close>

text \<open>C14: The publication of a result is one POST to the events endpoint under the base URL, with the API
  key in its header, and the answer decides: no error exactly for a success status. The body reads back
  as the event: type, summary, severity and scope, and every detail under its key.\<close>

theorem published_event_body:
  assumes "list_all ascii [wc_ClusterName wctx, wc_Namespace wctx, wc_Kind wctx, wc_Name wctx, wc_Container wctx,
      sr_Scanner res, img_Resolved (sr_Image res), img_Digest (sr_Image res), sr_ReportURL res, MinimumSeverity opts]"
    and "\<forall>f \<in> set (sr_Findings res). ascii (f_CVE f)"
    and "tp_MarshalTime tp (sr_ScannedAt res) = Inr stamp" "ascii stamp"
    and "tp_JoinPath tp (kc_baseURL c) ''/mgmt/v1/events'' = Inr url" "tp_NewRequest tp ''POST'' url = None"
    and "ev = EventFromScanResult res wctx opts"
  shows "\<exists>body ms answer w'.
    tp_Do tp \<lparr>rq_Method = ''POST'', rq_URL = url,
      rq_Header = [(''X-Api-Key'', kc_apiKey c), (''Content-Type'', ''application/json'')], rq_Body = body\<rparr> w = (answer, w') \<and>
    PublishEvent tp c (Some ev) w = (publish_answer answer, w') \<and>
    (publish_answer answer = None \<longleftrightarrow> accepted answer) \<and>
    json_Unmarshal body = Some (JObj ms) \<and>
    json_lookup ms ''eventType'' = Some (JStr ''vulnerability-scan'') \<and>
    json_lookup ms ''summary'' = Some (JStr (ev_Summary ev)) \<and>
    json_lookup ms ''severity'' = Some (JStr (mapSeverityToEvent (sr_Summary res))) \<and>
    json_lookup ms ''scope'' = Some (JObj [(''clusters'', JArr [JStr (wc_ClusterName wctx)]),
      (''namespaces'', JArr [JStr (wc_Namespace wctx)]), (''servicesNames'', JArr [JStr (wc_Name wctx)])]) \<and>
    (\<forall>(k, d) \<in> set (ev_Details ev). \<exists>ds v. json_lookup ms ''details'' = Some (JObj ds) \<and>
      detail_json (tp_MarshalTime tp) d = Inr v \<and> json_lookup ds k = Some v)"
proof -
  have sev: "mapSeverityToEvent (sr_Summary res) \<noteq> []" by (simp add: mapSeverityToEvent_def)
  have fields: "ev_EventType ev = ''vulnerability-scan''" "ev_Severity ev = mapSeverityToEvent (sr_Summary res)"
    "ev_Scope ev = \<lparr>Clusters = [wc_ClusterName wctx], Namespaces = [wc_Namespace wctx], ServicesNames = [wc_Name wctx]\<rparr>"
    by (simp_all add: assms(7) EventFromScanResult_def Let_def split: prod.splits)
  have "wf_event (tp_MarshalTime tp) ev"
    unfolding assms(7) by (rule wf_event_of_result [where mt = "tp_MarshalTime tp", OF assms(1-4)])
  then obtain ms where ms: "Event_json (tp_MarshalTime tp) ev = Inr (JObj ms)"
    and parsed: "json_Unmarshal (Marshal_json (JObj ms)) = Some (JObj ms)"
    and look: "json_lookup ms ''eventType'' = Some (JStr (ev_EventType ev))"
    "json_lookup ms ''summary'' = Some (JStr (ev_Summary ev))"
    "json_lookup ms ''severity'' = (if ev_Severity ev = [] then None else Some (JStr (ev_Severity ev)))"
    "json_lookup ms ''scope'' = Some (Scope_json (ev_Scope ev))"
    and details: "\<And>k d. (k, d) \<in> set (ev_Details ev) \<Longrightarrow> \<exists>ds v. json_lookup ms ''details'' = Some (JObj ds) \<and>
       detail_json (tp_MarshalTime tp) d = Inr v \<and> json_lookup ds k = Some v"
    by (elim Event_json_wf) (blast dest: written_back)
  obtain answer w' where a: "tp_Do tp (event_request c url (Marshal_json (JObj ms))) w = (answer, w')"
    by (cases "tp_Do tp (event_request c url (Marshal_json (JObj ms))) w") auto
  have req: "event_request c url (Marshal_json (JObj ms)) = \<lparr>rq_Method = ''POST'', rq_URL = url,
      rq_Header = [(''X-Api-Key'', kc_apiKey c), (''Content-Type'', ''application/json'')],
      rq_Body = Marshal_json (JObj ms)\<rparr>"
    by (simp add: event_request_def setAuthHeaders_def Header_Set_def upper_char_def lower_char_def)
  have pub: "PublishEvent tp c (Some ev) w = (publish_answer answer, w')"
    using a by (simp add: PublishEvent_def ms assms(5,6))
  show ?thesis
    by (intro exI [of _ "Marshal_json (JObj ms)"] exI [of _ ms] exI [of _ answer] exI [of _ w'])
      (use a [unfolded req] pub parsed look sev details in \<open>simp add: publish_answer_None fields Scope_json_def omitempty_def split_beta\<close>)
qed

text \<open>A server that validates every key and takes every event; the world is the list of its requests.\<close>

definition ex_stamp :: string where
  "ex_stamp = ''2026-01-02T03:04:05Z''"

definition ex_answer :: "http_request \<Rightarrow> http_response" where
  "ex_answer req = \<lparr>rp_StatusCode = (if rq_Method req = ''GET'' then 200 else 202),
     rp_Body = CHR ''{'' # CHR 0x22 # ''valid'' @ CHR 0x22 # '': true}'', rp_BodyErr = None\<rparr>"

definition ex_transport :: "http_request list transport" where
  "ex_transport = \<lparr>tp_MarshalTime = (\<lambda>t. Inr ex_stamp), tp_JoinPath = (\<lambda>base p. Inr (base @ p)),
     tp_NewRequest = (\<lambda>_ _. None), tp_Do = (\<lambda>req w. (Inr (ex_answer req), w @ [req])),
     tp_json_err = (\<lambda>_. ErrNew ''json'')\<rparr>"

lemma ex_transport_sel:
  "tp_MarshalTime ex_transport t = Inr ex_stamp" "tp_JoinPath ex_transport base q = Inr (base @ q)"
  "tp_NewRequest ex_transport m url = None" "tp_Do ex_transport req w = (Inr (ex_answer req), w @ [req])"
  by (simp_all add: ex_transport_def)

lemma ex_stamp_ascii: "ascii ex_stamp"
  by (simp add: ex_stamp_def byte_def)

lemma ex_answer_accepted: "accepted (Inr (ex_answer req))"
  by (simp add: accepted_def ex_answer_def)

definition ex_client :: client where
  "ex_client = NewClient ''https://k'' ''key''"

definition ex_posted_result :: scan_result where
  "ex_posted_result = \<lparr>sr_Scanner = ''trivy'', sr_Image = zero_image, sr_ScannedAt = 0,
     sr_Summary = zero_summary\<lparr>Critical := 1\<rparr>, sr_Findings = [ex_f ''CVE-1'' SeverityCritical True True],
     sr_ReportURL = [], sr_SBOMURL = []\<rparr>"

definition ex_posted_workload :: workload_context where
  "ex_posted_workload = \<lparr>wc_ClusterName = ''prod'', wc_Namespace = ''shop'', wc_Kind = ''Deployment'', wc_Name = ''web'',
     wc_UID = ''u1'', wc_APIVersion = ''apps/v1'', wc_Container = ''app''\<rparr>"

definition ex_posted_options :: event_options where
  "ex_posted_options = \<lparr>MinimumSeverity = ''high'', IncludeTopFindings = 5, PublishCleanScans = False\<rparr>"

lemmas ex_posted_defs = ex_posted_result_def ex_posted_workload_def ex_posted_options_def

lemma ex_posted_ascii:
  "list_all ascii [wc_ClusterName ex_posted_workload, wc_Namespace ex_posted_workload, wc_Kind ex_posted_workload,
      wc_Name ex_posted_workload, wc_Container ex_posted_workload, sr_Scanner ex_posted_result,
      img_Resolved (sr_Image ex_posted_result), img_Digest (sr_Image ex_posted_result), sr_ReportURL ex_posted_result,
      MinimumSeverity ex_posted_options]"
  "\<forall>f \<in> set (sr_Findings ex_posted_result). ascii (f_CVE f)"
  by (simp_all add: ex_posted_defs zero_image_def ex_f_def byte_def)

theorem published_event_body_witness:
  "\<exists>body ms. PublishEvent ex_transport ex_client
      (Some (EventFromScanResult ex_posted_result ex_posted_workload ex_posted_options)) [] =
    (None, [\<lparr>rq_Method = ''POST'', rq_URL = ''https://k/mgmt/v1/events'',
       rq_Header = [(''X-Api-Key'', ''key''), (''Content-Type'', ''application/json'')], rq_Body = body\<rparr>]) \<and>
    json_Unmarshal body = Some (JObj ms) \<and> json_lookup ms ''severity'' = Some (JStr ''error'')"
proof -
  have c: "kc_baseURL ex_client @ ''/mgmt/v1/events'' = ''https://k/mgmt/v1/events''" "kc_apiKey ex_client = ''key''"
    "mapSeverityToEvent (sr_Summary ex_posted_result) = ''error''"
    by (simp_all add: ex_client_def NewClient_def ex_posted_result_def mapSeverityToEvent_def)
  from published_event_body [where w = "[]" and c = ex_client,
      OF ex_posted_ascii ex_transport_sel(1) ex_stamp_ascii ex_transport_sel(2,3) refl]
  obtain body ms answer w' where f: "tp_Do ex_transport \<lparr>rq_Method = ''POST'', rq_URL = ''https://k/mgmt/v1/events'',
      rq_Header = [(''X-Api-Key'', ''key''), (''Content-Type'', ''application/json'')], rq_Body = body\<rparr> [] = (answer, w')"
    "PublishEvent ex_transport ex_client
      (Some (EventFromScanResult ex_posted_result ex_posted_workload ex_posted_options)) [] = (publish_answer answer, w')"
    "publish_answer answer = None \<longleftrightarrow> accepted answer"
    "json_Unmarshal body = Some (JObj ms)" "json_lookup ms ''severity'' = Some (JStr ''error'')"
    unfolding c by (elim exE conjE) (rule that)
  then show ?thesis using ex_answer_accepted by (auto simp: ex_transport_sel)
qed

lemma publish_to_komodor_accepted:
  assumes "re_publish env = Some (\<lambda>w ev. Publish tp (NewPublisher c) ev w)"
    and "publish_to_komodor env res wctx opts r = (ok, r')"
    and "Event_json (tp_MarshalTime tp) (EventFromScanResult res wctx opts) = Inr v"
    and "tp_JoinPath tp (kc_baseURL c) ''/mgmt/v1/events'' = Inr url" "tp_NewRequest tp ''POST'' url = None"
    and "tp_Do tp (event_request c url (Marshal_json v)) (ss_world (r_scan r)) = (answer, w')"
  shows "(ok \<longleftrightarrow> PublishToKomodor (Mode (cfg_Publishing (re_cfg env))) \<and> accepted answer) \<and>
    r_metrics r' EventPublishErrorsTotal = r_metrics r EventPublishErrorsTotal +
      (if PublishToKomodor (Mode (cfg_Publishing (re_cfg env))) \<and> \<not> accepted answer then 1 else 0) \<and>
    ss_world (r_scan r') =
      (if PublishToKomodor (Mode (cfg_Publishing (re_cfg env))) then w' else ss_world (r_scan r))"
  using assms publish_answer_None [of answer]
  by (auto simp: publish_to_komodor_def Publish_def NewPublisher_def PublishEvent_def Inc_def metric_Add_def with_world_def
      split: if_splits option.splits)

text \<open>The reconciler counts a publication to Komodor exactly when the mode asks for it and the server
  accepted the event; without the mode nothing is sent, and any other answer counts as an error.\<close>

theorem komodor_publication_accepted:
  assumes "re_publish env = Some (\<lambda>w ev. Publish tp (NewPublisher c) ev w)"
    and "publish_to_komodor env res wctx opts r = (ok, r')"
    and "Event_json (tp_MarshalTime tp) (EventFromScanResult res wctx opts) = Inr v"
    and "tp_JoinPath tp (kc_baseURL c) ''/mgmt/v1/events'' = Inr url" "tp_NewRequest tp ''POST'' url = None"
    and "tp_Do tp (event_request c url (Marshal_json v)) (ss_world (r_scan r)) = (answer, w')"
  shows "(ok \<longleftrightarrow> PublishToKomodor (Mode (cfg_Publishing (re_cfg env))) \<and> accepted answer) \<and>
    r_metrics r' EventPublishErrorsTotal = r_metrics r EventPublishErrorsTotal +
      (if PublishToKomodor (Mode (cfg_Publishing (re_cfg env))) \<and> \<not> accepted answer then 1 else 0) \<and>
    ss_world (r_scan r') =
      (if PublishToKomodor (Mode (cfg_Publishing (re_cfg env))) then w' else ss_world (r_scan r))"
  by (rule publish_to_komodor_accepted [OF assms])

definition ex_client_env :: "'s backend \<Rightarrow> (http_request list, 's) recon_env" where
  "ex_client_env be = \<lparr>re_cfg = ex_config, re_settings = ex_runtime, re_scanners = [], re_backend = be, re_now = (\<lambda>_. 0),
     re_sleep = (\<lambda>w d. (None, w)), re_digest = (\<lambda>w s. Inr s),
     re_publish = Some (\<lambda>w ev. Publish ex_transport (NewPublisher ex_client) ev w),
     re_create_event = None\<rparr>"

theorem komodor_publication_accepted_witness:
  "\<forall>(be :: 's backend) r. fst (publish_to_komodor (ex_client_env be) ex_posted_result ex_posted_workload ex_posted_options r)"
proof (intro allI)
  fix be :: "'s backend" and r :: "(http_request list, 's) recon"
  have "wf_event (tp_MarshalTime ex_transport) (EventFromScanResult ex_posted_result ex_posted_workload ex_posted_options)"
    by (rule wf_event_of_result [OF ex_posted_ascii ex_transport_sel(1) ex_stamp_ascii])
  then obtain ms where v: "Event_json (tp_MarshalTime ex_transport)
      (EventFromScanResult ex_posted_result ex_posted_workload ex_posted_options) = Inr (JObj ms)"
    by (rule Event_json_wf)
  have "PublishToKomodor (Mode (cfg_Publishing (re_cfg (ex_client_env be))))"
    by (simp add: ex_client_env_def ex_config_def PublishToKomodor_def normalized_mode_def mode_defs ToLower_def
        lower_char_def TrimSpace_def is_space_def)
  moreover have "re_publish (ex_client_env be) = Some (\<lambda>w ev. Publish ex_transport (NewPublisher ex_client) ev w)"
    by (simp add: ex_client_env_def)
  ultimately show "fst (publish_to_komodor (ex_client_env be) ex_posted_result ex_posted_workload ex_posted_options r)"
    using komodor_publication_accepted [OF _ surjective_pairing v ex_transport_sel(2,3,4)] ex_answer_accepted by blast
qed

text \<open>C18: The key is accepted exactly when the server answers the one GET with a success status and a
  body that is readable JSON, says that the key is valid, and does not say that it is forbidden: an
  answer that does not come, cannot be read or is empty refuses the key.\<close>

theorem ValidateAPIKey_accepts:
  assumes "tp_NewRequest tp ''GET'' (kc_validateURL c) = None"
    and "tp_Do tp (setAuthHeaders c \<lparr>rq_Method = ''GET'', rq_URL = kc_validateURL c, rq_Header = [], rq_Body = []\<rparr>) w
      = (answer, w')"
  shows "snd (ValidateAPIKey tp c w) = w' \<and>
    (fst (ValidateAPIKey tp c w) = None \<longleftrightarrow>
       accepted answer \<and>
       (\<exists>resp v a. answer = Inr resp \<and> rp_BodyErr resp = None \<and> json_Unmarshal (rp_Body resp) = Some v \<and>
         decode_struct validation_fields v zero_validation = Some a \<and> Valid a \<and> ToLower (Status a) \<noteq> ''forbidden''))"
proof (cases answer)
  case (Inr resp)
  have empty: "json_Unmarshal [] = None" by code_simp
  show ?thesis
    using assms Inr empty
    by (auto simp: ValidateAPIKey_def parseAPIKeyValidationResponse_def Let_def accepted_def zero_validation_def
        evaluateAPIKeyValidation_def EqualFold_def ToLower_forbidden
        split: option.splits if_splits)
qed (use assms in \<open>simp add: ValidateAPIKey_def accepted_def\<close>)

theorem ValidateAPIKey_accepts_witness:
  "fst (ValidateAPIKey ex_transport ex_client []) = None"
proof -
  have "rp_BodyErr (ex_answer req) = None"
    "json_Unmarshal (rp_Body (ex_answer req)) = Some (JObj [(''valid'', JBool True)])"
    "decode_struct validation_fields (JObj [(''valid'', JBool True)]) zero_validation = Some \<lparr>Valid = True, Status = []\<rparr>"
    for req unfolding ex_answer_def http_response.simps by code_simp+
  then show ?thesis
    using ValidateAPIKey_accepts [of ex_transport ex_client "[]", OF ex_transport_sel(3,4)] ex_answer_accepted
    by (simp add: ToLower_def)
qed

end
