(* ===== verification/Config_Loader.thy ===== *)
theory Config_Loader
  imports Config
begin

text \<open>
  Loading the configuration, \<open>internal/config/loader.go\<close>, and the scopes of a loaded one
  (\<open>SubConfig\<close>, \<open>ScannerSubConfig\<close> of \<open>config.go\<close>). Reading YAML under the defaults and decoding it
  into the configuration are viper's and mapstructure's: parameters. The defaults handed to
  them and what is made of their errors are the program's.
\<close>

section \<open>The text of an error\<close>

fun Error_text :: "go_error \<Rightarrow> string" where
  "Error_text (ErrNew s) = s"
| "Error_text ErrCircuitOpen = ''scanner circuit is open''"
| "Error_text ErrCanceled = ''context canceled''"
| "Error_text ErrDeadlineExceeded = ''context deadline exceeded''"
| "Error_text (ErrWrap before err after) = before @ Error_text err @ after"
| "Error_text (ErrForeign s net temporary inner) = s"

section \<open>Loading\<close>

text \<open>A default: a text, a number, the text of a duration, or the empty list of maps.\<close>

datatype setting = SText string | SInt int | SFloat float64 | SDuration duration | SEmptyList

definition newLoader :: "(string \<times> setting) list" where
  "newLoader =
    [(''state.backend'', SText StateBackendConfigMap),
     (''state.ttl'', SText ''72h''),
     (''state.namespace'', SText ''default''),
     (''state.memory.maxEntries'', SInt 1000),
     (''state.redis.keyPrefix'', SText ''komodor-security-reporter''),
     (''state.redis.dialTimeout'', SText ''5s''),
     (''state.redis.readTimeout'', SText ''3s''),
     (''state.redis.writeTimeout'', SText ''3s''),
     (''state.memcache.keyPrefix'', SText ''komodor-security-reporter''),
     (''state.memcache.timeout'', SText ''500ms''),
     (''state.memcache.maxIdleConns'', SInt 2),
     (''scanners.concurrency'', SInt 4),
     (''scanners.runtime.timeout'', SDuration DefaultScannerRuntimeTimeout),
     (''scanners.runtime.retry.maxAttempts'', SInt DefaultScannerRetryMaxAttempts),
     (''scanners.runtime.retry.initialBackoff'', SDuration DefaultScannerRetryInitialBackoff),
     (''scanners.runtime.retry.maxBackoff'', SDuration DefaultScannerRetryMaxBackoff),
     (''scanners.runtime.retry.backoffMultiplier'', SFloat DefaultScannerRetryBackoffMultiplier),
     (''scanners.runtime.circuitBreaker.failureThreshold'', SInt DefaultScannerCircuitFailureThreshold),
     (''scanners.runtime.circuitBreaker.openDuration'', SDuration DefaultScannerCircuitOpenDuration),
     (''scanners.runtime.circuitBreaker.halfOpenMaxRequests'', SInt DefaultScannerCircuitHalfOpenMaxRequests),
     (''publishing.mode'', SText PublishingModeKomodor),
     (''publishing.dedupeTTL'', SText ''24h''),
     (''scanners.scanners'', SEmptyList)]"

text \<open>What viper does: it reads a file or bytes under defaults, and decodes.\<close>

record 'v config_source =
  ld_ReadInConfig :: "(string \<times> setting) list \<Rightarrow> string \<Rightarrow> 'v result"
  ld_ReadConfig :: "(string \<times> setting) list \<Rightarrow> string \<Rightarrow> 'v result"
  ld_Unmarshal :: "'v \<Rightarrow> config result"

text \<open>A loaded configuration keeps its source; \<open>sub\<close> is viper's \<open>Sub\<close>, a part of it by its path.\<close>

record 'v loaded =
  lc_config :: config
  lc_source :: "'v option"

definition unmarshalConfig :: "'v config_source \<Rightarrow> 'v \<Rightarrow> 'v loaded result" where
  "unmarshalConfig ld v =
     (case ld_Unmarshal ld v of
        Inl err \<Rightarrow>
          let errMsg = Error_text err in
          if Contains errMsg ''state.ttl'' then Inl (ErrWrap ''parse state ttl: '' err [])
          else if Contains errMsg ''.command.timeout'' then Inl (ErrWrap ''parse scanner timeout: '' err [])
          else if Contains errMsg ''scanners.runtime'' then Inl (ErrWrap ''parse scanner runtime config: '' err [])
          else Inl (ErrWrap ''decode config: '' err [])
      | Inr cfg \<Rightarrow> Inr \<lparr>lc_config = cfg, lc_source = Some v\<rparr>)"

definition validateLoadedConfig :: "'v loaded \<Rightarrow> 'v loaded result" where
  "validateLoadedConfig cfg =
     (case Validate (lc_config cfg) of
        Some err \<Rightarrow> Inl (ErrWrap ''validate config: '' err [])
      | None \<Rightarrow> Inr cfg)"

definition LoadFromFile :: "'v config_source \<Rightarrow> string \<Rightarrow> 'v loaded result" where
  "LoadFromFile ld path =
     (case ld_ReadInConfig ld newLoader path of
        Inl err \<Rightarrow> Inl (ErrWrap ''read config file: '' err [])
      | Inr v \<Rightarrow> (case unmarshalConfig ld v of Inl err \<Rightarrow> Inl err | Inr cfg \<Rightarrow> validateLoadedConfig cfg))"

definition LoadFromBytes :: "'v config_source \<Rightarrow> string \<Rightarrow> 'v loaded result" where
  "LoadFromBytes ld data =
     (case ld_ReadConfig ld newLoader data of
        Inl err \<Rightarrow> Inl (ErrWrap ''unmarshal yaml: '' err [])
      | Inr v \<Rightarrow> (case unmarshalConfig ld v of Inl err \<Rightarrow> Inl err | Inr cfg \<Rightarrow> validateLoadedConfig cfg))"

definition SubConfig :: "('v \<Rightarrow> string \<Rightarrow> 'v option) \<Rightarrow> 'v loaded option \<Rightarrow> string \<Rightarrow> 'v option" where
  "SubConfig sub c path =
     (case c of None \<Rightarrow> None
      | Some c \<Rightarrow> (case lc_source c of None \<Rightarrow> None | Some v \<Rightarrow> sub v path))"

definition ScannerSubConfig :: "('v \<Rightarrow> string \<Rightarrow> 'v option) \<Rightarrow> 'v loaded option \<Rightarrow> int \<Rightarrow> 'v option" where
  "ScannerSubConfig sub c index =
     (if index < 0 then None else SubConfig sub c (''scanners.scanners.'' @ show_int index))"

section \<open>Lemmas\<close>

lemma LoadFromFile_Inr:
  "LoadFromFile ld path = Inr c \<longleftrightarrow>
     (\<exists>v cfg. ld_ReadInConfig ld newLoader path = Inr v \<and> ld_Unmarshal ld v = Inr cfg \<and> Validate cfg = None \<and>
        c = \<lparr>lc_config = cfg, lc_source = Some v\<rparr>)"
  by (auto simp: LoadFromFile_def unmarshalConfig_def validateLoadedConfig_def Let_def split: sum.splits option.splits)

lemma LoadFromBytes_Inr:
  "LoadFromBytes ld data = Inr c \<longleftrightarrow>
     (\<exists>v cfg. ld_ReadConfig ld newLoader data = Inr v \<and> ld_Unmarshal ld v = Inr cfg \<and> Validate cfg = None \<and>
        c = \<lparr>lc_config = cfg, lc_source = Some v\<rparr>)"
  by (auto simp: LoadFromBytes_def unmarshalConfig_def validateLoadedConfig_def Let_def split: sum.splits option.splits)

text \<open>The defaults name each setting once, and where the validation knows a default for a zero
  value, the loader hands the same one to viper.\<close>

lemma newLoader_distinct: "distinct (map fst newLoader)"
  by (simp add: newLoader_def)

end
