(* ===== verification/Command_Runner.thy ===== *)
theory Command_Runner
  imports Scanner_Runtime
begin

text \<open>
  The runner of the scanner commands: \<open>internal/scanners/command/runner.go\<close>. The process is the
  world's: what it writes, in which pieces, and how it ends are the result of a parameter.
\<close>

section \<open>Quoting\<close>

text \<open>The verb \<open>%q\<close> on ASCII text; other bytes are left as they are.\<close>

definition quote_char :: "char \<Rightarrow> string" where
  "quote_char c =
     (if c = CHR 0x22 \<or> c = CHR 0x5C then [CHR 0x5C, c]
      else if c = CHR 0x07 then [CHR 0x5C, CHR ''a'']
      else if c = CHR 0x08 then [CHR 0x5C, CHR ''b'']
      else if c = CHR 0x0C then [CHR 0x5C, CHR ''f'']
      else if c = CHR 0x0A then [CHR 0x5C, CHR ''n'']
      else if c = CHR 0x0D then [CHR 0x5C, CHR ''r'']
      else if c = CHR 0x09 then [CHR 0x5C, CHR ''t'']
      else if c = CHR 0x0B then [CHR 0x5C, CHR ''v'']
      else let n = (of_char c :: nat) in
        if n < 32 \<or> n = 127
        then [CHR 0x5C, CHR ''x''] @ map (\<lambda>d. if d < 10 then char_of (48 + d) else char_of (87 + d)) [n div 16, n mod 16]
        else [c])"

definition Quote :: "string \<Rightarrow> string" where
  "Quote s = [CHR 0x22] @ concat (map quote_char s) @ [CHR 0x22]"

section \<open>The writer with a limit\<close>

text \<open>The underlying writer is a \<open>bytes.Buffer\<close>, whose \<open>Write\<close> takes everything.\<close>

record limitedWriter =
  lw_writer :: string
  lw_limit :: int
  lw_seen :: int

definition limitedWriter_Write :: "string \<Rightarrow> limitedWriter \<Rightarrow> (int \<times> go_error option) \<times> limitedWriter" where
  "limitedWriter_Write p w =
     (let remaining = i64 (lw_limit w - lw_seen w)
      in if remaining \<le> 0 then ((int (length p), None), w)
         else
           let toWrite = (if remaining < int (length p) then take (nat remaining) p else p);
               n = int (length toWrite)
           in ((int (length p), None), w\<lparr>lw_writer := lw_writer w @ toWrite, lw_seen := i64 (lw_seen w + n)\<rparr>))"

section \<open>The runner\<close>

record runner =
  StdoutLimitBytes :: int
  StderrLimitBytes :: int

definition DefaultStdoutLimit :: int where "DefaultStdoutLimit = 100 * 1024 * 1024"
definition DefaultStderrLimit :: int where "DefaultStderrLimit = 10 * 1024 * 1024"

definition NewRunner :: runner where
  "NewRunner = \<lparr>StdoutLimitBytes = DefaultStdoutLimit, StderrLimitBytes = DefaultStderrLimit\<rparr>"

text \<open>
  A process that has ended: the pieces in which its output arrives, and its error if it has
  one, with the exit code where \<open>errors.As\<close> finds an \<open>exec.ExitError\<close> in it.
\<close>

record process =
  p_stdout :: "string list"
  p_stderr :: "string list"
  p_err :: "(go_error \<times> int option) option"

text \<open>What runs a program: the world, the timeout of the context, the program and its arguments.\<close>

type_synonym 'w exec = "'w \<Rightarrow> duration option \<Rightarrow> string \<Rightarrow> string list \<Rightarrow> process \<times> 'w"

text \<open>\<open>io.Copy\<close>: it stops at a write that fails or that takes less than it was given.\<close>

definition ErrShortWrite :: go_error where
  "ErrShortWrite = ErrNew ''short write''"

fun io_Copy :: "limitedWriter \<Rightarrow> string list \<Rightarrow> go_error option \<times> limitedWriter" where
  "io_Copy w [] = (None, w)"
| "io_Copy w (p # ps) =
     (case limitedWriter_Write p w of
        ((n, Some err), w) \<Rightarrow> (Some err, w)
      | ((n, None), w) \<Rightarrow> if n = int (length p) then io_Copy w ps else (Some ErrShortWrite, w))"

definition containsExitCode :: "int list \<Rightarrow> int \<Rightarrow> bool" where
  "containsExitCode allowedExitCodes exitCode \<longleftrightarrow> list_ex (\<lambda>allowed. allowed = exitCode) allowedExitCodes"

text \<open>\<open>cmd.Run\<close> with the two writers: the error of the process comes before one of a copy.\<close>

definition cmd_Run :: "process \<Rightarrow> limitedWriter \<Rightarrow> limitedWriter \<Rightarrow>
    (go_error \<times> int option) option \<times> limitedWriter \<times> limitedWriter" where
  "cmd_Run p out err =
     (let (e1, out) = io_Copy out (p_stdout p); (e2, err) = io_Copy err (p_stderr p)
      in (case p_err p of
            Some e \<Rightarrow> Some e
          | None \<Rightarrow> (case e1 of Some e \<Rightarrow> Some (e, None) | None \<Rightarrow> map_option (\<lambda>e. (e, None)) e2),
          out, err))"

definition RunAllowExitCodes :: "runner \<Rightarrow> 'w exec \<Rightarrow> 'w \<Rightarrow> duration option \<Rightarrow> int list \<Rightarrow> string \<Rightarrow> string list \<Rightarrow>
    (string \<times> string \<times> go_error option) \<times> 'w" where
  "RunAllowExitCodes r exec w timeout allowedExitCodes name args =
     (let (p, w) = exec w timeout name args;
          (err, out, errout) = cmd_Run p \<lparr>lw_writer = [], lw_limit = StdoutLimitBytes r, lw_seen = 0\<rparr>
            \<lparr>lw_writer = [], lw_limit = StderrLimitBytes r, lw_seen = 0\<rparr>
      in case err of
           None \<Rightarrow> ((lw_writer out, lw_writer errout, None), w)
         | Some (e, code) \<Rightarrow>
             if (case code of Some c \<Rightarrow> containsExitCode allowedExitCodes c | None \<Rightarrow> False)
             then ((lw_writer out, lw_writer errout, None), w)
             else ((lw_writer out, lw_writer errout, Some (ErrWrap (''run '' @ Quote name @ '': '') e [])), w))"

definition Run :: "runner \<Rightarrow> 'w exec \<Rightarrow> 'w \<Rightarrow> duration option \<Rightarrow> string \<Rightarrow> string list \<Rightarrow>
    (string \<times> string \<times> go_error option) \<times> 'w" where
  "Run r exec w timeout name args = RunAllowExitCodes r exec w timeout [] name args"

section \<open>Lemmas\<close>

text \<open>Sizes that an int64 holds, of the limit and of the output.\<close>

lemma i64_diff_small: "0 \<le> a \<Longrightarrow> a \<le> max_int64 \<Longrightarrow> 0 \<le> b \<Longrightarrow> b \<le> a \<Longrightarrow> i64 (a - b) = a - b"
  by (rule i64_small) (simp_all add: max_int64_def)

text \<open>The writer has kept the first bytes of what it was given.\<close>

definition kept :: "string \<Rightarrow> limitedWriter \<Rightarrow> bool" where
  "kept given w \<longleftrightarrow> lw_writer w = take (nat (lw_limit w)) given \<and> lw_seen w = int (length (lw_writer w)) \<and>
     0 \<le> lw_limit w \<and> lw_limit w \<le> max_int64"

lemma Write_keeps:
  assumes "kept given w" "limitedWriter_Write p w = (r, w')"
  shows "kept (given @ p) w'" "lw_limit w' = lw_limit w" "r = (int (length p), None)"
proof -
  obtain n where n: "lw_limit w = int n" "int n \<le> max_int64" "lw_writer w = take n given"
      "lw_seen w = int (min (length given) n)"
    using assms(1) by (intro that [of "nat (lw_limit w)"]) (simp_all add: kept_def)
  have rem: "i64 (lw_limit w - lw_seen w) = int (n - length given)"
    unfolding n(1,4) using n(2) by (subst i64_diff_small) auto
  show "lw_limit w' = lw_limit w" "r = (int (length p), None)"
    using assms(2) by (auto simp: limitedWriter_Write_def Let_def split: if_splits)
  show "kept (given @ p) w'"
  proof (cases "n \<le> length given")
    case True
    then have "w' = w" using assms(2) rem by (simp add: limitedWriter_Write_def)
    then show ?thesis using True n by (simp add: kept_def)
  next
    case False
    obtain m where m: "n = length given + m" "0 < m" using False by (intro that [of "n - length given"]) simp_all
    have "i64 (lw_limit w - lw_seen w) = int m" using rem m by simp
    moreover have "i64 (lw_seen w + int (length (take m p))) = lw_seen w + int (length (take m p))"
      using n(2) unfolding n(4) m by (intro i64_small) (simp_all add: max_int64_def)
    ultimately have "w' = w\<lparr>lw_writer := lw_writer w @ take m p, lw_seen := lw_seen w + int (length (take m p))\<rparr>"
      using assms(2) m(2) by (cases "m < length p") (auto simp: limitedWriter_Write_def Let_def)
    moreover have "nat (lw_limit w) = length given + m" "0 \<le> lw_limit w" "lw_limit w \<le> max_int64"
      using n m by simp_all
    ultimately show ?thesis using n(3,4) m by (simp add: kept_def)
  qed
qed

lemma io_Copy_keeps:
  assumes "kept given w"
  shows "fst (io_Copy w ps) = None \<and> kept (given @ concat ps) (snd (io_Copy w ps)) \<and> lw_limit (snd (io_Copy w ps)) = lw_limit w"
  using assms
proof (induction ps arbitrary: given w)
  case (Cons p ps)
  obtain r w' where w: "limitedWriter_Write p w = (r, w')" by (cases "limitedWriter_Write p w") auto
  note k = Write_keeps [OF Cons.prems w]
  show ?case using Cons.IH [OF k(1)] k(2,3) by (simp add: w)
qed simp

definition wf_runner :: "runner \<Rightarrow> bool" where
  "wf_runner r \<longleftrightarrow> 0 \<le> StdoutLimitBytes r \<and> StdoutLimitBytes r \<le> max_int64 \<and>
     0 \<le> StderrLimitBytes r \<and> StderrLimitBytes r \<le> max_int64"

lemma wf_NewRunner [simp]: "wf_runner NewRunner"
  by (simp add: wf_runner_def NewRunner_def DefaultStdoutLimit_def DefaultStderrLimit_def max_int64_def)

lemma io_Copy_buffer:
  assumes "0 \<le> n" "n \<le> max_int64" "io_Copy \<lparr>lw_writer = [], lw_limit = n, lw_seen = 0\<rparr> ps = (e, w)"
  shows "e = None \<and> lw_writer w = take (nat n) (concat ps)"
  using io_Copy_keeps [of "[]" "\<lparr>lw_writer = [], lw_limit = n, lw_seen = 0\<rparr>" ps] assms by (simp add: kept_def)

text \<open>The error a process ends with, as the runner judges it.\<close>

definition process_error :: "int list \<Rightarrow> string \<Rightarrow> process \<Rightarrow> go_error option" where
  "process_error allowed name p =
     (case p_err p of
        None \<Rightarrow> None
      | Some (e, None) \<Rightarrow> Some (ErrWrap (''run '' @ Quote name @ '': '') e [])
      | Some (e, Some c) \<Rightarrow> if c \<in> set allowed then None else Some (ErrWrap (''run '' @ Quote name @ '': '') e []))"

lemma run_result:
  assumes "wf_runner r" "exec w timeout name args = (p, w')"
  shows "RunAllowExitCodes r exec w timeout allowed name args =
    ((take (nat (StdoutLimitBytes r)) (concat (p_stdout p)), take (nat (StderrLimitBytes r)) (concat (p_stderr p)),
      process_error allowed name p), w')"
proof -
  obtain e1 out where o: "io_Copy \<lparr>lw_writer = [], lw_limit = StdoutLimitBytes r, lw_seen = 0\<rparr> (p_stdout p) = (e1, out)"
    by (cases "io_Copy \<lparr>lw_writer = [], lw_limit = StdoutLimitBytes r, lw_seen = 0\<rparr> (p_stdout p)")
  obtain e2 err where e: "io_Copy \<lparr>lw_writer = [], lw_limit = StderrLimitBytes r, lw_seen = 0\<rparr> (p_stderr p) = (e2, err)"
    by (cases "io_Copy \<lparr>lw_writer = [], lw_limit = StderrLimitBytes r, lw_seen = 0\<rparr> (p_stderr p)")
  have out: "e1 = None" "lw_writer out = take (nat (StdoutLimitBytes r)) (concat (p_stdout p))"
    using io_Copy_buffer [OF _ _ o] assms(1) by (simp_all add: wf_runner_def)
  have err: "e2 = None" "lw_writer err = take (nat (StderrLimitBytes r)) (concat (p_stderr p))"
    using io_Copy_buffer [OF _ _ e] assms(1) by (simp_all add: wf_runner_def)
  have "containsExitCode allowed c \<longleftrightarrow> c \<in> set allowed" for c
    by (auto simp: containsExitCode_def list_ex_iff)
  then show ?thesis
    using out err by (cases "p_err p") (auto simp: RunAllowExitCodes_def cmd_Run_def process_error_def assms(2) o e split: option.split)
qed

section \<open>Properties\<close>

text \<open>C33: What a command leaves: its whole output up to the limits and nothing of it beyond
  them, in whatever pieces it arrives; a process that writes more is not disturbed, and the
  runner reports an error exactly when the process failed with no exit code it allows.\<close>

theorem runner_output:
  assumes "wf_runner r" "exec w timeout name args = (p, w')"
    and "RunAllowExitCodes r exec w timeout allowed name args = ((out, errout, err), w'')"
  shows "out = take (nat (StdoutLimitBytes r)) (concat (p_stdout p)) \<and>
    errout = take (nat (StderrLimitBytes r)) (concat (p_stderr p)) \<and>
    int (length out) \<le> StdoutLimitBytes r \<and> int (length errout) \<le> StderrLimitBytes r \<and> w'' = w' \<and>
    (err = None \<longleftrightarrow> p_err p = None \<or> (\<exists>e c. p_err p = Some (e, Some c) \<and> c \<in> set allowed))"
  using assms(3) assms(1) unfolding run_result [where exec = exec, OF assms(1,2)]
  by (auto simp: wf_runner_def process_error_def split: option.splits if_splits)

definition ex_exec :: "process \<Rightarrow> nat exec" where
  "ex_exec p w timeout name args = (p, Suc w)"

theorem runner_output_witness:
  "RunAllowExitCodes \<lparr>StdoutLimitBytes = 5, StderrLimitBytes = 2\<rparr>
     (ex_exec \<lparr>p_stdout = [''abc'', ''def'', ''ghi''], p_stderr = [''x''], p_err = Some (ErrForeign ''exit status 1'' False None None, Some 1)\<rparr>)
     (0::nat) None [1] ''snyk'' [] = ((''abcde'', ''x'', None), 1)"
proof -
  let ?r = "\<lparr>StdoutLimitBytes = 5, StderrLimitBytes = 2\<rparr>"
  let ?p = "\<lparr>p_stdout = [''abc'', ''def'', ''ghi''], p_stderr = [''x''], p_err = Some (ErrForeign ''exit status 1'' False None None, Some (1::int))\<rparr>"
  obtain out errout err w where r: "RunAllowExitCodes ?r (ex_exec ?p) 0 None [1] ''snyk'' [] = ((out, errout, err), w)"
    by (cases "RunAllowExitCodes ?r (ex_exec ?p) 0 None [1] ''snyk'' []") auto
  have "wf_runner ?r" by (simp add: wf_runner_def max_int64_def)
  from runner_output [OF this _ r] show ?thesis by (simp add: ex_exec_def r)
qed

end
