(* ===== verification/Scanner_Driver.thy ===== *)
theory Scanner_Driver
  imports Go_Decode Command_Runner Scan_Model
begin

text \<open>
  What the scanner drivers under \<open>internal/scanners\<close> share: each carries its own copy of these
  helpers. The removal of duplicates by a key, the text of a field of a decoded object, the
  walk over a decoded report, and the contract of a result.
\<close>

section \<open>Helpers\<close>

fun firstNonEmpty :: "string list \<Rightarrow> string" where
  "firstNonEmpty [] = []"
| "firstNonEmpty (v # vs) = (if v \<noteq> [] then v else firstNonEmpty vs)"

definition firstString :: "string list \<Rightarrow> string" where
  "firstString values = (case values of [] \<Rightarrow> [] | v # _ \<Rightarrow> v)"

text \<open>Of the values that encoding/json decodes only strings have a text.\<close>

fun toString :: "json \<Rightarrow> string" where
  "toString (JStr s) = s"
| "toString v = []"

fun toBool :: "json \<Rightarrow> bool" where
  "toBool (JBool b) = b"
| "toBool v = False"

type_synonym json_map = "(string \<times> json) list"

text \<open>Indexing a map: \<open>nil\<close> where the key is missing.\<close>

definition at_key :: "json_map \<Rightarrow> string \<Rightarrow> json" where
  "at_key m k = (case map_of m k of Some v \<Rightarrow> v | None \<Rightarrow> JNull)"

definition field :: "json_map \<Rightarrow> string \<Rightarrow> string" where
  "field m k = toString (at_key m k)"

definition severity_or_unknown :: "string \<Rightarrow> severity" where
  "severity_or_unknown s = (case ParseSeverity s of (sev, None) \<Rightarrow> sev | (_, Some err) \<Rightarrow> SeverityUnknown)"

text \<open>The loop that keeps the first value of each key.\<close>

fun dedupe :: "('a \<Rightarrow> string) \<Rightarrow> string list \<Rightarrow> 'a list \<Rightarrow> 'a list" where
  "dedupe key seen [] = []"
| "dedupe key seen (x # xs) =
     (if key x \<in> set seen then dedupe key seen xs else x # dedupe key (key x # seen) xs)"

text \<open>The objects of a tree that a test accepts, in the order of the walk.\<close>

fun walk :: "(json_map \<Rightarrow> bool) \<Rightarrow> json \<Rightarrow> json_map list" where
  "walk accepts (JObj m) = (if accepts m then [m] else []) @ concat (map (\<lambda>(k, v). walk accepts v) m)"
| "walk accepts (JArr vs) = concat (map (walk accepts) vs)"
| "walk accepts v = []"

section \<open>The removal of duplicates\<close>

lemma set_dedupe_keys: "key ` set (dedupe key seen xs) = key ` set xs - set seen"
  by (induction xs arbitrary: seen) auto

lemma dedupe_subset: "set (dedupe key seen xs) \<subseteq> set xs"
  by (induction xs arbitrary: seen) auto

lemma distinct_dedupe_keys: "distinct (map key (dedupe key seen xs))"
proof (induction xs arbitrary: seen)
  case (Cons x xs)
  have "key x \<notin> set (map key (dedupe key (key x # seen) xs))"
    using set_dedupe_keys [of key "key x # seen" xs] by auto
  then show ?case using Cons by simp
qed simp

text \<open>Of the values with one key the first is kept.\<close>

lemma dedupe_first: "x \<in> set (dedupe key seen xs) \<Longrightarrow> find (\<lambda>y. key y = key x) xs = Some x"
proof (induction xs arbitrary: seen)
  case (Cons y ys)
  show ?case
  proof (cases "key y = key x")
    case True
    have "x \<notin> set (dedupe key (key y # seen) ys)" "key y \<in> set seen \<Longrightarrow> x \<notin> set (dedupe key seen ys)"
      using True set_dedupe_keys [of key "key y # seen" ys] set_dedupe_keys [of key seen ys] by auto
    then show ?thesis using Cons.prems True by (auto split: if_splits)
  next
    case False
    then show ?thesis using Cons.IH Cons.prems by (auto split: if_splits)
  qed
qed simp

lemma dedupe_cong: "set seen = set seen' \<Longrightarrow> dedupe key seen xs = dedupe key seen' xs"
proof (induction xs arbitrary: seen seen')
  case (Cons x xs)
  have "set (key x # seen) = set (key x # seen')" using Cons.prems by simp
  from Cons.IH [OF this] Cons.IH [OF Cons.prems] show ?case by (simp add: Cons.prems)
qed simp

lemma dedupe_append: "dedupe key seen (xs @ ys) = dedupe key seen xs @ dedupe key (map key xs @ seen) ys"
proof (induction xs arbitrary: seen)
  case (Cons x xs)
  have "dedupe key (map key xs @ key x # seen) ys = dedupe key (key x # map key xs @ seen) ys"
    "key x \<in> set seen \<Longrightarrow> dedupe key (map key xs @ seen) ys = dedupe key (key x # map key xs @ seen) ys"
    by (rule dedupe_cong; auto)+
  then show ?case using Cons by simp
qed simp

text \<open>The kept keys are determined by the keys there are.\<close>

lemma mset_dedupe_keys: "mset (map key (dedupe key [] xs)) = mset_set (key ` set xs)"
proof -
  have "mset (map key (dedupe key [] xs)) = mset_set (set (map key (dedupe key [] xs)))"
    by (rule mset_set_set [OF distinct_dedupe_keys, symmetric])
  also have "set (map key (dedupe key [] xs)) = key ` set xs"
    using set_dedupe_keys [of key "[]" xs] by simp
  finally show ?thesis .
qed

section \<open>Reports up to the order of a range\<close>

lemma mset_concat_map_cong:
  "mset xs = mset ys \<Longrightarrow> mset (concat (map f xs)) = mset (concat (map f ys))"
proof -
  assume "mset xs = mset ys"
  then have "mset (map (\<lambda>x. mset (f x)) xs) = mset (map (\<lambda>x. mset (f x)) ys)" by simp
  then have "sum_mset (mset (map (\<lambda>x. mset (f x)) xs)) = sum_mset (mset (map (\<lambda>x. mset (f x)) ys))" by (rule arg_cong)
  then show ?thesis by (simp only: sum_mset_sum_list mset_concat map_map comp_def)
qed

lemma map_of_list_all2:
  assumes "list_all2 (rel_prod (=) R) ms ns"
  shows "rel_option R (map_of ms k) (map_of ns k) \<and> map fst ms = map fst ns"
  using assms by (induction rule: list_all2_induct) auto

lemma map_of_mset: "mset ms' = mset ms \<Longrightarrow> distinct (map fst ms) \<Longrightarrow> map_of ms' = map_of ms \<and> distinct (map fst ms')"
proof -
  assume a: "mset ms' = mset ms" "distinct (map fst ms)"
  then have "mset (map fst ms') = mset (map fst ms)" by simp
  then have "distinct (map fst ms')" using a(2) mset_eq_imp_distinct_iff by metis
  then show "map_of ms' = map_of ms \<and> distinct (map fst ms')"
    using a map_of_inject_set [of ms' ms] mset_eq_setD by blast
qed

inductive_cases reordered_cases: "reordered v w"

lemma map_of_reordered:
  assumes "reordered (JObj m) (JObj n)" "distinct (map fst m)"
  shows "rel_option reordered (map_of m k) (map_of n k)"
  using assms(1)
proof (cases rule: reordered.cases)
  case leaf
  then show ?thesis by (simp add: option.rel_refl reordered.leaf)
next
  case (object ms')
  then show ?thesis using map_of_mset [OF object(1) assms(2)] map_of_list_all2 [OF object(2), of k] by simp
qed

lemma reordered_text: "reordered v w \<Longrightarrow> toString v = toString w \<and> toBool v = toBool w"
  by (erule reordered_cases) simp_all

lemma at_key_reordered:
  assumes "reordered (JObj m) (JObj n)" "distinct (map fst m)"
  shows "reordered (at_key m k) (at_key n k)"
  using map_of_reordered [OF assms, of k] by (auto simp: at_key_def rel_option_iff reordered.leaf split: option.splits)

lemma field_reordered: "reordered (JObj m) (JObj n) \<Longrightarrow> distinct (map fst m) \<Longrightarrow> field m k = field n k"
  using reordered_text [OF at_key_reordered] by (simp add: field_def)

lemma walk_reordered:
  assumes "reordered j j'" "maps_distinct j"
    and "\<And>m n. reordered (JObj m) (JObj n) \<Longrightarrow> distinct (map fst m) \<Longrightarrow> accepts m = accepts n \<and> g m = g n"
  shows "mset (map g (walk accepts j)) = mset (map g (walk accepts j'))"
  using assms(1,2)
proof (induction rule: reordered.induct)
  case (array vs ws)
  have "mset (map g (concat (map (walk accepts) vs))) = mset (map g (concat (map (walk accepts) ws)))"
    if "list_all2 (\<lambda>v w. reordered v w \<and> (maps_distinct v \<longrightarrow> mset (map g (walk accepts v)) = mset (map g (walk accepts w)))) vs ws"
      "list_all maps_distinct vs"
    using that by (induction rule: list_all2_induct) auto
  then show ?case using array by simp
next
  case (object ms' ms ns)
  have n: "reordered (JObj ms) (JObj ns)"
    using object(1,2) by (intro reordered.object [of ms']) (auto elim!: list.rel_mono_strong prod.rel_mono_strong)
  have own: "map g (if accepts ms then [ms] else []) = map g (if accepts ns then [ns] else [])"
    using assms(3) [OF n] object(3) by simp
  have "mset (map g (concat (map (\<lambda>(k, v). walk accepts v) ms'))) = mset (map g (concat (map (\<lambda>(k, v). walk accepts v) ns)))"
    if "list_all2 (rel_prod (=) (\<lambda>v w. reordered v w \<and>
        (maps_distinct v \<longrightarrow> mset (map g (walk accepts v)) = mset (map g (walk accepts w))))) ms' ns"
      "list_all (\<lambda>(k, v). maps_distinct v) ms'"
    using that by (induction rule: list_all2_induct) auto
  moreover have "list_all (\<lambda>(k, v). maps_distinct v) ms'"
    using object(1,3) by (simp add: list_all_iff) (metis mset_eq_setD)
  ultimately have "mset (map g (concat (map (\<lambda>(k, v). walk accepts v) ms'))) = mset (map g (concat (map (\<lambda>(k, v). walk accepts v) ns)))"
    using object(2) by blast
  moreover have "mset (map g (concat (map (\<lambda>(k, v). walk accepts v) ms'))) = mset (map g (concat (map (\<lambda>(k, v). walk accepts v) ms)))"
    using mset_concat_map_cong [OF object(1), of "\<lambda>(k, v). walk accepts v"] by (simp only: mset_map)
  ultimately show ?case using own by (simp only: walk.simps map_append mset_append)
qed simp

text \<open>The objects kept have the keys there are, whatever the order.\<close>

lemma collected_keys_reordered:
  assumes "reordered j j'" "maps_distinct j"
    and "\<And>m n. reordered (JObj m) (JObj n) \<Longrightarrow> distinct (map fst m) \<Longrightarrow> accepts m = accepts n \<and> key m = key n"
  shows "mset (map key (dedupe key [] (walk accepts j))) = mset (map key (dedupe key [] (walk accepts j')))"
proof -
  have "mset (map key (walk accepts j)) = mset (map key (walk accepts j'))" by (rule walk_reordered [OF assms])
  then have "key ` set (walk accepts j) = key ` set (walk accepts j')" by (metis image_set mset_eq_setD)
  then show ?thesis by (simp only: mset_dedupe_keys)
qed

lemma Unmarshal_any_distinct: "Unmarshal_any data = Some v \<Longrightarrow> maps_distinct v"
  by (auto simp: Unmarshal_any_def go_map_distinct split: option.splits if_splits)

section \<open>The contract of a result\<close>

text \<open>
  A result is normalised: the counts are those of its findings, whose severities are known,
  which carry the name of the scanner and which say that a fix is available when they name one.
\<close>

definition normalised :: "string \<Rightarrow> scan_result \<Rightarrow> bool" where
  "normalised name r \<longleftrightarrow> sr_Summary r = summary_of (sr_Findings r) \<and>
     list_all (\<lambda>f. f_Severity f \<in> set known_severities \<and> f_ScannerAttribution f = name \<and>
       (f_FixAvailable f \<longleftrightarrow> f_Fixed f \<noteq> [])) (sr_Findings r)"

lemma severity_or_unknown_known [simp]: "severity_or_unknown s \<in> set known_severities"
  using ParseSeverity_known [of s] by (auto simp: severity_or_unknown_def known_severities_def split: prod.split option.split)

text \<open>The loop of a driver: it counts the severity of a finding and appends the finding.\<close>

fun add_findings :: "('a \<Rightarrow> finding) \<Rightarrow> 'a list \<Rightarrow> scan_result \<Rightarrow> scan_result" where
  "add_findings finding_of [] r = r"
| "add_findings finding_of (v # vs) r =
     (let f = finding_of v
      in add_findings finding_of vs
           (r\<lparr>sr_Summary := incrementSummary (sr_Summary r) (f_Severity f), sr_Findings := sr_Findings r @ [f]\<rparr>))"

definition empty_result :: "image_ref \<Rightarrow> scan_result" where
  "empty_result img = \<lparr>sr_Scanner = [], sr_Image = img, sr_ScannedAt = 0, sr_Summary = zero_summary,
     sr_Findings = [], sr_ReportURL = [], sr_SBOMURL = []\<rparr>"

lemma add_findings_eq:
  "sr_Summary r = summary_of (sr_Findings r) \<Longrightarrow>
   add_findings finding_of vs r =
     r\<lparr>sr_Summary := summary_of (sr_Findings r @ map finding_of vs), sr_Findings := sr_Findings r @ map finding_of vs\<rparr>"
proof (induction vs arbitrary: r)
  case (Cons v vs)
  let ?r = "r\<lparr>sr_Summary := incrementSummary (sr_Summary r) (f_Severity (finding_of v)),
    sr_Findings := sr_Findings r @ [finding_of v]\<rparr>"
  have "sr_Summary ?r = summary_of (sr_Findings ?r)" using Cons.prems by (simp add: summary_of_snoc)
  then show ?case using Cons.IH [of ?r] by (simp add: Let_def)
qed simp

lemma add_findings_empty:
  "add_findings finding_of vs (empty_result img) =
     (empty_result img)\<lparr>sr_Summary := summary_of (map finding_of vs), sr_Findings := map finding_of vs\<rparr>"
  by (subst add_findings_eq) (simp_all add: empty_result_def)

lemma normalised_findings:
  assumes "\<And>v. f_Severity (finding_of v) \<in> set known_severities \<and> f_ScannerAttribution (finding_of v) = name \<and>
    (f_FixAvailable (finding_of v) \<longleftrightarrow> f_Fixed (finding_of v) \<noteq> [])"
  shows "normalised name (add_findings finding_of vs (empty_result img)) \<and>
    sr_Image (add_findings finding_of vs (empty_result img)) = img"
  using assms by (simp add: add_findings_empty normalised_def list_all_iff) (simp add: empty_result_def)

text \<open>A command driver: the program and the runner.\<close>

record command_scanner =
  cs_binary :: string
  cs_runner :: runner

text \<open>What the command drivers do with the output: the error of the run, the parser, the stamp.\<close>

definition scan_output ::
    "string \<Rightarrow> ('w \<Rightarrow> time) \<Rightarrow> (string \<Rightarrow> scan_result result) \<Rightarrow> (string \<times> string \<times> go_error option) \<times> 'w \<Rightarrow>
     scan_result result \<times> 'w" where
  "scan_output name now parse out =
     (case out of
        ((stdout, stderr, Some err), w) \<Rightarrow>
          (Inl (ErrWrap (name @ '' scan: '') err ('' (stderr: '' @ stderr @ '')'')), w)
      | ((stdout, stderr, None), w) \<Rightarrow>
          (case parse stdout of
             Inl err \<Rightarrow> (Inl (ErrWrap (''parse '' @ name @ '' output: '') err []), w)
           | Inr r \<Rightarrow> (Inr (r\<lparr>sr_Scanner := name, sr_ScannedAt := now w\<rparr>), w)))"

section \<open>The contract of a parser\<close>

text \<open>What a command driver owes: every result of its parser is normalised and for the image.\<close>

locale output_parser =
  fixes name :: string
    and parse :: "image_ref \<Rightarrow> string \<Rightarrow> scan_result result"
  assumes parsed: "parse img data = Inr r \<Longrightarrow> normalised name r \<and> sr_Image r = img"
begin

lemma scanned:
  assumes "scan_output name now (parse img) out = (Inr r, w)"
  shows "normalised name r \<and> sr_Scanner r = name \<and> sr_Image r = img"
  using assms parsed by (force simp: scan_output_def normalised_def split: prod.splits option.splits sum.splits)

end

section \<open>A report for the examples\<close>

text \<open>A report with one vulnerability under two spellings of its severity.\<close>

definition ex_vuln :: "string \<Rightarrow> json" where
  "ex_vuln sev = JObj [(''id'', JStr ''CVE-2024-1''), (''severity'', JStr sev)]"

definition ex_pair :: "string \<Rightarrow> string \<Rightarrow> json" where
  "ex_pair s t = JObj [(s, ex_vuln s), (t, ex_vuln t)]"

fun swap_members :: "json \<Rightarrow> json" where
  "swap_members (JObj ms) = JObj (rev ms)"
| "swap_members v = v"

lemma reordered_swap: "reordered v (swap_members v)"
proof (cases v)
  case (JObj ms)
  have "list_all2 (rel_prod (=) reordered) (rev ms) (rev ms)"
    by (rule list.rel_refl) (simp add: prod.rel_refl reordered.leaf)
  then show ?thesis using JObj by (simp add: reordered.object [of "rev ms"])
qed (simp_all add: reordered.leaf)

lemma ex_pair_read: "Unmarshal_any (Marshal_json (ex_pair ''HIGH'' ''High'')) = Some (ex_pair ''HIGH'' ''High'')"
proof -
  have "json_Unmarshal (Marshal_json (ex_pair ''HIGH'' ''High'')) = Some (ex_pair ''HIGH'' ''High'')"
    by (rule written_back) (simp_all add: ex_pair_def ex_vuln_def byte_def max_nesting_def)
  then show ?thesis by (simp add: Unmarshal_any_def ex_pair_def ex_vuln_def)
qed

end
