(* ===== verification/Scanner_Trivy.thy ===== *)
theory Scanner_Trivy
  imports Scanner_Driver
begin

text \<open>
  The Trivy driver: \<open>internal/scanners/trivy/scanner.go\<close>. The report is decoded into structs, so
  a field of the wrong type anywhere in it is an error of the scan.
\<close>

section \<open>The report\<close>

record trivyVulnerability =
  tv_VulnerabilityID :: string
  tv_PkgName :: string
  tv_InstalledVersion :: string
  tv_FixedVersion :: string
  tv_Severity :: string
  tv_Title :: string
  tv_Description :: string
  tv_PrimaryURL :: string

record trivyResult =
  tr_Target :: string
  tr_Type :: string
  tr_Vulnerabilities :: "trivyVulnerability list"

record trivyReport =
  tp_Results :: "trivyResult list"

definition zero_trivyVulnerability :: trivyVulnerability where
  "zero_trivyVulnerability = \<lparr>tv_VulnerabilityID = [], tv_PkgName = [], tv_InstalledVersion = [], tv_FixedVersion = [], tv_Severity = [], tv_Title = [], tv_Description = [], tv_PrimaryURL = []\<rparr>"

definition decode_trivyVulnerability :: "json \<Rightarrow> trivyVulnerability \<Rightarrow> trivyVulnerability option" where
  "decode_trivyVulnerability = decode_struct
     [string_field ''VulnerabilityID'' tv_VulnerabilityID (\<lambda>s v. v\<lparr>tv_VulnerabilityID := s\<rparr>),
      string_field ''PkgName'' tv_PkgName (\<lambda>s v. v\<lparr>tv_PkgName := s\<rparr>),
      string_field ''InstalledVersion'' tv_InstalledVersion (\<lambda>s v. v\<lparr>tv_InstalledVersion := s\<rparr>),
      string_field ''FixedVersion'' tv_FixedVersion (\<lambda>s v. v\<lparr>tv_FixedVersion := s\<rparr>),
      string_field ''Severity'' tv_Severity (\<lambda>s v. v\<lparr>tv_Severity := s\<rparr>),
      string_field ''Title'' tv_Title (\<lambda>s v. v\<lparr>tv_Title := s\<rparr>),
      string_field ''Description'' tv_Description (\<lambda>s v. v\<lparr>tv_Description := s\<rparr>),
      string_field ''PrimaryURL'' tv_PrimaryURL (\<lambda>s v. v\<lparr>tv_PrimaryURL := s\<rparr>)]"

definition decode_trivyResult :: "json \<Rightarrow> trivyResult \<Rightarrow> trivyResult option" where
  "decode_trivyResult = decode_struct
     [string_field ''Target'' tr_Target (\<lambda>s v. v\<lparr>tr_Target := s\<rparr>),
      string_field ''Type'' tr_Type (\<lambda>s v. v\<lparr>tr_Type := s\<rparr>),
      slice_field ''Vulnerabilities'' decode_trivyVulnerability zero_trivyVulnerability
        (\<lambda>xs v. v\<lparr>tr_Vulnerabilities := xs\<rparr>)]"

definition decode_trivyReport :: "json \<Rightarrow> trivyReport \<Rightarrow> trivyReport option" where
  "decode_trivyReport = decode_struct
     [slice_field ''Results'' decode_trivyResult \<lparr>tr_Target = [], tr_Type = [], tr_Vulnerabilities = []\<rparr>
        (\<lambda>xs v. v\<lparr>tp_Results := xs\<rparr>)]"

section \<open>Its findings\<close>

definition normalizeCVE :: "string \<Rightarrow> string" where
  "normalizeCVE vulnerabilityID =
     (if length vulnerabilityID < 4 then []
      else if take 4 vulnerabilityID \<noteq> ''CVE-'' then []
      else vulnerabilityID)"

definition trivy_finding :: "trivyVulnerability \<Rightarrow> finding" where
  "trivy_finding vuln =
     \<lparr>f_ID = tv_VulnerabilityID vuln, f_CVE = normalizeCVE (tv_VulnerabilityID vuln), f_Package = tv_PkgName vuln,
      f_Installed = tv_InstalledVersion vuln, f_Fixed = tv_FixedVersion vuln,
      f_Severity = severity_or_unknown (tv_Severity vuln), f_Title = tv_Title vuln, f_URL = tv_PrimaryURL vuln,
      f_Exploitable = False, f_FixAvailable = (tv_FixedVersion vuln \<noteq> []), f_ScannerAttribution = ''trivy'',
      f_RiskHints = zero_hints\<rparr>"

fun trivy_results :: "trivyResult list \<Rightarrow> scan_result \<Rightarrow> scan_result" where
  "trivy_results [] r = r"
| "trivy_results (res # rs) r = trivy_results rs (add_findings trivy_finding (tr_Vulnerabilities res) r)"

text \<open>The text of an error of encoding/json is a parameter of the parsers.\<close>

definition trivy_parseResult :: "go_error \<Rightarrow> string \<Rightarrow> image_ref \<Rightarrow> scan_result result" where
  "trivy_parseResult json_err data img =
     (case Option.bind (json_Unmarshal data) (\<lambda>v. decode_trivyReport v \<lparr>tp_Results = []\<rparr>) of
        None \<Rightarrow> Inl (ErrWrap ''unmarshal json: '' json_err [])
      | Some report \<Rightarrow> Inr (trivy_results (tp_Results report) (empty_result img)))"

definition trivy_Scan ::
    "'w exec \<Rightarrow> ('w \<Rightarrow> time) \<Rightarrow> (string \<Rightarrow> go_error) \<Rightarrow> command_scanner \<Rightarrow> 'w \<Rightarrow> duration option \<Rightarrow> image_ref \<Rightarrow>
     scan_result result \<times> 'w" where
  "trivy_Scan exec now json_err s w timeout img =
     scan_output ''trivy'' now (\<lambda>data. trivy_parseResult (json_err data) data img)
       (Run (cs_runner s) exec w timeout (cs_binary s) [''image'', ''--format'', ''json'', img_Resolved img])"

section \<open>Lemmas\<close>

lemma trivy_results_eq:
  "sr_Summary r = summary_of (sr_Findings r) \<Longrightarrow>
   trivy_results rs r =
     (let fs = sr_Findings r @ map trivy_finding (concat (map tr_Vulnerabilities rs))
      in r\<lparr>sr_Summary := summary_of fs, sr_Findings := fs\<rparr>)"
  by (induction rs arbitrary: r) (simp_all add: Let_def add_findings_eq)

text \<open>The findings of a report, one for each vulnerability and in their order.\<close>

lemma trivy_parse_findings:
  assumes "trivy_parseResult json_err data img = Inr r"
  shows "\<exists>report. Option.bind (json_Unmarshal data) (\<lambda>v. decode_trivyReport v \<lparr>tp_Results = []\<rparr>) = Some report \<and>
    r = (let fs = map trivy_finding (concat (map tr_Vulnerabilities (tp_Results report)))
         in (empty_result img)\<lparr>sr_Summary := summary_of fs, sr_Findings := fs\<rparr>)"
  using assms by (auto simp: trivy_parseResult_def trivy_results_eq Let_def empty_result_def split: option.splits)

lemma trivy_parse_normalised: "trivy_parseResult json_err data img = Inr r \<Longrightarrow> normalised ''trivy'' r \<and> sr_Image r = img"
  by (drule trivy_parse_findings)
    (auto simp: Let_def normalised_def list_all_iff trivy_finding_def empty_result_def)

interpretation trivy_parser: output_parser "''trivy''" "\<lambda>img data. trivy_parseResult (json_err data) data img" for json_err
  by unfold_locales (rule trivy_parse_normalised)

definition ex_trivy_tree :: json where
  "ex_trivy_tree = JObj [(''Results'', JArr [JObj [(''Target'', JStr ''nginx''),
     (''Vulnerabilities'', JArr [JObj [(''VulnerabilityID'', JStr ''CVE-2024-1''), (''Severity'', JStr ''HIGH''),
        (''FixedVersion'', JStr ''1.2'')], JObj [(''VulnerabilityID'', JStr ''GHSA-1''), (''Severity'', JStr ''odd'')]])]])]"

lemma ex_trivy_read: "json_Unmarshal (Marshal_json ex_trivy_tree) = Some ex_trivy_tree"
  by (rule written_back) (simp_all add: ex_trivy_tree_def byte_def max_nesting_def)

lemma ex_trivy_parsed:
  "map_sum id (\<lambda>r. (sr_Summary r, map f_CVE (sr_Findings r)))
     (trivy_parseResult ErrCanceled (Marshal_json ex_trivy_tree) zero_image) =
     Inr (\<lparr>Critical = 0, High = 1, Medium = 0, Low = 0, Unknown = 1\<rparr>, [''CVE-2024-1'', []])"
  unfolding trivy_parseResult_def ex_trivy_read by code_simp

end
