(* ===== verification/Scanner_Snyk.thy ===== *)
theory Scanner_Snyk
  imports Scanner_Driver
begin

text \<open>
  The Snyk driver: \<open>internal/scanners/snyk/scanner.go\<close>. The report is one object or a list of
  them, decoded into structs.
\<close>

section \<open>The report\<close>

record vulnerability =
  sv_ID :: string
  sv_PackageName :: string
  sv_Name :: string
  sv_Version :: string
  sv_Severity :: string
  sv_Title :: string
  sv_FixedIn :: "string list"
  sv_Identifiers :: "(string \<times> string list) list"
  sv_References :: "string list"
  sv_URL :: string

record application =
  sa_Vulnerabilities :: "vulnerability list"

record report =
  sn_Vulnerabilities :: "vulnerability list"
  sn_Applications :: "application list"

definition zero_vulnerability :: vulnerability where
  "zero_vulnerability = \<lparr>sv_ID = [], sv_PackageName = [], sv_Name = [], sv_Version = [], sv_Severity = [],
     sv_Title = [], sv_FixedIn = [], sv_Identifiers = [], sv_References = [], sv_URL = []\<rparr>"

definition zero_report :: report where
  "zero_report = \<lparr>sn_Vulnerabilities = [], sn_Applications = []\<rparr>"

definition decode_vulnerability :: "json \<Rightarrow> vulnerability \<Rightarrow> vulnerability option" where
  "decode_vulnerability = decode_struct
     [string_field ''id'' sv_ID (\<lambda>s v. v\<lparr>sv_ID := s\<rparr>),
      string_field ''packageName'' sv_PackageName (\<lambda>s v. v\<lparr>sv_PackageName := s\<rparr>),
      string_field ''name'' sv_Name (\<lambda>s v. v\<lparr>sv_Name := s\<rparr>),
      string_field ''version'' sv_Version (\<lambda>s v. v\<lparr>sv_Version := s\<rparr>),
      string_field ''severity'' sv_Severity (\<lambda>s v. v\<lparr>sv_Severity := s\<rparr>),
      string_field ''title'' sv_Title (\<lambda>s v. v\<lparr>sv_Title := s\<rparr>),
      slice_field ''fixedIn'' dec_string [] (\<lambda>xs v. v\<lparr>sv_FixedIn := xs\<rparr>),
      (''identifiers'', \<lambda>j v. map_option (\<lambda>m. v\<lparr>sv_Identifiers := m\<rparr>) (decode_map j (sv_Identifiers v))),
      slice_field ''references'' dec_string [] (\<lambda>xs v. v\<lparr>sv_References := xs\<rparr>),
      string_field ''url'' sv_URL (\<lambda>s v. v\<lparr>sv_URL := s\<rparr>)]"

definition decode_application :: "json \<Rightarrow> application \<Rightarrow> application option" where
  "decode_application = decode_struct
     [slice_field ''vulnerabilities'' decode_vulnerability zero_vulnerability (\<lambda>xs v. v\<lparr>sa_Vulnerabilities := xs\<rparr>)]"

definition decode_report :: "json \<Rightarrow> report \<Rightarrow> report option" where
  "decode_report = decode_struct
     [slice_field ''vulnerabilities'' decode_vulnerability zero_vulnerability (\<lambda>xs v. v\<lparr>sn_Vulnerabilities := xs\<rparr>),
      slice_field ''applications'' decode_application \<lparr>sa_Vulnerabilities = []\<rparr> (\<lambda>xs v. v\<lparr>sn_Applications := xs\<rparr>)]"

section \<open>Its findings\<close>

definition snyk_key :: "vulnerability \<Rightarrow> string" where
  "snyk_key vuln = Join [sv_ID vuln, sv_PackageName vuln, sv_Name vuln, sv_Version vuln] ''|''"

definition dedupeVulnerabilities :: "vulnerability list \<Rightarrow> vulnerability list" where
  "dedupeVulnerabilities vulns = dedupe snyk_key [] vulns"

definition collectVulnerabilities :: "report list \<Rightarrow> vulnerability list" where
  "collectVulnerabilities reports =
     dedupeVulnerabilities (concat (map (\<lambda>rep. sn_Vulnerabilities rep @
       concat (map sa_Vulnerabilities (sn_Applications rep))) reports))"

definition firstIdentifier :: "(string \<times> string list) list \<Rightarrow> string \<Rightarrow> string" where
  "firstIdentifier identifiers key = firstString (case map_of identifiers key of Some vs \<Rightarrow> vs | None \<Rightarrow> [])"

definition parseReports :: "string \<Rightarrow> vulnerability list result" where
  "parseReports data =
     (case Option.bind (json_Unmarshal data) (\<lambda>v. decode_report v zero_report) of
        Some single \<Rightarrow> Inr (collectVulnerabilities [single])
      | None \<Rightarrow>
          (case Option.bind (json_Unmarshal data) (decode_slice decode_report zero_report) of
             Some multiple \<Rightarrow> Inr (collectVulnerabilities multiple)
           | None \<Rightarrow> Inl (ErrNew ''unmarshal json'')))"

definition snyk_finding :: "vulnerability \<Rightarrow> finding" where
  "snyk_finding vuln =
     (let packageName = (if sv_PackageName vuln = [] then sv_Name vuln else sv_PackageName vuln);
          fixedVersion = firstString (sv_FixedIn vuln)
      in \<lparr>f_ID = sv_ID vuln, f_CVE = firstIdentifier (sv_Identifiers vuln) ''CVE'', f_Package = packageName,
          f_Installed = sv_Version vuln, f_Fixed = fixedVersion, f_Severity = severity_or_unknown (sv_Severity vuln),
          f_Title = sv_Title vuln, f_URL = firstNonEmpty [sv_URL vuln, firstString (sv_References vuln)],
          f_Exploitable = False, f_FixAvailable = (fixedVersion \<noteq> []), f_ScannerAttribution = ''snyk'',
          f_RiskHints = zero_hints\<rparr>)"

definition snyk_parseResult :: "string \<Rightarrow> image_ref \<Rightarrow> scan_result result" where
  "snyk_parseResult data img =
     (case parseReports data of
        Inl err \<Rightarrow> Inl err
      | Inr findings \<Rightarrow> Inr (add_findings snyk_finding findings (empty_result img)))"

definition snyk_Scan ::
    "'w exec \<Rightarrow> ('w \<Rightarrow> time) \<Rightarrow> command_scanner \<Rightarrow> 'w \<Rightarrow> duration option \<Rightarrow> image_ref \<Rightarrow> scan_result result \<times> 'w" where
  "snyk_Scan exec now s w timeout img =
     scan_output ''snyk'' now (\<lambda>data. snyk_parseResult data img)
       (RunAllowExitCodes (cs_runner s) exec w timeout [1] (cs_binary s)
          [''container'', ''test'', ''--json'', img_Resolved img])"

section \<open>Lemmas\<close>

lemma snyk_parse_normalised: "snyk_parseResult data img = Inr r \<Longrightarrow> normalised ''snyk'' r \<and> sr_Image r = img"
  using normalised_findings [of snyk_finding "''snyk''"]
  by (auto simp: snyk_parseResult_def snyk_finding_def Let_def split: sum.splits)

interpretation snyk_parser: output_parser "''snyk''" "\<lambda>img data. snyk_parseResult data img"
  by unfold_locales (rule snyk_parse_normalised)

section \<open>Properties\<close>

text \<open>All the vulnerabilities of some reports, in the order in which the driver reads them.\<close>

definition all_vulnerabilities :: "report list \<Rightarrow> vulnerability list" where
  "all_vulnerabilities reports =
     concat (map (\<lambda>rep. sn_Vulnerabilities rep @ concat (map sa_Vulnerabilities (sn_Applications rep))) reports)"

text \<open>Of the vulnerabilities of an image and of its applications Snyk's driver keeps one for each
  identity, package, name and version: the first. None is lost: the keys kept are the keys
  there are.\<close>

theorem snyk_keeps_first:
  "distinct (map snyk_key (collectVulnerabilities reports)) \<and>
   snyk_key ` set (collectVulnerabilities reports) = snyk_key ` set (all_vulnerabilities reports) \<and>
   list_all (\<lambda>v. find (\<lambda>u. snyk_key u = snyk_key v) (all_vulnerabilities reports) = Some v) (collectVulnerabilities reports)"
  unfolding collectVulnerabilities_def dedupeVulnerabilities_def all_vulnerabilities_def [symmetric] list_all_iff
  using distinct_dedupe_keys set_dedupe_keys [of snyk_key "[]" "all_vulnerabilities reports"] dedupe_first by fastforce

text \<open>Snyk writes one report, or a list when it tested several projects; the driver reads a list
  of one report as it reads the report.\<close>

theorem snyk_single_or_list:
  assumes "json_Unmarshal data = Some v" "json_Unmarshal data' = Some (JArr [v])" "decode_report v zero_report = Some rep"
  shows "parseReports data' = parseReports data \<and> parseReports data = Inr (collectVulnerabilities [rep])"
proof -
  have "decode_report (JArr [v]) zero_report = None" by (simp add: decode_report_def decode_struct_def)
  then show ?thesis using assms by (simp add: parseReports_def decode_slice_def)
qed

definition ex_snyk_tree :: json where
  "ex_snyk_tree = JObj [(''vulnerabilities'', JArr [JObj [(''id'', JStr ''S1''), (''severity'', JStr ''high'')]])]"

lemma ex_snyk_read:
  "json_Unmarshal (Marshal_json ex_snyk_tree) = Some ex_snyk_tree"
  "json_Unmarshal (Marshal_json (JArr [ex_snyk_tree])) = Some (JArr [ex_snyk_tree])"
  by (rule written_back; simp add: ex_snyk_tree_def byte_def max_nesting_def)+

lemma ex_snyk_decoded:
  "decode_report ex_snyk_tree zero_report = Some \<lparr>sn_Vulnerabilities =
     [zero_vulnerability\<lparr>sv_ID := ''S1'', sv_Severity := ''high''\<rparr>], sn_Applications = []\<rparr>"
  by code_simp

theorem snyk_single_or_list_witness:
  "parseReports (Marshal_json (JArr [ex_snyk_tree])) = parseReports (Marshal_json ex_snyk_tree)"
  using snyk_single_or_list [OF ex_snyk_read ex_snyk_decoded] by (rule conjunct1)

end
