(* ===== verification/Scanner_Wiz.thy ===== *)
theory Scanner_Wiz
  imports Scanner_Driver Publisher
begin

text \<open>
  The Wiz driver: \<open>internal/scanners/wiz/scanner.go\<close>. The report is decoded into a tree, and every
  object in it that looks like a vulnerability is one. The order in which the walk meets the
  members of an object is that of the tree; the driver gets the tree in an order that the run
  time chose, which is a parameter.
\<close>

section \<open>The objects\<close>

definition wiz_id :: "json_map \<Rightarrow> string" where
  "wiz_id vuln = firstNonEmpty [field vuln ''id'', field vuln ''vulnerabilityId'', field vuln ''issueId'']"

definition wiz_package :: "json_map \<Rightarrow> string" where
  "wiz_package vuln = firstNonEmpty [field vuln ''packageName'', field vuln ''package'', field vuln ''name'']"

definition wiz_installed :: "json_map \<Rightarrow> string" where
  "wiz_installed vuln = firstNonEmpty [field vuln ''installedVersion'', field vuln ''version'']"

definition wiz_looksLikeVulnerability :: "json_map \<Rightarrow> bool" where
  "wiz_looksLikeVulnerability v \<longleftrightarrow> ToLower (field v ''severity'') \<noteq> [] \<and>
     firstNonEmpty [field v ''id'', field v ''vulnerabilityId'', field v ''issueId'', field v ''title'', field v ''name''] \<noteq> []"

definition wiz_key :: "json_map \<Rightarrow> string" where
  "wiz_key vuln = Join [wiz_id vuln, wiz_package vuln, wiz_installed vuln, ToLower (field vuln ''severity'')] ''|''"

definition wiz_dedupeByFingerprint :: "json_map list \<Rightarrow> json_map list" where
  "wiz_dedupeByFingerprint vulns = dedupe wiz_key [] vulns"

definition wiz_collectVulnerabilityObjects :: "json \<Rightarrow> json_map list" where
  "wiz_collectVulnerabilityObjects payload = wiz_dedupeByFingerprint (walk wiz_looksLikeVulnerability payload)"

definition is_cve :: "string \<Rightarrow> bool" where
  "is_cve value = HasPrefix (ToUpper value) ''CVE-''"

definition cveFromIdentifierValue :: "json \<Rightarrow> string" where
  "cveFromIdentifierValue raw =
     (let fallback = (if is_cve (toString raw) then toString raw else [])
      in case raw of
           JArr (item # _) \<Rightarrow> if is_cve (toString item) then toString item else fallback
         | _ \<Rightarrow> fallback)"

fun cve_of_members :: "json_map \<Rightarrow> string" where
  "cve_of_members [] = []"
| "cve_of_members ((key, raw) # ms) =
     (if \<not> EqualFold key ''CVE'' then cve_of_members ms
      else let value = cveFromIdentifierValue raw
           in if value \<noteq> [] then value else cve_of_members ms)"

text \<open>The second range over a map chooses its order anew, so it is a parameter of its own.\<close>

type_synonym map_range = "json_map \<Rightarrow> json_map"

definition cveFromIdentifiers :: "map_range \<Rightarrow> json \<Rightarrow> string" where
  "cveFromIdentifiers visit identifiers =
     (case identifiers of JObj m \<Rightarrow> cve_of_members (visit m) | _ \<Rightarrow> [])"

definition wiz_firstCVE :: "map_range \<Rightarrow> json_map \<Rightarrow> string" where
  "wiz_firstCVE visit v =
     (if is_cve (field v ''cve'') then field v ''cve''
      else if is_cve (field v ''cveId'') then field v ''cveId''
      else cveFromIdentifiers visit (at_key v ''identifiers''))"

definition wiz_finding :: "map_range \<Rightarrow> json_map \<Rightarrow> finding" where
  "wiz_finding visit vuln =
     (let id = wiz_id vuln;
          cve = wiz_firstCVE visit vuln;
          cve = (if cve = [] \<and> is_cve id then id else cve);
          fixedVersion = firstNonEmpty [field vuln ''fixedVersion'', field vuln ''fixVersion'']
      in \<lparr>f_ID = id, f_CVE = cve, f_Package = wiz_package vuln, f_Installed = wiz_installed vuln,
          f_Fixed = fixedVersion, f_Severity = severity_or_unknown (field vuln ''severity''),
          f_Title = firstNonEmpty [field vuln ''title'', field vuln ''name'', id],
          f_URL = firstNonEmpty [field vuln ''url'', field vuln ''link''],
          f_Exploitable = False, f_FixAvailable = (fixedVersion \<noteq> []), f_ScannerAttribution = ''wiz'',
          f_RiskHints = zero_hints\<rparr>)"

definition wiz_parseResult ::
    "(json \<Rightarrow> json) \<Rightarrow> map_range \<Rightarrow> go_error \<Rightarrow> string \<Rightarrow> image_ref \<Rightarrow> scan_result result" where
  "wiz_parseResult order visit json_err data img =
     (case Unmarshal_any data of
        None \<Rightarrow> Inl (ErrWrap ''unmarshal json: '' json_err [])
      | Some payload \<Rightarrow>
          Inr (add_findings (wiz_finding visit) (wiz_collectVulnerabilityObjects (order payload)) (empty_result img)))"

definition wiz_Scan ::
    "'w exec \<Rightarrow> ('w \<Rightarrow> time) \<Rightarrow> (json \<Rightarrow> json) \<Rightarrow> map_range \<Rightarrow> (string \<Rightarrow> go_error) \<Rightarrow> command_scanner \<Rightarrow> 'w \<Rightarrow>
     duration option \<Rightarrow> image_ref \<Rightarrow> scan_result result \<times> 'w" where
  "wiz_Scan exec now order visit json_err s w timeout img =
     scan_output ''wiz'' now (\<lambda>data. wiz_parseResult order visit (json_err data) data img)
       (RunAllowExitCodes (cs_runner s) exec w timeout [1] (cs_binary s)
          [''scan'', ''container-image'', img_Resolved img, ''--stdout'', ''json'', ''--no-style'', ''--no-color''])"

section \<open>Lemmas\<close>

lemma wiz_parse_normalised: "wiz_parseResult order visit json_err data img = Inr r \<Longrightarrow> normalised ''wiz'' r \<and> sr_Image r = img"
  using normalised_findings [of "wiz_finding visit" "''wiz''"]
  by (auto simp: wiz_parseResult_def wiz_finding_def Let_def split: option.splits)

interpretation wiz_parser: output_parser "''wiz''" "\<lambda>img data. wiz_parseResult order visit (json_err data) data img" for order visit json_err
  by unfold_locales (rule wiz_parse_normalised)

section \<open>Properties\<close>

lemma ex_pair_wiz:
  "map_sum id (\<lambda>r. ShouldPublish r \<lparr>MinimumSeverity = ''high'', IncludeTopFindings = 5, PublishCleanScans = False\<rparr>)
     (wiz_parseResult (\<lambda>j. j) (\<lambda>m. m) ErrCanceled (Marshal_json (ex_pair ''HIGH'' ''High'')) zero_image) = Inr True"
  "map_sum id (\<lambda>r. ShouldPublish r \<lparr>MinimumSeverity = ''high'', IncludeTopFindings = 5, PublishCleanScans = False\<rparr>)
     (wiz_parseResult swap_members (\<lambda>m. m) ErrCanceled (Marshal_json (ex_pair ''HIGH'' ''High'')) zero_image) = Inr False"
  unfolding wiz_parseResult_def ex_pair_read by code_simp+

text \<open>C30: The result of a Wiz scan can depend on the order in which Go happens to visit a map. The
  key of a vulnerability has its severity in lower case, its count goes by the text as it is
  written: of one vulnerability spelled HIGH and High the first met decides whether the
  summary has a high finding, and so whether the result is published. One report, two runs,
  and only one of them publishes.\<close>

theorem wiz_publication_depends_on_order:
  "\<exists>data img opts r r'. wiz_parseResult (\<lambda>j. j) (\<lambda>m. m) ErrCanceled data img = Inr r \<and>
     wiz_parseResult swap_members (\<lambda>m. m) ErrCanceled data img = Inr r' \<and>
     map_option (\<lambda>j. reordered j (swap_members j)) (Unmarshal_any data) = Some True \<and>
     ShouldPublish r opts \<and> \<not> ShouldPublish r' opts"
proof -
  let ?data = "Marshal_json (ex_pair ''HIGH'' ''High'')"
  let ?opts = "\<lparr>MinimumSeverity = ''high'', IncludeTopFindings = 5, PublishCleanScans = False\<rparr>"
  obtain r where r: "wiz_parseResult (\<lambda>j. j) (\<lambda>m. m) ErrCanceled ?data zero_image = Inr r" "ShouldPublish r ?opts"
    using ex_pair_wiz(1) by (cases "wiz_parseResult (\<lambda>j. j) (\<lambda>m. m) ErrCanceled ?data zero_image") auto
  obtain r' where r': "wiz_parseResult swap_members (\<lambda>m. m) ErrCanceled ?data zero_image = Inr r'" "\<not> ShouldPublish r' ?opts"
    using ex_pair_wiz(2) by (cases "wiz_parseResult swap_members (\<lambda>m. m) ErrCanceled ?data zero_image") auto
  have "map_option (\<lambda>j. reordered j (swap_members j)) (Unmarshal_any ?data) = Some True"
    by (simp add: ex_pair_read reordered_swap)
  then show ?thesis using r r' by blast
qed

end
