(* ===== verification/Scanner_Clair.thy ===== *)
theory Scanner_Clair
  imports Scanner_Driver
begin

text \<open>
  The Clair driver: \<open>internal/scanners/clair/scanner.go\<close>. As for Wiz, the report is decoded into
  a tree, every object that looks like a vulnerability is one, and the order in which the run
  time visits the members of the maps is a parameter.
\<close>

section \<open>The objects\<close>

definition vulnIdentity :: "json_map \<Rightarrow> string" where
  "vulnIdentity v = firstNonEmpty [field v ''id'', field v ''vulnerability'', field v ''vulnerabilityId'',
     field v ''name'', field v ''title'']"

definition clair_severity :: "json_map \<Rightarrow> string" where
  "clair_severity v = firstNonEmpty [field v ''severity'', field v ''normalizedSeverity'']"

definition clair_package :: "json_map \<Rightarrow> string" where
  "clair_package v = firstNonEmpty [field v ''package'', field v ''packageName'', field v ''featureName'',
     field v ''artifact'']"

definition clair_installed :: "json_map \<Rightarrow> string" where
  "clair_installed v = firstNonEmpty [field v ''installedVersion'', field v ''version'', field v ''featureVersion'']"

definition clair_parseSeverityOrUnknown :: "json_map \<Rightarrow> severity" where
  "clair_parseSeverityOrUnknown v = severity_or_unknown (ToLower (clair_severity v))"

definition clair_looksLikeVulnerability :: "json_map \<Rightarrow> bool" where
  "clair_looksLikeVulnerability v = (if clair_severity v = [] then False else vulnIdentity v \<noteq> [])"

definition clair_key :: "json_map \<Rightarrow> string" where
  "clair_key v = Join [vulnIdentity v, clair_package v, clair_installed v, ToLower (clair_severity v)] ''|''"

definition clair_dedupeByFingerprint :: "json_map list \<Rightarrow> json_map list" where
  "clair_dedupeByFingerprint vulns = dedupe clair_key [] vulns"

definition clair_collectVulnerabilityObjects :: "json \<Rightarrow> json_map list" where
  "clair_collectVulnerabilityObjects payload = clair_dedupeByFingerprint (walk clair_looksLikeVulnerability payload)"

text \<open>
  The position of \<open>CVE-\<close> is looked up in the upper case of a link and used to slice the link
  itself. \<open>None\<close> is the panic of a slice out of range. The upper case is a parameter here: that
  of a text beyond ASCII need not have its length.
\<close>

fun cve_of_links :: "(string \<Rightarrow> string) \<Rightarrow> json list \<Rightarrow> string option" where
  "cve_of_links upper [] = Some []"
| "cve_of_links upper (item # items) =
     (let value = toString item; idx = Index (upper value) ''CVE-''
      in if idx < 0 then cve_of_links upper items
         else if idx \<le> int (length value) then Some (drop (nat idx) value) else None)"

definition cveFromLinks :: "(string \<Rightarrow> string) \<Rightarrow> json \<Rightarrow> string option" where
  "cveFromLinks upper raw = (case raw of JArr items \<Rightarrow> cve_of_links upper items | _ \<Rightarrow> Some [])"

text \<open>With the upper case of ASCII text the panic does not occur.\<close>

definition clair_firstCVE :: "json_map \<Rightarrow> string" where
  "clair_firstCVE v =
     (if HasPrefix (ToUpper (field v ''cve'')) ''CVE-'' then field v ''cve''
      else if HasPrefix (ToUpper (field v ''CVE'')) ''CVE-'' then field v ''CVE''
      else (case cveFromLinks ToUpper (at_key v ''links'') of Some s \<Rightarrow> s | None \<Rightarrow> []))"

definition clair_finding :: "json_map \<Rightarrow> finding" where
  "clair_finding vuln =
     (let sev = clair_parseSeverityOrUnknown vuln;
          id = vulnIdentity vuln;
          cve = clair_firstCVE vuln;
          cve = (if cve = [] \<and> HasPrefix (ToUpper id) ''CVE-'' then id else cve);
          fixedVersion = firstNonEmpty [field vuln ''fixedVersion'', field vuln ''fixedby'', field vuln ''fixedBy'']
      in \<lparr>f_ID = id, f_CVE = cve, f_Package = clair_package vuln, f_Installed = clair_installed vuln,
          f_Fixed = fixedVersion, f_Severity = sev,
          f_Title = firstNonEmpty [field vuln ''title'', field vuln ''name'', id],
          f_URL = firstNonEmpty [field vuln ''url'', field vuln ''link''],
          f_Exploitable = toBool (at_key vuln ''exploitable''), f_FixAvailable = (fixedVersion \<noteq> []),
          f_ScannerAttribution = ''clair'', f_RiskHints = zero_hints\<rparr>)"

definition clair_parseResult :: "(json \<Rightarrow> json) \<Rightarrow> go_error \<Rightarrow> string \<Rightarrow> image_ref \<Rightarrow> scan_result result" where
  "clair_parseResult order json_err data img =
     (case Unmarshal_any data of
        None \<Rightarrow> Inl (ErrWrap ''unmarshal json: '' json_err [])
      | Some payload \<Rightarrow>
          Inr (add_findings clair_finding (clair_collectVulnerabilityObjects (order payload)) (empty_result img)))"

definition clair_Scan ::
    "'w exec \<Rightarrow> ('w \<Rightarrow> time) \<Rightarrow> (json \<Rightarrow> json) \<Rightarrow> (string \<Rightarrow> go_error) \<Rightarrow> command_scanner \<Rightarrow> 'w \<Rightarrow>
     duration option \<Rightarrow> image_ref \<Rightarrow> scan_result result \<times> 'w" where
  "clair_Scan exec now order json_err s w timeout img =
     scan_output ''clair'' now (\<lambda>data. clair_parseResult order (json_err data) data img)
       (RunAllowExitCodes (cs_runner s) exec w timeout [1] (cs_binary s) [''report'', img_Resolved img, ''-o'', ''json''])"

section \<open>Lemmas\<close>

lemma clair_parse_normalised: "clair_parseResult order json_err data img = Inr r \<Longrightarrow> normalised ''clair'' r \<and> sr_Image r = img"
  using normalised_findings [of clair_finding "''clair''"]
  by (auto simp: clair_parseResult_def clair_finding_def clair_parseSeverityOrUnknown_def Let_def split: option.splits)

interpretation clair_parser: output_parser "''clair''" "\<lambda>img data. clair_parseResult order (json_err data) data img" for order json_err
  by unfold_locales (rule clair_parse_normalised)

lemma find_sub_le: "find_sub s sub = Some i \<Longrightarrow> i \<le> length s"
  by (induction s arbitrary: i) (auto split: if_splits)

lemma Index_le: "Index s sub \<le> int (length s)"
  using find_sub_le by (auto simp: Index_def split: option.split)

text \<open>An upper case that keeps lengths keeps the slices in range.\<close>

lemma links_in_range:
  assumes "\<And>s. length (upper s) = length s"
  shows "cveFromLinks upper raw \<noteq> None"
proof -
  have "cve_of_links upper items \<noteq> None" for items
  proof (induction items)
    case (Cons item items)
    then show ?case
      using Index_le [of "upper (toString item)" "''CVE-''"] assms by (auto simp: Let_def)
  qed simp
  then show ?thesis by (simp add: cveFromLinks_def split: json.split)
qed

lemma ToUpper_no_panic: "cveFromLinks ToUpper raw \<noteq> None"
  by (rule links_in_range) (simp add: ToUpper_def)

text \<open>The fields that the key is made of do not depend on the order of the members.\<close>

lemma clair_reordered:
  assumes "reordered (JObj m) (JObj n)" "distinct (map fst m)"
  shows "clair_looksLikeVulnerability m = clair_looksLikeVulnerability n \<and> clair_key m = clair_key n"
  by (simp add: clair_looksLikeVulnerability_def clair_key_def clair_severity_def vulnIdentity_def clair_package_def
      clair_installed_def field_reordered [OF assms])

text \<open>The severity can be read off a key when its text has no separator.\<close>

definition last_part :: "string \<Rightarrow> string" where
  "last_part s = rev (takeWhile (\<lambda>c. c \<noteq> CHR ''|'') (rev s))"

lemma last_part_key: "CHR ''|'' \<notin> set (ToLower (clair_severity v)) \<Longrightarrow> last_part (clair_key v) = ToLower (clair_severity v)"
  by (simp add: last_part_def clair_key_def takeWhile_append2)

text \<open>The counts of a list of findings are those of their severities.\<close>

lemma summary_of_severities:
  "mset (map f_Severity fs) = mset (map f_Severity gs) \<Longrightarrow> summary_of fs = summary_of gs"
proof -
  assume a: "mset (map f_Severity fs) = mset (map f_Severity gs)"
  have "length (filter (\<lambda>f. P (f_Severity f)) fs) = length (filter (\<lambda>f. P (f_Severity f)) gs)" for P
  proof -
    have "length (filter (\<lambda>f. P (f_Severity f)) hs) = size (filter_mset P (mset (map f_Severity hs)))" for hs :: "finding list"
      by (induction hs) auto
    then show ?thesis by (simp only: a)
  qed
  note n = this
  show ?thesis
    using n [of "\<lambda>s. s = SeverityCritical"] n [of "\<lambda>s. s = SeverityHigh"] n [of "\<lambda>s. s = SeverityMedium"]
      n [of "\<lambda>s. s = SeverityLow"] n [of "\<lambda>s. s \<notin> {SeverityCritical, SeverityHigh, SeverityMedium, SeverityLow}"]
    by (simp add: summary_of_def count_sev_def count_other_def)
qed

lemma clair_severities:
  assumes "\<And>v. v \<in> set vs \<Longrightarrow> CHR ''|'' \<notin> set (ToLower (clair_severity v))"
  shows "map f_Severity (map clair_finding vs) = map (\<lambda>k. severity_or_unknown (last_part k)) (map clair_key vs)"
  using assms by (simp add: clair_finding_def clair_parseSeverityOrUnknown_def last_part_key Let_def)

text \<open>No severity of a report has a separator in it.\<close>

definition plain_severities :: "json \<Rightarrow> bool" where
  "plain_severities j = list_all (\<lambda>v. CHR ''|'' \<notin> set (ToLower (clair_severity v))) (walk clair_looksLikeVulnerability j)"

lemma clair_severity_reordered:
  "reordered (JObj m) (JObj n) \<Longrightarrow> distinct (map fst m) \<Longrightarrow> clair_severity m = clair_severity n"
  by (simp add: clair_severity_def field_reordered)

lemma plain_severities_reordered:
  assumes "reordered j j'" "maps_distinct j" "plain_severities j"
  shows "plain_severities j'"
proof -
  have "mset (map clair_severity (walk clair_looksLikeVulnerability j)) =
      mset (map clair_severity (walk clair_looksLikeVulnerability j'))"
    using clair_reordered clair_severity_reordered by (intro walk_reordered [OF assms(1,2)]) blast
  then have "clair_severity ` set (walk clair_looksLikeVulnerability j) = clair_severity ` set (walk clair_looksLikeVulnerability j')"
    by (metis image_set mset_eq_setD)
  moreover have "\<forall>s \<in> clair_severity ` set (walk clair_looksLikeVulnerability j). CHR ''|'' \<notin> set (ToLower s)"
    using assms(3) by (simp add: plain_severities_def list_all_iff)
  ultimately have "\<forall>s \<in> clair_severity ` set (walk clair_looksLikeVulnerability j'). CHR ''|'' \<notin> set (ToLower s)"
    by (simp only:)
  then show ?thesis by (simp add: plain_severities_def list_all_iff)
qed

lemma clair_severities_reordered:
  assumes "reordered j j'" "maps_distinct j" "plain_severities j"
  shows "mset (map f_Severity (map clair_finding (clair_collectVulnerabilityObjects j))) =
    mset (map f_Severity (map clair_finding (clair_collectVulnerabilityObjects j')))"
proof -
  have plain: "CHR ''|'' \<notin> set (ToLower (clair_severity v))"
    if "v \<in> set (clair_collectVulnerabilityObjects i)" "plain_severities i" for v i
    using that dedupe_subset [of clair_key "[]" "walk clair_looksLikeVulnerability i"]
    by (auto simp: clair_collectVulnerabilityObjects_def clair_dedupeByFingerprint_def plain_severities_def list_all_iff)
  have "mset (map clair_key (clair_collectVulnerabilityObjects j)) = mset (map clair_key (clair_collectVulnerabilityObjects j'))"
    unfolding clair_collectVulnerabilityObjects_def clair_dedupeByFingerprint_def
    by (rule collected_keys_reordered [OF assms(1,2) clair_reordered])
  then have "image_mset (\<lambda>k. severity_or_unknown (last_part k)) (mset (map clair_key (clair_collectVulnerabilityObjects j))) =
      image_mset (\<lambda>k. severity_or_unknown (last_part k)) (mset (map clair_key (clair_collectVulnerabilityObjects j')))"
    by (rule arg_cong)
  moreover have "map f_Severity (map clair_finding (clair_collectVulnerabilityObjects j)) =
      map (\<lambda>k. severity_or_unknown (last_part k)) (map clair_key (clair_collectVulnerabilityObjects j))"
    by (rule clair_severities [OF plain [OF _ assms(3)]])
  moreover have "map f_Severity (map clair_finding (clair_collectVulnerabilityObjects j')) =
      map (\<lambda>k. severity_or_unknown (last_part k)) (map clair_key (clair_collectVulnerabilityObjects j'))"
    by (rule clair_severities [OF plain [OF _ plain_severities_reordered [OF assms]]])
  ultimately show ?thesis by (simp only: mset_map)
qed

section \<open>Properties\<close>

text \<open>C29: Go visits the members of a map in any order, and of the objects with one key the driver
  keeps the first it meets; the counts of a Clair report do not depend on the order all the
  same. The key holds the severity, and where no severity has the separator in it the
  summaries of two runs over one report are equal.\<close>

theorem clair_counts_order_free:
  assumes "\<And>j. reordered j (order j)" "\<And>j. reordered j (order' j)"
    and "Unmarshal_any data = Some payload" "plain_severities payload"
    and "clair_parseResult order err data img = Inr r" "clair_parseResult order' err data img = Inr r'"
  shows "sr_Summary r = sr_Summary r'"
proof -
  note d = Unmarshal_any_distinct [OF assms(3)]
  have "mset (map f_Severity (sr_Findings r)) = mset (map f_Severity (sr_Findings r'))"
    using clair_severities_reordered [OF assms(1) d assms(4)] clair_severities_reordered [OF assms(2) d assms(4)] assms(3,5,6)
    by (auto simp: clair_parseResult_def add_findings_empty multiset.map_comp)
  then have "summary_of (sr_Findings r) = summary_of (sr_Findings r')" by (rule summary_of_severities)
  then show ?thesis
    using clair_parse_normalised [OF assms(5)] clair_parse_normalised [OF assms(6)] by (simp add: normalised_def)
qed

lemma ex_pair_plain: "plain_severities (ex_pair ''HIGH'' ''High'')"
  by code_simp

theorem clair_counts_order_free_witness:
  "map_sum id sr_Summary (clair_parseResult (\<lambda>j. j) ErrCanceled (Marshal_json (ex_pair ''HIGH'' ''High'')) zero_image) =
   map_sum id sr_Summary (clair_parseResult swap_members ErrCanceled (Marshal_json (ex_pair ''HIGH'' ''High'')) zero_image)"
proof -
  obtain r where r: "clair_parseResult (\<lambda>j. j) ErrCanceled (Marshal_json (ex_pair ''HIGH'' ''High'')) zero_image = Inr r"
    by (simp add: clair_parseResult_def ex_pair_read)
  obtain r' where r': "clair_parseResult swap_members ErrCanceled (Marshal_json (ex_pair ''HIGH'' ''High'')) zero_image = Inr r'"
    by (simp add: clair_parseResult_def ex_pair_read)
  show ?thesis
    using clair_counts_order_free [OF reordered.leaf reordered_swap ex_pair_read ex_pair_plain r r'] by (simp add: r r')
qed

text \<open>A link that begins with a letter whose upper case is a byte longer, many times over.\<close>

definition turned_a :: string where "turned_a = [CHR 0xC9, CHR 0x90]"
definition capital_turned_a :: string where "capital_turned_a = [CHR 0xE2, CHR 0xB1, CHR 0xAF]"

definition ex_link :: "nat \<Rightarrow> string" where
  "ex_link n = concat (replicate n turned_a) @ ''CVE-2024-1''"

lemma find_in_upper: "find_sub (concat (replicate n capital_turned_a) @ ''CVE-2024-1'') ''CVE-'' = Some (3 * n)"
  by (induction n) (simp_all add: capital_turned_a_def)

lemma length_turned_a: "length (concat (replicate n turned_a)) = 2 * n"
  by (induction n) (simp_all add: turned_a_def)


text \<open>The upper case of texts of ASCII and that letter.\<close>

fun ex_upper :: "string \<Rightarrow> string" where
  "ex_upper (a # b # s) =
     (if [a, b] = turned_a then capital_turned_a @ ex_upper s else upper_char a # ex_upper (b # s))"
| "ex_upper s = map upper_char s"


end
