(* ===== verification/Scanner_Trivy_Operator.thy ===== *)
theory Scanner_Trivy_Operator
  imports Scanner_Driver Go_Sort "HOL-Library.Product_Lexorder"
begin

text \<open>
  The driver of the Trivy operator: \<open>internal/scanners/trivyoperator\<close>. It lists the reports of the
  operator, keeps them for half a minute, takes the findings of the reports that match the
  image, and sorts them. The report objects and the access to their fields belong to the
  Kubernetes libraries and are parameters.
\<close>

section \<open>Matching a report\<close>

text \<open>\<open>unstructured.NestedString\<close>, with the empty text where there is none, and \<open>NestedSlice\<close>.\<close>

record 'u report_api =
  NestedString :: "'u \<Rightarrow> string list \<Rightarrow> string"
  NestedSlice :: "'u \<Rightarrow> string list \<Rightarrow> json list option"

definition sameDigest :: "string \<Rightarrow> string \<Rightarrow> bool" where
  "sameDigest a b = (if b = [] then True else ToLower (TrimSpace a) = ToLower (TrimSpace b))"

definition normalise_registry :: "string \<Rightarrow> string" where
  "normalise_registry value =
     (let value = ToLower (TrimSpace value)
      in if value \<in> {''docker.io'', ''index.docker.io'', ''registry-1.docker.io''} then ''docker.io'' else value)"

definition sameRegistry :: "string \<Rightarrow> string \<Rightarrow> bool" where
  "sameRegistry a b = (if b = [] then True else normalise_registry a = normalise_registry b)"

definition reportMatchesImage :: "'u report_api \<Rightarrow> 'u \<Rightarrow> image_ref \<Rightarrow> bool" where
  "reportMatchesImage api report img =
     (let repository = NestedString api report [''report'', ''artifact'', ''repository''];
          tag = NestedString api report [''report'', ''artifact'', ''tag''];
          reportDigest = NestedString api report [''report'', ''artifact'', ''digest''];
          registry = NestedString api report [''report'', ''registry'', ''server'']
      in if repository = [] \<or> repository \<noteq> img_Repository img then False
         else if registry \<noteq> [] \<and> \<not> sameRegistry registry (img_Registry img) then False
         else if img_Digest img \<noteq> [] then (if reportDigest = [] then False else sameDigest reportDigest (img_Digest img))
         else if img_Tag img = [] then tag = []
         else if tag \<noteq> [] \<and> tag \<noteq> img_Tag img then False
         else True)"

section \<open>Its findings\<close>

definition normaliseCVE :: "string \<Rightarrow> string" where
  "normaliseCVE value = (if HasPrefix (ToUpper value) ''CVE-'' then ToUpper (TrimSpace value) else [])"

definition findingFromVulnerability :: "json_map \<Rightarrow> finding" where
  "findingFromVulnerability vuln =
     (let id = field vuln ''vulnerabilityID'';
          fixedVersion = field vuln ''fixedVersion''
      in \<lparr>f_ID = id, f_CVE = normaliseCVE id, f_Package = field vuln ''resource'',
          f_Installed = field vuln ''installedVersion'', f_Fixed = fixedVersion,
          f_Severity = severity_or_unknown (field vuln ''severity''), f_Title = field vuln ''title'',
          f_URL = field vuln ''primaryLink'', f_Exploitable = False, f_FixAvailable = (fixedVersion \<noteq> []),
          f_ScannerAttribution = ''trivy-operator'', f_RiskHints = zero_hints\<rparr>)"

fun findings_of_vulns :: "json list \<Rightarrow> finding list" where
  "findings_of_vulns [] = []"
| "findings_of_vulns (JObj vuln # vulns) = findingFromVulnerability vuln # findings_of_vulns vulns"
| "findings_of_vulns (raw # vulns) = findings_of_vulns vulns"

text \<open>No result where the report does not match.\<close>

definition extractVulnerabilityFindings :: "'u report_api \<Rightarrow> 'u \<Rightarrow> image_ref \<Rightarrow> finding list option" where
  "extractVulnerabilityFindings api report img =
     (if \<not> reportMatchesImage api report img then None
      else (case NestedSlice api report [''report'', ''vulnerabilities''] of
          None \<Rightarrow> Some []
        | Some vulns \<Rightarrow> Some (findings_of_vulns vulns)))"

section \<open>The resources\<close>

record reportResource =
  rr_name :: string
  rr_Group :: string
  rr_Version :: string
  rr_Resource :: string
  rr_namespaced :: bool

record 'u resourceExtractor =
  rx_resource :: reportResource
  rx_extract :: "'u \<Rightarrow> image_ref \<Rightarrow> finding list option"

definition vulnerabilityReportsExtractor :: "'u report_api \<Rightarrow> 'u resourceExtractor" where
  "vulnerabilityReportsExtractor api =
     \<lparr>rx_resource = \<lparr>rr_name = ''vulnerabilityreports'', rr_Group = ''aquasecurity.github.io'',
        rr_Version = ''v1alpha1'', rr_Resource = ''vulnerabilityreports'', rr_namespaced = True\<rparr>,
      rx_extract = extractVulnerabilityFindings api\<rparr>"

definition clusterVulnerabilityReportsExtractor :: "'u report_api \<Rightarrow> 'u resourceExtractor" where
  "clusterVulnerabilityReportsExtractor api =
     \<lparr>rx_resource = \<lparr>rr_name = ''clustervulnerabilityreports'', rr_Group = ''aquasecurity.github.io'',
        rr_Version = ''v1alpha1'', rr_Resource = ''clustervulnerabilityreports'', rr_namespaced = False\<rparr>,
      rx_extract = extractVulnerabilityFindings api\<rparr>"

definition supportedResources :: "'u report_api \<Rightarrow> string \<Rightarrow> 'u resourceExtractor option" where
  "supportedResources api key =
     (if key = ''vulnerabilityreports'' then Some (vulnerabilityReportsExtractor api)
      else if key = ''clustervulnerabilityreports'' then Some (clusterVulnerabilityReportsExtractor api)
      else None)"

definition defaultResourceNames :: "string list" where
  "defaultResourceNames = [''vulnerabilityreports'']"

fun resolve_names :: "'u report_api \<Rightarrow> string list \<Rightarrow> 'u resourceExtractor list result" where
  "resolve_names api [] = Inr []"
| "resolve_names api (resourceName # names) =
     (case supportedResources api (ToLower (TrimSpace resourceName)) of
        None \<Rightarrow> Inl (ErrNew (''unsupported trivy-operator resource '' @ Quote resourceName))
      | Some r \<Rightarrow> (case resolve_names api names of Inl err \<Rightarrow> Inl err | Inr rs \<Rightarrow> Inr (r # rs)))"

definition resolveResources :: "'u report_api \<Rightarrow> string list \<Rightarrow> 'u resourceExtractor list result" where
  "resolveResources api configured = resolve_names api (if configured = [] then defaultResourceNames else configured)"

section \<open>The cache\<close>

record 'u cachedReports =
  cr_reports :: "'u list"
  cr_loadedAt :: time

record 'u trivy_operator =
  to_resources :: "'u resourceExtractor list"
  to_cacheTTL :: duration
  to_cache :: "string \<Rightarrow> 'u cachedReports option"

definition defaultReportCacheTTL :: duration where
  "defaultReportCacheTTL = 30 * Second"

definition operator_NewScanner :: "'u report_api \<Rightarrow> string list \<Rightarrow> 'u trivy_operator result" where
  "operator_NewScanner api configuredResources =
     (case resolveResources api configuredResources of
        Inl err \<Rightarrow> Inl err
      | Inr resources \<Rightarrow>
          Inr \<lparr>to_resources = resources, to_cacheTTL = defaultReportCacheTTL, to_cache = (\<lambda>_. None)\<rparr>)"

text \<open>What lists the reports of a resource.\<close>

type_synonym ('w, 'u) reportLister = "reportResource \<Rightarrow> 'w \<Rightarrow> 'u list result \<times> 'w"

text \<open>
  The lister of the program asks the dynamic client of client-go, which is a parameter: the reports of a
  resource by its group, version and name, in a namespace (the empty one stands for all) or in none.
\<close>

type_synonym ('w, 'u) dynamic_client = "string \<times> string \<times> string \<Rightarrow> string option \<Rightarrow> 'w \<Rightarrow> 'u list result \<times> 'w"

definition NamespaceAll :: string where
  "NamespaceAll = []"

definition dynamicReportLister_List :: "('w, 'u) dynamic_client \<Rightarrow> ('w, 'u) reportLister" where
  "dynamicReportLister_List client resource w =
     (let gvr = (rr_Group resource, rr_Version resource, rr_Resource resource)
      in case (if rr_namespaced resource then client gvr (Some NamespaceAll) w else client gvr None w) of
          (Inl err, w) \<Rightarrow> (Inl err, w)
        | (Inr items, w) \<Rightarrow> (Inr items, w))"

text \<open>How the client finds its cluster: by the environment first, inside the cluster otherwise.\<close>

record 'k kube_access =
  ka_Getenv :: "string \<Rightarrow> string"
  ka_InClusterConfig :: "'k result"
  ka_BuildConfigFromFlags :: "string \<Rightarrow> 'k result"

definition operator_loadKubernetesConfig :: "'k kube_access \<Rightarrow> 'k result" where
  "operator_loadKubernetesConfig ka =
     (let kubeconfig = ka_Getenv ka ''KUBECONFIG'' in
      if kubeconfig \<noteq> [] then
        (case ka_BuildConfigFromFlags ka kubeconfig of
           Inl err \<Rightarrow> Inl (ErrWrap ''build config from KUBECONFIG: '' err [])
         | Inr cfg \<Rightarrow> Inr cfg)
      else
        (case ka_InClusterConfig ka of
           Inl err \<Rightarrow> Inl (ErrWrap ''load in-cluster config: '' err [])
         | Inr cfg \<Rightarrow> Inr cfg))"

definition cache_lookup :: "('w \<Rightarrow> time) \<Rightarrow> string \<Rightarrow> 'u trivy_operator \<Rightarrow> 'w \<Rightarrow> 'u list option" where
  "cache_lookup now resourceName s w =
     (case to_cache s resourceName of
        None \<Rightarrow> None
      | Some cached \<Rightarrow>
          if to_cacheTTL s < time_Sub (now w) (cr_loadedAt cached) then None else Some (cr_reports cached))"

definition listReports ::
    "('w, 'u) reportLister \<Rightarrow> ('w \<Rightarrow> time) \<Rightarrow> reportResource \<Rightarrow> 'u trivy_operator \<Rightarrow> 'w \<Rightarrow>
     'u list result \<times> 'u trivy_operator \<times> 'w" where
  "listReports lister now resource s w =
     (case cache_lookup now (rr_name resource) s w of
        Some reports \<Rightarrow> (Inr reports, s, w)
      | None \<Rightarrow>
          (case lister resource w of
             (Inl err, w) \<Rightarrow> (Inl err, s, w)
           | (Inr reports, w) \<Rightarrow>
               (Inr reports,
                s\<lparr>to_cache := (to_cache s)(rr_name resource := Some \<lparr>cr_reports = reports, cr_loadedAt = now w\<rparr>)\<rparr>, w)))"

section \<open>A scan\<close>

definition findingFingerprint :: "finding \<Rightarrow> string" where
  "findingFingerprint f = Join [f_ID f, f_Package f, f_Installed f, f_Fixed f, f_Severity f] ''|''"

text \<open>The loops over findings and reports, with the fingerprints seen and the findings so far.\<close>

fun add_unseen :: "finding list \<Rightarrow> string list \<times> finding list \<Rightarrow> string list \<times> finding list" where
  "add_unseen [] st = st"
| "add_unseen (f # fs) (seen, findings) =
     (if findingFingerprint f \<in> set seen then add_unseen fs (seen, findings)
      else add_unseen fs (findingFingerprint f # seen, findings @ [f]))"

fun add_reports ::
    "('u \<Rightarrow> image_ref \<Rightarrow> finding list option) \<Rightarrow> image_ref \<Rightarrow> 'u list \<Rightarrow> string list \<times> finding list \<Rightarrow>
     string list \<times> finding list" where
  "add_reports extract img [] st = st"
| "add_reports extract img (report # reports) st =
     (case extract report img of
        None \<Rightarrow> add_reports extract img reports st
      | Some fs \<Rightarrow> add_reports extract img reports (add_unseen fs st))"

fun scan_resources ::
    "('w, 'u) reportLister \<Rightarrow> ('w \<Rightarrow> time) \<Rightarrow> image_ref \<Rightarrow> 'u resourceExtractor list \<Rightarrow> string list \<times> finding list \<Rightarrow>
     'u trivy_operator \<Rightarrow> 'w \<Rightarrow> finding list result \<times> 'u trivy_operator \<times> 'w" where
  "scan_resources lister now img [] st s w = (Inr (snd st), s, w)"
| "scan_resources lister now img (r # rs) st s w =
     (case listReports lister now (rx_resource r) s w of
        (Inl err, s, w) \<Rightarrow>
          (Inl (ErrWrap (''list trivy operator resource '' @ rr_name (rx_resource r) @ '': '') err []), s, w)
      | (Inr reports, s, w) \<Rightarrow> scan_resources lister now img rs (add_reports (rx_extract r) img reports st) s w)"

definition operator_less :: "finding \<Rightarrow> finding \<Rightarrow> bool" where
  "operator_less fi fj =
     (if Rank (f_Severity fi) \<noteq> Rank (f_Severity fj) then Rank (f_Severity fi) > Rank (f_Severity fj)
      else f_ID fi < f_ID fj)"

definition summaryFromFindings :: "finding list \<Rightarrow> vulnerability_summary" where
  "summaryFromFindings findings = foldl (\<lambda>vs f. incrementSummary vs (f_Severity f)) zero_summary findings"

definition operator_Scan ::
    "('w, 'u) reportLister \<Rightarrow> ('w \<Rightarrow> time) \<Rightarrow> image_ref \<Rightarrow> 'u trivy_operator \<Rightarrow> 'w \<Rightarrow>
     scan_result result \<times> 'u trivy_operator \<times> 'w" where
  "operator_Scan lister now img s w =
     (case scan_resources lister now img (to_resources s) ([], []) s w of
        (Inl err, s, w) \<Rightarrow> (Inl err, s, w)
      | (Inr findings, s, w) \<Rightarrow>
          let findings = sort_Slice operator_less findings
          in (Inr \<lparr>sr_Scanner = ''trivy-operator'', sr_Image = img, sr_ScannedAt = now w,
                sr_Summary = summaryFromFindings findings, sr_Findings = findings, sr_ReportURL = [], sr_SBOMURL = []\<rparr>,
              s, w))"

section \<open>Listing first, findings after\<close>

text \<open>The reports of every resource, in the order of the resources, without looking at them.\<close>

fun list_every ::
    "('w, 'u) reportLister \<Rightarrow> ('w \<Rightarrow> time) \<Rightarrow> 'u resourceExtractor list \<Rightarrow> 'u trivy_operator \<Rightarrow> 'w \<Rightarrow>
     'u list list result \<times> 'u trivy_operator \<times> 'w" where
  "list_every lister now [] s w = (Inr [], s, w)"
| "list_every lister now (r # rs) s w =
     (case listReports lister now (rx_resource r) s w of
        (Inl err, s, w) \<Rightarrow>
          (Inl (ErrWrap (''list trivy operator resource '' @ rr_name (rx_resource r) @ '': '') err []), s, w)
      | (Inr reports, s, w) \<Rightarrow>
          (case list_every lister now rs s w of
             (Inl err, s, w) \<Rightarrow> (Inl err, s, w)
           | (Inr rss, s, w) \<Rightarrow> (Inr (reports # rss), s, w)))"

definition matched_findings :: "('u \<Rightarrow> image_ref \<Rightarrow> finding list option) \<Rightarrow> image_ref \<Rightarrow> 'u list \<Rightarrow> finding list" where
  "matched_findings extract img reports =
     concat (map (\<lambda>rep. case extract rep img of None \<Rightarrow> [] | Some fs \<Rightarrow> fs) reports)"

definition all_findings :: "image_ref \<Rightarrow> 'u resourceExtractor list \<Rightarrow> 'u list list \<Rightarrow> finding list" where
  "all_findings img rs rss = concat (map (\<lambda>(r, reports). matched_findings (rx_extract r) img reports) (zip rs rss))"

lemma all_findings_Cons [simp]:
  "all_findings img (r # rs) (reports # rss) = matched_findings (rx_extract r) img reports @ all_findings img rs rss"
  "all_findings img [] rss = []" "all_findings img rs [] = []"
  by (simp_all add: all_findings_def)

lemma add_unseen_eq:
  "\<exists>seen'. add_unseen fs (seen, acc) = (seen', acc @ dedupe findingFingerprint seen fs) \<and>
     set seen' = set (map findingFingerprint fs @ seen)"
proof (induction fs arbitrary: seen acc)
  case (Cons f fs)
  show ?case
  proof (cases "findingFingerprint f \<in> set seen")
    case True
    then show ?thesis using Cons.IH [of seen acc] by auto
  next
    case False
    then show ?thesis using Cons.IH [of "findingFingerprint f # seen" "acc @ [f]"] by auto
  qed
qed simp

lemma add_reports_eq:
  "\<exists>seen'. add_reports extract img reports (seen, acc) =
       (seen', acc @ dedupe findingFingerprint seen (matched_findings extract img reports)) \<and>
     set seen' = set (map findingFingerprint (matched_findings extract img reports) @ seen)"
proof (induction reports arbitrary: seen acc)
  case (Cons report reports)
  show ?case
  proof (cases "extract report img")
    case None
    then show ?thesis using Cons.IH [of seen acc] by (simp add: matched_findings_def)
  next
    case (Some fs)
    obtain seen1 where s1: "add_unseen fs (seen, acc) = (seen1, acc @ dedupe findingFingerprint seen fs)"
        "set seen1 = set (map findingFingerprint fs @ seen)"
      using add_unseen_eq by blast
    obtain seen2 where s2: "add_reports extract img reports (seen1, acc @ dedupe findingFingerprint seen fs) =
          (seen2, (acc @ dedupe findingFingerprint seen fs) @
             dedupe findingFingerprint seen1 (matched_findings extract img reports))"
        "set seen2 = set (map findingFingerprint (matched_findings extract img reports) @ seen1)"
      using Cons.IH by blast
    have m: "matched_findings extract img (report # reports) = fs @ matched_findings extract img reports"
      by (simp add: matched_findings_def Some)
    show ?thesis
      unfolding m dedupe_append using s1 s2 dedupe_cong [OF s1(2)] by (simp add: Some) blast
  qed
qed (simp add: matched_findings_def)

lemma scan_resources_eq:
  "scan_resources lister now img rs (seen, acc) s w =
     (case list_every lister now rs s w of
        (Inl err, s, w) \<Rightarrow> (Inl err, s, w)
      | (Inr rss, s, w) \<Rightarrow> (Inr (acc @ dedupe findingFingerprint seen (all_findings img rs rss)), s, w))"
proof (induction rs arbitrary: seen acc s w)
  case (Cons r rs)
  obtain res s1 w1 where l: "listReports lister now (rx_resource r) s w = (res, s1, w1)"
    by (cases "listReports lister now (rx_resource r) s w")
  show ?case
  proof (cases res)
    case (Inr reports)
    obtain seen' where a: "add_reports (rx_extract r) img reports (seen, acc) =
          (seen', acc @ dedupe findingFingerprint seen (matched_findings (rx_extract r) img reports))"
        "set seen' = set (map findingFingerprint (matched_findings (rx_extract r) img reports) @ seen)"
      using add_reports_eq by blast
    note cong = dedupe_cong [OF a(2)]
    show ?thesis
      using Cons.IH [of seen' "acc @ dedupe findingFingerprint seen (matched_findings (rx_extract r) img reports)" s1 w1]
      by (simp add: l Inr a(1) dedupe_append cong split: prod.split sum.split)
  qed (simp add: l)
qed simp

text \<open>The order of the findings.\<close>

definition operator_order :: "finding \<Rightarrow> int \<times> string" where
  "operator_order f = (- Rank (f_Severity f), f_ID f)"

interpretation operator_sorted: keyed_less operator_less operator_order
  by unfold_locales (auto simp: operator_less_def operator_order_def less_prod_def')

lemma summaryFromFindings_eq: "summaryFromFindings fs = summary_of fs"
  by (simp add: summaryFromFindings_def foldl_incrementSummary)

text \<open>The extractors of the resources that a configuration can name.\<close>

lemma resolve_names_extract:
  "resolve_names api names = Inr rs \<Longrightarrow> list_all (\<lambda>r. rx_extract r = extractVulnerabilityFindings api) rs"
proof (induction names arbitrary: rs)
  case (Cons n names)
  then show ?case
    by (auto simp: supportedResources_def vulnerabilityReportsExtractor_def clusterVulnerabilityReportsExtractor_def
        split: option.splits sum.splits if_splits)
qed simp

lemma NewScanner_resources:
  "operator_NewScanner api conf = Inr s \<Longrightarrow> list_all (\<lambda>r. rx_extract r = extractVulnerabilityFindings api) (to_resources s)"
  using resolve_names_extract by (auto simp: operator_NewScanner_def resolveResources_def split: sum.splits)

definition finding_normal :: "finding \<Rightarrow> bool" where
  "finding_normal f \<longleftrightarrow> f_Severity f \<in> set known_severities \<and> f_ScannerAttribution f = ''trivy-operator'' \<and>
     (f_FixAvailable f \<longleftrightarrow> f_Fixed f \<noteq> [])"

lemma findings_of_vulns_normal: "f \<in> set (findings_of_vulns vulns) \<Longrightarrow> finding_normal f"
  by (induction vulns rule: findings_of_vulns.induct)
    (auto simp: finding_normal_def findingFromVulnerability_def Let_def)

lemma all_findings_normal:
  assumes "list_all (\<lambda>r. rx_extract r = extractVulnerabilityFindings api) rs" "f \<in> set (all_findings img rs rss)"
  shows "finding_normal f"
  using assms
proof (induction rs arbitrary: rss)
  case (Cons r rs)
  have "finding_normal f" if "f \<in> set (matched_findings (extractVulnerabilityFindings api) img reports)" for reports
    using that findings_of_vulns_normal
    by (auto simp: matched_findings_def extractVulnerabilityFindings_def split: if_splits option.splits)
  then show ?case using Cons by (cases rss) auto
qed simp

lemma operator_scan_sound:
  assumes "operator_NewScanner api conf = Inr s0" "to_resources s = to_resources s0"
    and "operator_Scan lister now img s w = (Inr r, s', w')"
  shows "\<exists>rss. list_every lister now (to_resources s) s w = (Inr rss, s', w') \<and>
    findingFingerprint ` set (sr_Findings r) = findingFingerprint ` set (all_findings img (to_resources s) rss) \<and>
    set (sr_Findings r) \<subseteq> set (all_findings img (to_resources s) rss) \<and>
    distinct (map findingFingerprint (sr_Findings r)) \<and>
    sorted (map operator_order (sr_Findings r)) \<and>
    normalised ''trivy-operator'' r \<and> sr_Scanner r = ''trivy-operator'' \<and> sr_Image r = img"
proof -
  obtain res s1 w1 where l: "list_every lister now (to_resources s) s w = (res, s1, w1)"
    by (cases "list_every lister now (to_resources s) s w")
  obtain rss where rss: "res = Inr rss"
    using assms(3) by (cases res) (simp_all add: operator_Scan_def scan_resources_eq l)
  let ?all = "all_findings img (to_resources s) rss" and ?fs = "dedupe findingFingerprint [] (all_findings img (to_resources s) rss)"
  have r: "s' = s1" "w' = w1" "sr_Findings r = sort_Slice operator_less ?fs" "sr_Scanner r = ''trivy-operator''"
      "sr_Image r = img" "sr_Summary r = summary_of (sr_Findings r)"
    using assms(3) by (auto simp: operator_Scan_def scan_resources_eq l rss Let_def summaryFromFindings_eq)
  have keys: "findingFingerprint ` set (sr_Findings r) = findingFingerprint ` set ?all"
    using set_dedupe_keys [of findingFingerprint "[]" ?all] by (simp add: r(3))
  have sub: "set (sr_Findings r) \<subseteq> set ?all" using dedupe_subset by (simp add: r(3))
  have "mset (map findingFingerprint (sr_Findings r)) = mset (map findingFingerprint ?fs)" by (simp add: r(3))
  then have dist: "distinct (map findingFingerprint (sr_Findings r))"
    using distinct_dedupe_keys mset_eq_imp_distinct_iff by metis
  have "sorted_wrt (\<lambda>a b. \<not> operator_less b a) (sr_Findings r)"
    using operator_sorted.sort_Slice_sorted by (simp add: r(3) slice_sorted_def)
  then have sorted: "sorted (map operator_order (sr_Findings r))"
    by (simp add: sorted_map operator_sorted.lt_iff not_less)
  have of_api: "list_all (\<lambda>r. rx_extract r = extractVulnerabilityFindings api) (to_resources s)"
    using NewScanner_resources [OF assms(1)] assms(2) by simp
  then have "list_all finding_normal (sr_Findings r)"
    using all_findings_normal [OF of_api] sub by (auto simp: list_all_iff)
  then have "normalised ''trivy-operator'' r" using r(6) by (simp add: normalised_def finding_normal_def list_all_iff)
  then show ?thesis using l rss r keys sub dist sorted by blast
qed

section \<open>Properties\<close>

text \<open>C27: What a scan with the Trivy operator returns: of the findings of all reports that match
  the image one for each fingerprint, and none lost, sorted by severity and identity, with
  the counts of those findings. The reports are those of the configured resources, listed one
  after the other.\<close>

theorem operator_scan_result:
  assumes "operator_NewScanner api conf = Inr s0" "to_resources s = to_resources s0"
    and "operator_Scan lister now img s w = (Inr r, s', w')"
  shows "\<exists>rss. list_every lister now (to_resources s) s w = (Inr rss, s', w') \<and>
    findingFingerprint ` set (sr_Findings r) = findingFingerprint ` set (all_findings img (to_resources s) rss) \<and>
    set (sr_Findings r) \<subseteq> set (all_findings img (to_resources s) rss) \<and>
    distinct (map findingFingerprint (sr_Findings r)) \<and>
    sorted (map operator_order (sr_Findings r)) \<and>
    normalised ''trivy-operator'' r \<and> sr_Scanner r = ''trivy-operator'' \<and> sr_Image r = img"
  by (rule operator_scan_sound [OF assms])

text \<open>An operator whose reports are the objects of a tree.\<close>

fun nested :: "json \<Rightarrow> string list \<Rightarrow> json option" where
  "nested v [] = Some v"
| "nested (JObj m) (k # ks) = Option.bind (map_of m k) (\<lambda>v. nested v ks)"
| "nested v (k # ks) = None"

definition tree_api :: "json report_api" where
  "tree_api = \<lparr>NestedString = (\<lambda>v ks. case nested v ks of Some j \<Rightarrow> toString j | None \<Rightarrow> []),
     NestedSlice = (\<lambda>v ks. case nested v ks of Some (JArr vs) \<Rightarrow> Some vs | _ \<Rightarrow> None)\<rparr>"

definition ex_report :: "string \<Rightarrow> string \<Rightarrow> json list \<Rightarrow> json" where
  "ex_report digest tag vulns = JObj [(''report'', JObj [
     (''registry'', JObj [(''server'', JStr ''index.docker.io'')]),
     (''artifact'', JObj [(''repository'', JStr ''library/nginx''), (''tag'', JStr tag), (''digest'', JStr digest)]),
     (''vulnerabilities'', JArr vulns)])]"

definition ex_op_image :: "string \<Rightarrow> image_ref" where
  "ex_op_image digest = \<lparr>img_Original = ''nginx'', img_Registry = ''docker.io'', img_Repository = ''library/nginx'',
     img_Tag = ''latest'', img_Digest = digest, img_Resolved = ''docker.io/library/nginx@'' @ digest\<rparr>"

definition ex_op_vuln :: "string \<Rightarrow> string \<Rightarrow> json" where
  "ex_op_vuln name sev = JObj [(''vulnerabilityID'', JStr name), (''severity'', JStr sev)]"

text \<open>A lister that counts its calls in the world; the clock ticks in seconds.\<close>

definition ex_lister :: "json list \<Rightarrow> (nat, json) reportLister" where
  "ex_lister reports resource w = (Inr reports, Suc w)"

definition ex_clock :: "nat \<Rightarrow> time" where
  "ex_clock w = int w * Second"

definition ex_operator :: "json trivy_operator" where
  "ex_operator = \<lparr>to_resources = [vulnerabilityReportsExtractor tree_api], to_cacheTTL = defaultReportCacheTTL,
     to_cache = (\<lambda>_. None)\<rparr>"

lemma ex_operator_new: "operator_NewScanner tree_api [] = Inr ex_operator"
  by (simp add: operator_NewScanner_def resolveResources_def defaultResourceNames_def supportedResources_def
      ToLower_def lower_char_def TrimSpace_def is_space_def ex_operator_def)

definition ex_reports :: "json list" where
  "ex_reports = [ex_report ''sha256:ab'' '''' [ex_op_vuln ''CVE-2'' ''LOW'', ex_op_vuln ''CVE-1'' ''HIGH'', JNull],
     ex_report ''sha256:cd'' '''' [ex_op_vuln ''CVE-3'' ''HIGH''], ex_report ''SHA256:AB'' '''' [ex_op_vuln ''CVE-1'' ''HIGH'']]"

lemma ex_operator_scan:
  "map_sum id (\<lambda>r. map f_ID (sr_Findings r))
     (fst (operator_Scan (ex_lister ex_reports) ex_clock (ex_op_image ''sha256:ab'') ex_operator 0)) = Inr [''CVE-1'', ''CVE-2'']"
  by code_simp

theorem operator_scan_result_witness:
  "\<exists>r s' w'. operator_Scan (ex_lister ex_reports) ex_clock (ex_op_image ''sha256:ab'') ex_operator 0 = (Inr r, s', w') \<and>
     normalised ''trivy-operator'' r \<and> map f_ID (sr_Findings r) = [''CVE-1'', ''CVE-2'']"
proof -
  obtain res s' w' where o: "operator_Scan (ex_lister ex_reports) ex_clock (ex_op_image ''sha256:ab'') ex_operator 0 = (res, s', w')"
    by (cases "operator_Scan (ex_lister ex_reports) ex_clock (ex_op_image ''sha256:ab'') ex_operator 0")
  obtain r where r: "res = Inr r" "map f_ID (sr_Findings r) = [''CVE-1'', ''CVE-2'']"
    using ex_operator_scan by (cases res) (simp_all add: o)
  show ?thesis
    using operator_scan_result [OF ex_operator_new refl, of "ex_lister ex_reports" ex_clock "ex_op_image ''sha256:ab''" 0 r s' w'] o r
    by auto
qed

text \<open>C34: A report is used for an image that is pinned by digest only if it names the same
  repository, a registry that is the same or none, and the same digest up to case and blanks:
  neither a report without a digest nor one of another digest of the same tag is used.\<close>

theorem operator_pinned_match:
  assumes "img_Digest img \<noteq> []" "extractVulnerabilityFindings api report img = Some fs"
  shows "NestedString api report [''report'', ''artifact'', ''repository''] = img_Repository img \<and>
    ToLower (TrimSpace (NestedString api report [''report'', ''artifact'', ''digest''])) = ToLower (TrimSpace (img_Digest img)) \<and>
    NestedString api report [''report'', ''artifact'', ''digest''] \<noteq> [] \<and>
    (NestedString api report [''report'', ''registry'', ''server''] = [] \<or> img_Registry img = [] \<or>
     normalise_registry (NestedString api report [''report'', ''registry'', ''server'']) = normalise_registry (img_Registry img))"
  using assms
  by (auto simp: extractVulnerabilityFindings_def reportMatchesImage_def sameDigest_def sameRegistry_def Let_def
      split: if_splits)

theorem operator_pinned_match_witness:
  "NestedString tree_api (ex_report ''SHA256:AB'' '''' []) [''report'', ''artifact'', ''repository''] = ''library/nginx''"
proof -
  have "extractVulnerabilityFindings tree_api (ex_report ''SHA256:AB'' '''' []) (ex_op_image ''sha256:ab'') = Some []"
    by code_simp
  from operator_pinned_match [OF _ this] show ?thesis by (simp add: ex_op_image_def)
qed

text \<open>What the cache holds: what the lister once returned, with the time of that.\<close>

definition fresh_cache :: "('w, 'u) reportLister \<Rightarrow> ('w \<Rightarrow> time) \<Rightarrow> reportResource set \<Rightarrow> 'u trivy_operator \<Rightarrow> bool" where
  "fresh_cache lister now resources s \<longleftrightarrow>
     (\<forall>res \<in> resources. \<forall>c. to_cache s (rr_name res) = Some c \<longrightarrow>
        (\<exists>w w'. lister res w = (Inr (cr_reports c), w') \<and> cr_loadedAt c = now w'))"

lemma fresh_cache_step:
  assumes "fresh_cache lister now resources s" "res \<in> resources" "inj_on rr_name resources"
    and "listReports lister now res s w = (x, s', w')"
  shows "fresh_cache lister now resources s'"
proof (cases "cache_lookup now (rr_name res) s w")
  case None
  obtain y w1 where l: "lister res w = (y, w1)" by (cases "lister res w")
  show ?thesis
  proof (cases y)
    case (Inr reports)
    have "res' = res" if "res' \<in> resources" "rr_name res' = rr_name res" for res'
      using assms(2,3) that by (auto dest: inj_onD)
    note same = this
    have s': "s' = s\<lparr>to_cache := (to_cache s)(rr_name res := Some \<lparr>cr_reports = reports, cr_loadedAt = now w1\<rparr>)\<rparr>"
      using assms(4) None l Inr by (auto simp: listReports_def)
    show ?thesis
      unfolding fresh_cache_def
    proof (intro ballI allI impI)
      fix res' c assume c: "res' \<in> resources" "to_cache s' (rr_name res') = Some c"
      show "\<exists>w w'. lister res' w = (Inr (cr_reports c), w') \<and> cr_loadedAt c = now w'"
      proof (cases "rr_name res' = rr_name res")
        case True
        then show ?thesis
          using same [OF c(1)] c(2) l Inr by (intro exI [of _ w] exI [of _ w1]) (auto simp: s')
      next
        case False
        then show ?thesis using assms(1) c by (simp add: s' fresh_cache_def)
      qed
    qed
  qed (use assms(1,4) None l in \<open>simp add: listReports_def\<close>)
qed (use assms(1,4) in \<open>simp add: listReports_def\<close>)



end
