(* ===== verification/Scanner_Registry.thy ===== *)
theory Scanner_Registry
  imports Reconciler Scanner_Trivy Scanner_Snyk Scanner_Wiz Scanner_Clair Scanner_Trivy_Operator
begin

text \<open>
  From the configuration to the scanners: the configuration of each driver (\<open>config.go\<close> beside
  it), the factories, and the registry of \<open>internal/scanners/registry.go\<close>. What viper decodes
  is a parameter.
\<close>

section \<open>The configuration of a driver\<close>

record commandConfig =
  cmd_Binary :: string
  cmd_Timeout :: duration

text \<open>The scope of a scanner in the configuration file: what decoding it gives for a command
  driver and for the operator, and which keys are set.\<close>

record scopedConfig =
  sv_command :: "commandConfig result"
  sv_resources :: "string list result"
  sv_IsSet :: "string \<Rightarrow> bool"

definition defaultCommandTimeout :: duration where
  "defaultCommandTimeout = 5 * Minute"

definition command_parseConfig :: "string \<Rightarrow> scopedConfig option \<Rightarrow> (commandConfig \<times> duration) result" where
  "command_parseConfig name scoped =
     (case (case scoped of None \<Rightarrow> Inr \<lparr>cmd_Binary = [], cmd_Timeout = 0\<rparr> | Some v \<Rightarrow> sv_command v) of
        Inl err \<Rightarrow> Inl (ErrWrap (''decode '' @ name @ '' config: '') err [])
      | Inr cfg \<Rightarrow>
          let cfg = (if cmd_Binary cfg = [] then cfg\<lparr>cmd_Binary := name\<rparr> else cfg);
              set = (case scoped of None \<Rightarrow> False | Some v \<Rightarrow> sv_IsSet v ''command.timeout'')
          in Inr (cfg, if set then cmd_Timeout cfg else defaultCommandTimeout))"

definition trivy_parseConfig :: "scopedConfig option \<Rightarrow> (commandConfig \<times> duration) result" where
  "trivy_parseConfig = command_parseConfig ''trivy''"

definition snyk_parseConfig :: "scopedConfig option \<Rightarrow> (commandConfig \<times> duration) result" where
  "snyk_parseConfig = command_parseConfig ''snyk''"

definition wiz_parseConfig :: "scopedConfig option \<Rightarrow> (commandConfig \<times> duration) result" where
  "wiz_parseConfig = command_parseConfig ''wiz''"

definition clair_parseConfig :: "scopedConfig option \<Rightarrow> (commandConfig \<times> duration) result" where
  "clair_parseConfig = command_parseConfig ''clair''"

definition operator_parseConfig :: "scopedConfig option \<Rightarrow> string list result" where
  "operator_parseConfig scoped =
     (case (case scoped of None \<Rightarrow> Inr [] | Some v \<Rightarrow> sv_resources v) of
        Inl err \<Rightarrow> Inl (ErrWrap ''decode trivy-operator config: '' err [])
      | Inr resources \<Rightarrow>
          if list_ex (\<lambda>r. TrimSpace r = []) resources
          then Inl (ErrNew ''trivy-operator scanner resources entries must be non-empty'')
          else Inr resources)"

section \<open>The factories\<close>

text \<open>
  What the drivers take from outside: the programs, the clock, the orders of maps, the errors of
  encoding/json, the report objects, the access to the cluster and the dynamic client made from it.
  The state of an operator's scanner is a part of the world, by the name of its configuration.
\<close>

record ('w, 'u, 'k) driver_env =
  de_exec :: "'w exec"
  de_now :: "'w \<Rightarrow> time"
  de_order :: "json \<Rightarrow> json"
  de_visit :: map_range
  de_json_err :: "string \<Rightarrow> go_error"
  de_api :: "'u report_api"
  de_kube :: "'k kube_access"
  de_dynamic_NewForConfig :: "'k \<Rightarrow> ('w, 'u) dynamic_client result"
  de_operator :: "string \<Rightarrow> 'w \<Rightarrow> 'u trivy_operator"
  de_set_operator :: "string \<Rightarrow> 'u trivy_operator \<Rightarrow> 'w \<Rightarrow> 'w"

type_synonym 'w scanner_factory = "scanner_config \<Rightarrow> scopedConfig option \<Rightarrow> ('w scanner \<times> duration option) result"

definition new_command_scanner :: "commandConfig \<Rightarrow> command_scanner" where
  "new_command_scanner cfg = \<lparr>cs_binary = cmd_Binary cfg, cs_runner = NewRunner\<rparr>"

definition trivy_factory :: "('w, 'u, 'k) driver_env \<Rightarrow> 'w scanner_factory" where
  "trivy_factory env cfg scoped =
     (case trivy_parseConfig scoped of
        Inl err \<Rightarrow> Inl err
      | Inr (cfg, timeout) \<Rightarrow>
          Inr (\<lparr>sc_Name = ''trivy'',
                sc_Scan = trivy_Scan (de_exec env) (de_now env) (de_json_err env) (new_command_scanner cfg)\<rparr>, Some timeout))"

definition snyk_factory :: "('w, 'u, 'k) driver_env \<Rightarrow> 'w scanner_factory" where
  "snyk_factory env cfg scoped =
     (case snyk_parseConfig scoped of
        Inl err \<Rightarrow> Inl err
      | Inr (cfg, timeout) \<Rightarrow>
          Inr (\<lparr>sc_Name = ''snyk'', sc_Scan = snyk_Scan (de_exec env) (de_now env) (new_command_scanner cfg)\<rparr>, Some timeout))"

definition wiz_factory :: "('w, 'u, 'k) driver_env \<Rightarrow> 'w scanner_factory" where
  "wiz_factory env cfg scoped =
     (case wiz_parseConfig scoped of
        Inl err \<Rightarrow> Inl err
      | Inr (cfg, timeout) \<Rightarrow>
          Inr (\<lparr>sc_Name = ''wiz'',
                sc_Scan = wiz_Scan (de_exec env) (de_now env) (de_order env) (de_visit env) (de_json_err env)
                  (new_command_scanner cfg)\<rparr>, Some timeout))"

definition clair_factory :: "('w, 'u, 'k) driver_env \<Rightarrow> 'w scanner_factory" where
  "clair_factory env cfg scoped =
     (case clair_parseConfig scoped of
        Inl err \<Rightarrow> Inl err
      | Inr (cfg, timeout) \<Rightarrow>
          Inr (\<lparr>sc_Name = ''clair'',
                sc_Scan = clair_Scan (de_exec env) (de_now env) (de_order env) (de_json_err env)
                  (new_command_scanner cfg)\<rparr>, Some timeout))"

definition operator_factory :: "('w, 'u, 'k) driver_env \<Rightarrow> 'w scanner_factory" where
  "operator_factory env cfg scoped =
     (case operator_parseConfig scoped of
        Inl err \<Rightarrow> Inl err
      | Inr resources \<Rightarrow>
          (case operator_loadKubernetesConfig (de_kube env) of
             Inl err \<Rightarrow> Inl (ErrWrap ''load kubernetes config for trivy-operator scanner: '' err [])
           | Inr kubeConfig \<Rightarrow>
          (case de_dynamic_NewForConfig env kubeConfig of
             Inl err \<Rightarrow> Inl (ErrWrap ''create dynamic client for trivy-operator scanner: '' err [])
           | Inr dynClient \<Rightarrow>
          (case operator_NewScanner (de_api env) resources of
             Inl err \<Rightarrow> Inl err
           | Inr s \<Rightarrow>
               Inr (\<lparr>sc_Name = ''trivy-operator'', sc_Scan = (\<lambda>w timeout img.
                      case operator_Scan (dynamicReportLister_List dynClient) (de_now env) img
                          ((de_operator env (s_Name cfg) w)\<lparr>to_resources := to_resources s, to_cacheTTL := to_cacheTTL s\<rparr>) w of
                        (res, s, w) \<Rightarrow> (res, de_set_operator env (s_Name cfg) s w))\<rparr>, None)))))"

text \<open>What the \<open>init\<close> functions register.\<close>

definition scannerFactories :: "('w, 'u, 'k) driver_env \<Rightarrow> string \<Rightarrow> 'w scanner_factory option" where
  "scannerFactories env scannerType =
     (if scannerType = ''trivy'' then Some (trivy_factory env)
      else if scannerType = ''snyk'' then Some (snyk_factory env)
      else if scannerType = ''wiz'' then Some (wiz_factory env)
      else if scannerType = ''clair'' then Some (clair_factory env)
      else if scannerType = ''trivy-operator'' then Some (operator_factory env)
      else None)"

section \<open>The registry\<close>

type_synonym 'w registry = "(string \<rightharpoonup> 'w scanner) \<times> (string \<rightharpoonup> duration)"

fun create_loop ::
    "(string \<Rightarrow> 'w scanner_factory option) \<Rightarrow> scanner_config list \<Rightarrow> scopedConfig option list \<Rightarrow> 'w registry \<Rightarrow>
     'w registry result" where
  "create_loop factories [] scopes reg = Inr reg"
| "create_loop factories (scannerCfg # cfgs) scopes (registry, timeouts) =
     (if \<not> s_Enabled scannerCfg then create_loop factories cfgs (drop 1 scopes) (registry, timeouts)
      else case factories (s_Type scannerCfg) of
          None \<Rightarrow> create_loop factories cfgs (drop 1 scopes) (registry, timeouts)
        | Some factory \<Rightarrow>
            (case factory scannerCfg (case scopes of [] \<Rightarrow> None | scope # _ \<Rightarrow> scope) of
               Inl err \<Rightarrow>
                 Inl (ErrWrap (''create scanner '' @ s_Name scannerCfg @ '' ('' @ s_Type scannerCfg @ ''): '') err [])
             | Inr (sc, timeoutOverride) \<Rightarrow>
                 create_loop factories cfgs (drop 1 scopes)
                   (registry(s_Name scannerCfg \<mapsto> sc),
                    (case timeoutOverride of None \<Rightarrow> timeouts | Some t \<Rightarrow> timeouts(s_Name scannerCfg \<mapsto> t)))))"

definition CreateScannerRegistry ::
    "(string \<Rightarrow> 'w scanner_factory option) \<Rightarrow> scanner_config list \<Rightarrow> scopedConfig option list \<Rightarrow> 'w registry result" where
  "CreateScannerRegistry factories scannerConfigs scannerScopes =
     create_loop factories scannerConfigs scannerScopes (Map.empty, Map.empty)"

section \<open>Lemmas\<close>

text \<open>The configurations that become scanners, each with its scope.\<close>

fun with_scopes :: "'a list \<Rightarrow> 'b option list \<Rightarrow> ('a \<times> 'b option) list" where
  "with_scopes [] scopes = []"
| "with_scopes (x # xs) scopes = (x, case scopes of [] \<Rightarrow> None | s # _ \<Rightarrow> s) # with_scopes xs (drop 1 scopes)"

lemma fst_with_scopes: "fst ` set (with_scopes xs scopes) = set xs"
  by (induction xs arbitrary: scopes) auto

definition built :: "(string \<Rightarrow> 'w scanner_factory option) \<Rightarrow> scanner_config \<times> scopedConfig option \<Rightarrow>
    ('w scanner \<times> duration option) result option" where
  "built factories c =
     (if s_Enabled (fst c) then map_option (\<lambda>f. f (fst c) (snd c)) (factories (s_Type (fst c))) else None)"

lemma create_loop_sound:
  assumes "create_loop factories cfgs scopes (reg0, t0) = Inr (reg, t)"
  shows "(reg n = Some sc \<longrightarrow> reg0 n = Some sc \<or>
      (\<exists>c \<in> set (with_scopes cfgs scopes). \<exists>ov. s_Name (fst c) = n \<and> built factories c = Some (Inr (sc, ov)))) \<and>
    (t n = Some d \<longrightarrow> t0 n = Some d \<or>
      (\<exists>c \<in> set (with_scopes cfgs scopes). \<exists>sc. s_Name (fst c) = n \<and> built factories c = Some (Inr (sc, Some d))))"
  using assms
proof (induction cfgs arbitrary: scopes reg0 t0)
  case (Cons c cfgs)
  let ?scope = "case scopes of [] \<Rightarrow> None | s # _ \<Rightarrow> s"
  show ?case
  proof (cases "built factories (c, ?scope)")
    case None
    then have "create_loop factories cfgs (drop 1 scopes) (reg0, t0) = Inr (reg, t)"
      using Cons.prems by (auto simp: built_def split: if_splits option.splits)
    then show ?thesis using Cons.IH by fastforce
  next
    case (Some res)
    then obtain sc1 o1 where b: "res = Inr (sc1, o1)"
      using Cons.prems by (cases res) (auto simp: built_def split: if_splits option.splits)
    have "create_loop factories cfgs (drop 1 scopes)
        (reg0(s_Name c \<mapsto> sc1), case o1 of None \<Rightarrow> t0 | Some d \<Rightarrow> t0(s_Name c \<mapsto> d)) = Inr (reg, t)"
      using Cons.prems Some b by (auto simp: built_def split: if_splits option.splits)
    from Cons.IH [OF this] show ?thesis
      using Some b by (auto split: if_splits option.splits)
  qed
qed simp

lemma create_loop_complete:
  assumes "create_loop factories cfgs scopes (reg0, t0) = Inr (reg, t)"
  shows "dom reg = dom reg0 \<union> {s_Name (fst c) | c. c \<in> set (with_scopes cfgs scopes) \<and> built factories c \<noteq> None}"
  using assms
proof (induction cfgs arbitrary: scopes reg0 t0)
  case (Cons c cfgs)
  let ?scope = "case scopes of [] \<Rightarrow> None | s # _ \<Rightarrow> s"
  show ?case
  proof (cases "built factories (c, ?scope)")
    case None
    then have "create_loop factories cfgs (drop 1 scopes) (reg0, t0) = Inr (reg, t)"
      using Cons.prems by (auto simp: built_def split: if_splits option.splits)
    from Cons.IH [OF this] show ?thesis using None by auto
  next
    case (Some res)
    then obtain sc1 o1 where b: "res = Inr (sc1, o1)"
      using Cons.prems by (cases res) (auto simp: built_def split: if_splits option.splits)
    have "create_loop factories cfgs (drop 1 scopes)
        (reg0(s_Name c \<mapsto> sc1), case o1 of None \<Rightarrow> t0 | Some d \<Rightarrow> t0(s_Name c \<mapsto> d)) = Inr (reg, t)"
      using Cons.prems Some b by (auto simp: built_def split: if_splits option.splits)
    note step = Cons.IH [OF this]
    have upd: "dom (reg0(s_Name c \<mapsto> sc1)) = insert (s_Name c) (dom reg0)" by auto
    have "dom reg = insert (s_Name c) (dom reg0) \<union>
        {s_Name (fst c) |c. c \<in> set (with_scopes cfgs (drop 1 scopes)) \<and> built factories c \<noteq> None}"
      using step unfolding upd .
    moreover have "{s_Name (fst c') |c'. c' \<in> set (with_scopes (c # cfgs) scopes) \<and> built factories c' \<noteq> None} =
        insert (s_Name c) {s_Name (fst c) |c. c \<in> set (with_scopes cfgs (drop 1 scopes)) \<and> built factories c \<noteq> None}"
      using Some by auto
    ultimately show ?thesis by simp
  qed
qed simp

text \<open>A scanner that delivers: its results are normalised and carry its name and the image.\<close>

definition delivers :: "'w scanner \<Rightarrow> bool" where
  "delivers sc \<longleftrightarrow> (\<forall>w timeout img r w'. sc_Scan sc w timeout img = (Inr r, w') \<longrightarrow>
     normalised (sc_Name sc) r \<and> sr_Scanner r = sc_Name sc \<and> sr_Image r = img)"

lemma deliversI:
  assumes "output_parser name parse" "\<And>w timeout img. \<exists>out. scan w timeout img = scan_output name now (parse img) out"
  shows "delivers \<lparr>sc_Name = name, sc_Scan = scan\<rparr>"
  unfolding delivers_def
proof (intro allI impI)
  fix w timeout img r w'
  assume r: "sc_Scan \<lparr>sc_Name = name, sc_Scan = scan\<rparr> w timeout img = (Inr r, w')"
  obtain out where "scan w timeout img = scan_output name now (parse img) out" using assms(2) by blast
  then have "scan_output name now (parse img) out = (Inr r, w')" using r by simp
  from output_parser.scanned [OF assms(1) this]
  show "normalised (sc_Name \<lparr>sc_Name = name, sc_Scan = scan\<rparr>) r \<and>
      sr_Scanner r = sc_Name \<lparr>sc_Name = name, sc_Scan = scan\<rparr> \<and> sr_Image r = img" by simp
qed

lemma command_delivers:
  "delivers \<lparr>sc_Name = ''trivy'', sc_Scan = trivy_Scan exec now json_err s\<rparr>"
  "delivers \<lparr>sc_Name = ''snyk'', sc_Scan = snyk_Scan exec now s\<rparr>"
  "delivers \<lparr>sc_Name = ''wiz'', sc_Scan = wiz_Scan exec now order visit json_err s\<rparr>"
  "delivers \<lparr>sc_Name = ''clair'', sc_Scan = clair_Scan exec now order json_err s\<rparr>"
proof -
  show "delivers \<lparr>sc_Name = ''trivy'', sc_Scan = trivy_Scan exec now json_err s\<rparr>"
    by (rule deliversI [OF trivy_parser.output_parser_axioms]) (unfold trivy_Scan_def, rule exI, rule refl)
  show "delivers \<lparr>sc_Name = ''snyk'', sc_Scan = snyk_Scan exec now s\<rparr>"
    by (rule deliversI [OF snyk_parser.output_parser_axioms]) (unfold snyk_Scan_def, rule exI, rule refl)
  show "delivers \<lparr>sc_Name = ''wiz'', sc_Scan = wiz_Scan exec now order visit json_err s\<rparr>"
    by (rule deliversI [OF wiz_parser.output_parser_axioms]) (unfold wiz_Scan_def, rule exI, rule refl)
  show "delivers \<lparr>sc_Name = ''clair'', sc_Scan = clair_Scan exec now order json_err s\<rparr>"
    by (rule deliversI [OF clair_parser.output_parser_axioms]) (unfold clair_Scan_def, rule exI, rule refl)
qed

lemma operator_delivers:
  assumes "operator_NewScanner api conf = Inr s0"
  shows "delivers \<lparr>sc_Name = ''trivy-operator'', sc_Scan = (\<lambda>w timeout img.
    case operator_Scan lister now img ((get w)\<lparr>to_resources := to_resources s0, to_cacheTTL := to_cacheTTL s0\<rparr>) w of
      (res, s, w) \<Rightarrow> (res, put s w))\<rparr>"
  unfolding delivers_def
proof (intro allI impI)
  fix w timeout img r w'
  assume "sc_Scan \<lparr>sc_Name = ''trivy-operator'', sc_Scan = (\<lambda>w timeout img.
      case operator_Scan lister now img ((get w)\<lparr>to_resources := to_resources s0, to_cacheTTL := to_cacheTTL s0\<rparr>) w of
        (res, s, w) \<Rightarrow> (res, put s w))\<rparr> w timeout img = (Inr r, w')"
  then obtain s1 w1 where
    "operator_Scan lister now img ((get w)\<lparr>to_resources := to_resources s0, to_cacheTTL := to_cacheTTL s0\<rparr>) w = (Inr r, s1, w1)"
    by (auto split: prod.splits)
  from operator_scan_sound [OF assms _ this]
  show "normalised (sc_Name \<lparr>sc_Name = ''trivy-operator'', sc_Scan = (\<lambda>w timeout img.
      case operator_Scan lister now img ((get w)\<lparr>to_resources := to_resources s0, to_cacheTTL := to_cacheTTL s0\<rparr>) w of
        (res, s, w) \<Rightarrow> (res, put s w))\<rparr>) r \<and>
    sr_Scanner r = sc_Name \<lparr>sc_Name = ''trivy-operator'', sc_Scan = (\<lambda>w timeout img.
      case operator_Scan lister now img ((get w)\<lparr>to_resources := to_resources s0, to_cacheTTL := to_cacheTTL s0\<rparr>) w of
        (res, s, w) \<Rightarrow> (res, put s w))\<rparr> \<and> sr_Image r = img"
    by auto
qed

lemma factory_delivers:
  assumes "scannerFactories env scannerType = Some f" "f cfg scoped = Inr (sc, ov)"
  shows "delivers sc \<and> sc_Name sc = scannerType"
  using assms
  by (auto simp: scannerFactories_def trivy_factory_def snyk_factory_def wiz_factory_def clair_factory_def
      operator_factory_def command_delivers operator_delivers split: if_splits sum.splits option.splits)

lemma built_delivers:
  assumes "built (scannerFactories env) c = Some (Inr (sc, ov))"
  shows "delivers sc \<and> sc_Name sc = s_Type (fst c) \<and> s_Enabled (fst c)"
proof -
  obtain f where f: "scannerFactories env (s_Type (fst c)) = Some f" "f (fst c) (snd c) = Inr (sc, ov)" "s_Enabled (fst c)"
    using assms by (auto simp: built_def split: if_splits)
  from factory_delivers [OF f(1,2)] f(3) show ?thesis by simp
qed

section \<open>Properties\<close>

lemma registry_sound:
  assumes "CreateScannerRegistry factories cfgs scopes = Inr (reg, timeouts)"
  shows "reg n = Some sc \<Longrightarrow> \<exists>c \<in> set (with_scopes cfgs scopes). \<exists>ov. s_Name (fst c) = n \<and> built factories c = Some (Inr (sc, ov))"
    and "timeouts n = Some d \<Longrightarrow> \<exists>c \<in> set (with_scopes cfgs scopes). \<exists>sc. s_Name (fst c) = n \<and> built factories c = Some (Inr (sc, Some d))"
  using create_loop_sound [OF assms [unfolded CreateScannerRegistry_def]] by auto

text \<open>The registry holds what the configuration asks for: when it is built without error its
  names are exactly those of the enabled configurations of a registered type, and each name
  has a scanner that the factory of such a configuration built, from its own part of the
  configuration file.\<close>

theorem registry_contents:
  assumes "CreateScannerRegistry factories cfgs scopes = Inr (reg, timeouts)"
  shows "dom reg = {s_Name (fst c) | c. c \<in> set (with_scopes cfgs scopes) \<and> s_Enabled (fst c) \<and> factories (s_Type (fst c)) \<noteq> None} \<and>
    (\<forall>n sc. reg n = Some sc \<longrightarrow>
       (\<exists>c \<in> set (with_scopes cfgs scopes). \<exists>ov. s_Name (fst c) = n \<and> built factories c = Some (Inr (sc, ov))))"
proof -
  have "built factories c \<noteq> None \<longleftrightarrow> s_Enabled (fst c) \<and> factories (s_Type (fst c)) \<noteq> None" for c
    by (simp add: built_def)
  then show ?thesis
    using create_loop_complete [OF assms [unfolded CreateScannerRegistry_def]] registry_sound(1) [OF assms] by simp
qed

text \<open>C26: Whatever driver it comes from, a result of a registered scanner is normalised: its counts
  are those of its findings, the severities are known ones, the findings and the result carry
  the name of the driver, a fix is available exactly where a fixed version is named, and the
  result is for the image that was to be scanned.\<close>

theorem registry_delivers:
  assumes "CreateScannerRegistry (scannerFactories env) cfgs scopes = Inr (reg, timeouts)"
    and "reg n = Some sc" "sc_Scan sc w timeout img = (Inr r, w')"
  shows "normalised (sc_Name sc) r \<and> sr_Scanner r = sc_Name sc \<and> sr_Image r = img"
proof -
  have "delivers sc" using registry_sound(1) [OF assms(1,2)] built_delivers by blast
  then show ?thesis using assms(3) unfolding delivers_def by blast
qed

text \<open>The timeout of a scanner is kept under the name of its configuration and looked up under
  the name of its driver. A driver whose name no enabled configuration has runs with the
  general timeout, whatever its own configuration sets.\<close>

theorem timeout_needs_driver_name:
  assumes "CreateScannerRegistry (scannerFactories env) cfgs scopes = Inr (reg, timeouts)"
    and "reg n = Some sc" "sc_Name sc \<notin> s_Name ` set cfgs" "scannerTimeoutsByName settings = timeouts"
  shows "timeoutForScanner settings (sc_Name sc) = Timeout (rs_policy settings)"
proof -
  have "timeouts (sc_Name sc) \<noteq> Some d" for d
    using registry_sound(2) [OF assms(1), of "sc_Name sc" d] assms(3) fst_with_scopes by (metis image_eqI)
  then have "timeouts (sc_Name sc) = None" by (metis not_None_eq)
  then show ?thesis using assms(4) by (simp add: timeoutForScanner_def)
qed

lemma class_wrap [simp]: "classifyScannerError (ErrWrap a e b) = classifyScannerError e"
  by (simp add: classifyScannerError_def isTemporaryError_def)

lemma class_exit: "classifyScannerError (ErrForeign msg False None None) = scannerErrorClassPermanent"
  by (simp add: classifyScannerError_def isTemporaryError_def errors_Is_def)

text \<open>What a command driver makes of a process that failed.\<close>

lemma failed_command:
  assumes "exec w timeout name args = (p, w')" "p_err p = Some (e, Some code)" "code \<notin> set allowed"
  shows "\<exists>err. scan_output driver now parse (RunAllowExitCodes NewRunner exec w timeout allowed name args) = (Inl err, w') \<and>
    classifyScannerError err = classifyScannerError e"
  using run_result [where exec = exec, OF wf_NewRunner assms(1), of allowed] assms(2,3)
  by (auto simp: process_error_def scan_output_def)

lemma command_failed:
  assumes "\<And>name args. exec w timeout name args = (p, w')" "p_err p = Some (e, Some code)" "code \<noteq> 1"
    and "cs_runner s = NewRunner"
  shows "\<exists>err. trivy_Scan exec now json_err s w timeout img = (Inl err, w') \<and> classifyScannerError err = classifyScannerError e"
    and "\<exists>err. snyk_Scan exec now s w timeout img = (Inl err, w') \<and> classifyScannerError err = classifyScannerError e"
    and "\<exists>err. wiz_Scan exec now order visit json_err s w timeout img = (Inl err, w') \<and> classifyScannerError err = classifyScannerError e"
    and "\<exists>err. clair_Scan exec now order json_err s w timeout img = (Inl err, w') \<and> classifyScannerError err = classifyScannerError e"
  unfolding trivy_Scan_def snyk_Scan_def wiz_Scan_def clair_Scan_def Run_def assms(4)
  by (rule failed_command [where exec = exec, OF assms(1,2)]; simp add: assms(3))+

text \<open>C31: A command that is killed when its timeout ends does not count as a timeout: the process
  ends with an exit error, whose chain holds no deadline, so each command driver reports an
  error of the permanent class, and the scan is not retried. The same goes for every exit
  code but the accepted one.\<close>

theorem killed_command_permanent:
  assumes "\<And>name args. exec w timeout name args = (p, w')" "p_err p = Some (ErrForeign msg False None None, Some code)" "code \<noteq> 1"
    and "s = new_command_scanner cfg"
    and "scan \<in> {trivy_Scan exec now json_err s, snyk_Scan exec now s, wiz_Scan exec now order visit json_err s,
      clair_Scan exec now order json_err s}"
  shows "\<exists>err. scan w timeout img = (Inl err, w') \<and> classifyScannerError err = scannerErrorClassPermanent \<and>
    \<not> isRetryableScannerError (classifyScannerError err)"
proof -
  have "cs_runner s = NewRunner" by (simp add: assms(4) new_command_scanner_def)
  note failed = command_failed [where exec = exec, OF assms(1,2,3) this]
  have "\<exists>err. scan w timeout img = (Inl err, w') \<and> classifyScannerError err = classifyScannerError (ErrForeign msg False None None)"
    using assms(5) failed by fast
  moreover have "\<not> isRetryableScannerError scannerErrorClassPermanent" by code_simp
  ultimately show ?thesis unfolding class_exit by metis
qed

definition ex_killed :: process where
  "ex_killed = \<lparr>p_stdout = [''{''], p_stderr = [], p_err = Some (ErrForeign ''signal: killed'' False None None, Some (-1))\<rparr>"

definition ex_command :: commandConfig where
  "ex_command = \<lparr>cmd_Binary = ''trivy'', cmd_Timeout = Minute\<rparr>"

theorem killed_command_permanent_witness:
  "\<exists>err. trivy_Scan (ex_exec ex_killed) (\<lambda>_. 0) (\<lambda>_. ErrCanceled) (new_command_scanner ex_command) 0 (Some Minute) zero_image =
     (Inl err, 1) \<and> \<not> isRetryableScannerError (classifyScannerError err)"
  using killed_command_permanent [of "ex_exec ex_killed" 0 "Some Minute" ex_killed 1 "''signal: killed''" "-1"
      "new_command_scanner ex_command" ex_command "trivy_Scan (ex_exec ex_killed) (\<lambda>_. 0) (\<lambda>_. ErrCanceled) (new_command_scanner ex_command)"
      "\<lambda>_. 0" "\<lambda>_. ErrCanceled" "\<lambda>j. j" "\<lambda>m. m" zero_image]
  by (auto simp: ex_exec_def ex_killed_def)

section \<open>A registry\<close>

definition ex_kube :: "unit kube_access" where
  "ex_kube = \<lparr>ka_Getenv = (\<lambda>n. if n = ''KOMODOR_API_KEY'' then ''key'' else []), ka_InClusterConfig = Inr (),
     ka_BuildConfigFromFlags = (\<lambda>path. Inr ())\<rparr>"

definition ex_driver_env :: "string \<Rightarrow> (nat, json, unit) driver_env" where
  "ex_driver_env output = \<lparr>de_exec = ex_exec \<lparr>p_stdout = [output], p_stderr = [], p_err = None\<rparr>, de_now = ex_clock,
     de_order = (\<lambda>j. j), de_visit = (\<lambda>m. m), de_json_err = (\<lambda>_. ErrCanceled), de_api = tree_api,
     de_kube = ex_kube, de_dynamic_NewForConfig = (\<lambda>k. Inr (\<lambda>gvr ns w. (Inr [], w))), de_operator = (\<lambda>n w. ex_operator),
     de_set_operator = (\<lambda>n s w. w)\<rparr>"

lemma ex_kube_sel [simp]:
  "de_kube (ex_driver_env output) = ex_kube" "ka_InClusterConfig ex_kube = Inr ()" "ka_BuildConfigFromFlags ex_kube path = Inr ()"
  "ka_Getenv ex_kube ''KOMODOR_API_KEY'' = ''key''"
  by (simp_all add: ex_driver_env_def ex_kube_def)

definition ex_scanner_configs :: "scanner_config list" where
  "ex_scanner_configs = [\<lparr>s_Name = ''images'', s_Type = ''snyk'', s_Enabled = True\<rparr>,
     \<lparr>s_Name = ''off'', s_Type = ''trivy'', s_Enabled = False\<rparr>, \<lparr>s_Name = ''odd'', s_Type = ''grype'', s_Enabled = True\<rparr>]"

definition ex_scope :: scopedConfig where
  "ex_scope = \<lparr>sv_command = Inr \<lparr>cmd_Binary = [], cmd_Timeout = Minute\<rparr>, sv_resources = Inr [],
     sv_IsSet = (\<lambda>k. k = ''command.timeout'')\<rparr>"

definition ex_snyk_scanner :: "string \<Rightarrow> nat scanner" where
  "ex_snyk_scanner output = \<lparr>sc_Name = ''snyk'',
     sc_Scan = snyk_Scan (de_exec (ex_driver_env output)) ex_clock \<lparr>cs_binary = ''snyk'', cs_runner = NewRunner\<rparr>\<rparr>"

lemma ex_registry:
  "CreateScannerRegistry (scannerFactories (ex_driver_env output)) ex_scanner_configs [Some ex_scope] =
     Inr ([''images'' \<mapsto> ex_snyk_scanner output], [''images'' \<mapsto> Minute])"
  by (simp add: CreateScannerRegistry_def ex_scanner_configs_def scannerFactories_def snyk_factory_def snyk_parseConfig_def
      command_parseConfig_def ex_scope_def ex_snyk_scanner_def ex_driver_env_def new_command_scanner_def Let_def)

theorem registry_contents_witness:
  "dom (fst (projr (CreateScannerRegistry (scannerFactories (ex_driver_env [])) ex_scanner_configs [Some ex_scope]))) = {''images''}"
  using registry_contents [OF ex_registry [of "[]"]] by (simp add: ex_registry)

theorem registry_delivers_witness:
  "\<exists>r. sc_Scan (ex_snyk_scanner (Marshal_json ex_snyk_tree)) 0 None zero_image = (Inr r, 1) \<and> normalised ''snyk'' r"
proof -
  let ?out = "Marshal_json ex_snyk_tree"
  have "length ?out \<le> 100" by code_simp
  then have "take (nat DefaultStdoutLimit) ?out = ?out" by (simp add: DefaultStdoutLimit_def)
  then have "RunAllowExitCodes NewRunner (de_exec (ex_driver_env ?out)) 0 None [1] name args = ((?out, [], None), 1)" for name args
    using run_result [OF wf_NewRunner, of "de_exec (ex_driver_env ?out)" 0 None name args
        "\<lparr>p_stdout = [?out], p_stderr = [], p_err = None\<rparr>" 1 "[1]"]
    by (simp add: ex_driver_env_def ex_exec_def process_error_def NewRunner_def)
  moreover obtain vs where "parseReports ?out = Inr vs"
    by (simp add: parseReports_def ex_snyk_read ex_snyk_decoded)
  ultimately obtain r where r: "sc_Scan (ex_snyk_scanner ?out) 0 None zero_image = (Inr r, 1)"
    by (simp add: ex_snyk_scanner_def snyk_Scan_def scan_output_def snyk_parseResult_def)
  from registry_delivers [OF ex_registry [of ?out] _ this, where n = "''images''"] r show ?thesis by (simp add: ex_snyk_scanner_def)
qed

theorem timeout_needs_driver_name_witness:
  "timeoutForScanner (ex_runtime\<lparr>scannerTimeoutsByName := [''images'' \<mapsto> Minute]\<rparr>) ''snyk'' = Timeout (rs_policy ex_runtime)"
  using timeout_needs_driver_name [OF ex_registry [of "[]"], of "''images''" "ex_snyk_scanner []"
      "ex_runtime\<lparr>scannerTimeoutsByName := [''images'' \<mapsto> Minute]\<rparr>"]
  by (simp add: ex_snyk_scanner_def ex_scanner_configs_def)

end
