(* ===== verification/State_Codec.thy ===== *)
theory State_Codec
  imports State_Backend Go_Json Go_Rfc3339
begin

text \<open>
  The storage form of a state entry, from \<open>internal/state/entry.go\<close>: JSON with Unix
  timestamps, and on reading also the older form with fields between bars and a bare
  fingerprint.
\<close>

section \<open>Writing\<close>

definition toUnix :: "time \<Rightarrow> int" where
  "toUnix t = (if time_IsZero t then 0 else time_to_unix t)"

text \<open>The encoder writes the keys of a map in order.\<close>

definition Entry_json :: "entry \<Rightarrow> json" where
  "Entry_json e = JObj
     [(''fingerprint'', JStr (e_Fingerprint e)),
      (''lastPublishedTime'', JNum (show_int (toUnix (e_LastPublishedTime e)))),
      (''lastScannedTime'', JNum (show_int (toUnix (e_LastScannedTime e)))),
      (''summary'', JStr (e_Summary e))]"

definition Entry_Marshal :: "entry \<Rightarrow> string" where
  "Entry_Marshal e = Marshal_json (Entry_json e)"

section \<open>Reading\<close>

definition unix_or_zero :: "int \<Rightarrow> time" where
  "unix_or_zero unix = (if 0 < unix then time_Unix unix else 0)"

definition parseUnixField :: "string \<Rightarrow> json \<Rightarrow> time result" where
  "parseUnixField field raw =
     (case decode_int64 0 raw of
        Some unix \<Rightarrow> Inr (unix_or_zero unix)
      | None \<Rightarrow>
          (case decode_string [] raw of
             Some s \<Rightarrow>
               (let s = TrimSpace s in
                if s = [] then Inr 0
                else case time_Parse_RFC3339 s of
                    Some parsed \<Rightarrow> Inr parsed
                  | None \<Rightarrow>
                      (case ParseInt s of
                         Some parsedUnix \<Rightarrow>
                           if 0 < parsedUnix then Inr (time_Unix parsedUnix)
                           else Inl (ErrNew (''decode '' @ field @ '': unsupported string format''))
                       | None \<Rightarrow> Inl (ErrNew (''decode '' @ field @ '': unsupported string format''))))
           | None \<Rightarrow> Inl (ErrNew (''decode '' @ field @ '': unsupported JSON type''))))"

text \<open>The errors of the decoder and of \<open>ParseInt\<close>, without the details of their messages.\<close>

definition json_type_error :: go_error where
  "json_type_error = ErrForeign ''json: cannot unmarshal'' False None None"

definition parse_int_error :: go_error where
  "parse_int_error = ErrForeign ''strconv.ParseInt'' False None None"

text \<open>The four fields in the order of the code. With an error no entry is returned: the callers
  drop the one they passed.\<close>

definition decode_text_field :: "string \<Rightarrow> string \<Rightarrow> json option \<Rightarrow> string result" where
  "decode_text_field field old raw =
     (case raw of None \<Rightarrow> Inr old
      | Some v \<Rightarrow> (case decode_string old v of
          Some s \<Rightarrow> Inr s
        | None \<Rightarrow> Inl (ErrWrap (''decode '' @ field @ '': '') json_type_error [])))"

definition decode_time_field :: "string \<Rightarrow> time \<Rightarrow> json option \<Rightarrow> time result" where
  "decode_time_field field old raw = (case raw of None \<Rightarrow> Inr old | Some v \<Rightarrow> parseUnixField field v)"

definition decode_fields :: "(string \<times> json) list \<Rightarrow> entry \<Rightarrow> entry result" where
  "decode_fields payload e =
     (case decode_text_field ''fingerprint'' (e_Fingerprint e) (json_lookup payload ''fingerprint'') of
        Inl err \<Rightarrow> Inl err
      | Inr fp \<Rightarrow>
     (case decode_text_field ''summary'' (e_Summary e) (json_lookup payload ''summary'') of
        Inl err \<Rightarrow> Inl err
      | Inr sm \<Rightarrow>
     (case decode_time_field ''lastScannedTime'' (e_LastScannedTime e) (json_lookup payload ''lastScannedTime'') of
        Inl err \<Rightarrow> Inl err
      | Inr scanned \<Rightarrow>
     (case decode_time_field ''lastPublishedTime'' (e_LastPublishedTime e) (json_lookup payload ''lastPublishedTime'') of
        Inl err \<Rightarrow> Inl err
      | Inr published \<Rightarrow>
          Inr \<lparr>e_Fingerprint = fp, e_LastScannedTime = scanned, e_LastPublishedTime = published, e_Summary = sm\<rparr>))))"

fun Entry_UnmarshalJSON :: "json \<Rightarrow> entry \<Rightarrow> entry result" where
  "Entry_UnmarshalJSON JNull e = Inr zero_entry"
| "Entry_UnmarshalJSON (JObj payload) e = decode_fields payload e"
| "Entry_UnmarshalJSON v e = Inl json_type_error"

definition Entry_Unmarshal_legacy :: "string \<Rightarrow> entry result" where
  "Entry_Unmarshal_legacy data =
     (case SplitN data (CHR ''|'') 4 of
        [fp, scanned, published, sm] \<Rightarrow>
          (case ParseInt scanned of
             None \<Rightarrow> Inl (ErrWrap ''parse scanned unix timestamp: '' parse_int_error [])
           | Some sc \<Rightarrow>
               (case ParseInt published of
                  None \<Rightarrow> Inl (ErrWrap ''parse published unix timestamp: '' parse_int_error [])
                | Some pb \<Rightarrow> Inr \<lparr>e_Fingerprint = fp, e_LastScannedTime = unix_or_zero sc,
                    e_LastPublishedTime = unix_or_zero pb, e_Summary = sm\<rparr>))
      | _ \<Rightarrow> Inr \<lparr>e_Fingerprint = data, e_LastScannedTime = 0, e_LastPublishedTime = 0, e_Summary = []\<rparr>)"

definition Entry_Unmarshal :: "string \<Rightarrow> entry \<Rightarrow> entry result" where
  "Entry_Unmarshal data e =
     (case json_Unmarshal data of
        Some v \<Rightarrow>
          (case Entry_UnmarshalJSON v e of
             Inr e' \<Rightarrow> Inr e'
           | Inl _ \<Rightarrow> Entry_Unmarshal_legacy data)
      | None \<Rightarrow> Entry_Unmarshal_legacy data)"

section \<open>Properties\<close>

text \<open>What storage keeps of a time: whole seconds after the epoch.\<close>

definition stored_time :: "time \<Rightarrow> time" where
  "stored_time t = unix_or_zero (toUnix t)"

definition stored_entry :: "entry \<Rightarrow> entry" where
  "stored_entry e = \<lparr>e_Fingerprint = e_Fingerprint e, e_LastScannedTime = stored_time (e_LastScannedTime e),
     e_LastPublishedTime = stored_time (e_LastPublishedTime e), e_Summary = e_Summary e\<rparr>"

lemma in_i64_toUnix [simp]: "in_i64 (toUnix t)"
  using i64_range by (simp add: toUnix_def time_to_unix_def in_i64_def min_int64_def max_int64_def)

lemma time_to_unix_bounds: "in_i64 (time_to_unix t)"
  by (simp add: time_to_unix_def i64_range)

text \<open>A time from the epoch on is stored with its fraction of a second dropped.\<close>

lemma stored_time_eq:
  assumes "(unix_to_internal + 1) * Second \<le> t" "t div Second \<le> max_int64"
  shows "stored_time t = t div Second * Second"
proof -
  have d: "unix_to_internal + 1 \<le> t div Second"
    using assms(1) by (simp add: Second_def)
  have u: "time_to_unix t = t div Second - unix_to_internal"
    using d assms(2) by (simp add: time_to_unix_def unix_to_internal_def i64_id in_i64_def min_int64_def max_int64_def)
  have "i64 (t div Second) = t div Second"
    using d assms(2) by (simp add: unix_to_internal_def i64_id in_i64_def min_int64_def max_int64_def)
  moreover have "t \<noteq> 0" using assms(1) by (auto simp: Second_def unix_to_internal_def)
  ultimately show ?thesis using d u
    by (simp add: stored_time_def toUnix_def time_IsZero_def unix_or_zero_def time_Unix_def)
qed

lemma wf_Entry_json: "ascii (e_Fingerprint e) \<Longrightarrow> ascii (e_Summary e) \<Longrightarrow> wf_json (Entry_json e)"
  by (auto simp: Entry_json_def byte_def)

lemma Entry_lookup:
  "json_lookup [(''fingerprint'', a), (''lastPublishedTime'', b), (''lastScannedTime'', c), (''summary'', d)] ''fingerprint'' = Some a"
  "json_lookup [(''fingerprint'', a), (''lastPublishedTime'', b), (''lastScannedTime'', c), (''summary'', d)] ''lastPublishedTime'' = Some b"
  "json_lookup [(''fingerprint'', a), (''lastPublishedTime'', b), (''lastScannedTime'', c), (''summary'', d)] ''lastScannedTime'' = Some c"
  "json_lookup [(''fingerprint'', a), (''lastPublishedTime'', b), (''lastScannedTime'', c), (''summary'', d)] ''summary'' = Some d"
  by (simp_all add: json_lookup_def)

lemma unmarshal_marshal:
  assumes "ascii (e_Fingerprint e)" "ascii (e_Summary e)"
  shows "Entry_Unmarshal (Entry_Marshal e) old = Inr (stored_entry e)"
proof -
  have "json_depth (Entry_json e) \<le> max_nesting" by (simp add: Entry_json_def max_nesting_def)
  then have "json_Unmarshal (Entry_Marshal e) = Some (Entry_json e)"
    unfolding Entry_Marshal_def by (rule written_back [OF wf_Entry_json [OF assms]])
  then show ?thesis
    by (simp add: Entry_Unmarshal_def Entry_json_def decode_fields_def Entry_lookup decode_text_field_def
        decode_time_field_def parseUnixField_def ParseInt_show_int stored_entry_def stored_time_def)
qed


definition ex_entry :: entry where
  "ex_entry = \<lparr>e_Fingerprint = ''sha256:ab/trivy'', e_LastScannedTime = time_Unix 1700000000 + 5,
     e_LastPublishedTime = 0, e_Summary = ''2 findings''\<rparr>"


text \<open>A text whose first character starts no JSON value.\<close>

definition json_start :: "char \<Rightarrow> bool" where
  "json_start c \<longleftrightarrow> is_ws c \<or> is_digit c \<or>
     c \<in> {CHR ''{'', CHR ''['', CHR 0x22, CHR ''t'', CHR ''f'', CHR ''n'', CHR ''-''}"

lemma not_json:
  assumes "\<not> json_start c"
  shows "json_Unmarshal (c # s) = None"
proof -
  have c: "\<not> is_ws c" "\<not> is_digit c" "c \<noteq> CHR ''{''" "c \<noteq> CHR ''[''" "c \<noteq> CHR 0x22" "c \<noteq> CHR ''t''"
      "c \<noteq> CHR ''f''" "c \<noteq> CHR ''n''" "c \<noteq> CHR ''-''"
    using assms by (auto simp: json_start_def)
  have "is_digit (CHR ''0'')" by (simp add: is_digit_def digit_val_def)
  then have "c \<noteq> CHR ''0''" using c(2) by metis
  then have "read_number (c # s) = None" using c by (simp add: read_number_def read_int_part_def)
  then have "read_value (Suc n) 0 (c # s) = None" for n using c by (simp add: read_value.simps(2) skip_ws_Cons)
  then show ?thesis by (simp add: json_Unmarshal_def)
qed

lemma SplitN_4:
  assumes "CHR ''|'' \<notin> set a" "CHR ''|'' \<notin> set b" "CHR ''|'' \<notin> set c"
  shows "SplitN (a @ CHR ''|'' # b @ CHR ''|'' # c @ CHR ''|'' # d) (CHR ''|'') 4 = [a, b, c, d]"
  using assms by (simp add: eval_nat_numeral)

text \<open>The older forms are still read. Where the fingerprint does not start like a JSON value,
  four fields between bars give the fingerprint, the two timestamps and the summary, with the
  bars of the summary kept, and a text without bars is a bare fingerprint that was never
  scanned.\<close>

theorem Entry_legacy:
  assumes "CHR ''|'' \<notin> set (c # fp)" "\<not> json_start c" "in_i64 a" "in_i64 b"
  shows "Entry_Unmarshal ((c # fp) @ CHR ''|'' # show_int a @ CHR ''|'' # show_int b @ CHR ''|'' # sm) old =
      Inr \<lparr>e_Fingerprint = c # fp, e_LastScannedTime = unix_or_zero a, e_LastPublishedTime = unix_or_zero b,
           e_Summary = sm\<rparr> \<and>
    Entry_Unmarshal (c # fp) old = Inr (zero_entry\<lparr>e_Fingerprint := c # fp\<rparr>)"
  using SplitN_4 [OF assms(1), of "show_int a" "show_int b" sm] not_json [OF assms(2)] assms
  by (simp add: Entry_Unmarshal_def Entry_Unmarshal_legacy_def ParseInt_show_int zero_entry_def)
    (simp add: eval_nat_numeral)

theorem Entry_legacy_witness:
  "Entry_Unmarshal ''sha256:ab|17|0|2 | 3'' zero_entry =
    Inr \<lparr>e_Fingerprint = ''sha256:ab'', e_LastScannedTime = unix_or_zero 17,
      e_LastPublishedTime = unix_or_zero 0, e_Summary = ''2 | 3''\<rparr>"
proof -
  have n: "show_int 17 = ''17''" "show_int 0 = ''0''"
    by (simp_all add: show_int_def show_nat.simps digit_char_def)
  have s: "\<not> json_start (CHR ''s'')" by (simp add: json_start_def is_ws_def is_digit_def digit_val_def)
  have i: "in_i64 17" "in_i64 0" by (simp_all add: in_i64_def min_int64_def max_int64_def)
  have b: "CHR ''|'' \<notin> set (CHR ''s'' # ''ha256:ab'')" by simp
  from Entry_legacy [OF b s i, of "''2 | 3''" zero_entry]
  show ?thesis unfolding n by simp
qed

end
