(* ===== verification/State_Keys.thy ===== *)
theory State_Keys
  imports Go_Time
begin

text \<open>
  The storage keys of the backends and the expiration times of Memcache: the unpadded URL
  alphabet of package encoding/base64, and the key and duration functions of
  \<open>internal/state/backends\<close>.
\<close>

section \<open>Base64\<close>

definition b64_char :: "nat \<Rightarrow> char" where
  "b64_char n =
     (if n < 26 then char_of (n + 65) else if n < 52 then char_of (n + 71)
      else if n < 62 then char_of (n - 4) else if n = 62 then CHR ''-'' else CHR ''_'')"

definition byte_of :: "char \<Rightarrow> nat" where
  "byte_of c = of_char c"

fun RawURLEncoding :: "string \<Rightarrow> string" where
  "RawURLEncoding [] = []"
| "RawURLEncoding [x] = (let a = byte_of x in [b64_char (a div 4), b64_char (a mod 4 * 16)])"
| "RawURLEncoding [x, y] = (let a = byte_of x; b = byte_of y in
     [b64_char (a div 4), b64_char (a mod 4 * 16 + b div 16), b64_char (b mod 16 * 4)])"
| "RawURLEncoding (x # y # z # s) = (let a = byte_of x; b = byte_of y; c = byte_of z in
     b64_char (a div 4) # b64_char (a mod 4 * 16 + b div 16) # b64_char (b mod 16 * 4 + c div 64)
       # b64_char (c mod 64) # RawURLEncoding s)"

definition b64_val :: "char \<Rightarrow> nat" where
  "b64_val c = (let n = byte_of c in
     if 65 \<le> n \<and> n \<le> 90 then n - 65 else if 97 \<le> n \<and> n \<le> 122 then n - 71
     else if 48 \<le> n \<and> n \<le> 57 then n + 4 else if n = 45 then 62 else 63)"

fun b64_decode :: "string \<Rightarrow> string" where
  "b64_decode (p # q # r # t # s) = (let a = b64_val p; b = b64_val q; c = b64_val r; d = b64_val t in
     char_of (a * 4 + b div 16) # char_of (b mod 16 * 16 + c div 4) # char_of (c mod 4 * 64 + d) # b64_decode s)"
| "b64_decode [p, q, r] = (let a = b64_val p; b = b64_val q; c = b64_val r in
     [char_of (a * 4 + b div 16), char_of (b mod 16 * 16 + c div 4)])"
| "b64_decode [p, q] = (let a = b64_val p; b = b64_val q in [char_of (a * 4 + b div 16)])"
| "b64_decode s = []"

lemma b64_val_char [simp]: "n < 64 \<Longrightarrow> b64_val (b64_char n) = n"
  by (auto simp: b64_char_def b64_val_def byte_of_def Let_def)

lemma byte_of_less [simp]: "byte_of c < 256"
  using nat_of_char_less_256 by (simp add: byte_of_def)

lemma char_of_byte_of [simp]: "char_of (byte_of c) = c"
  by (simp add: byte_of_def)

lemma b64_groups:
  assumes "a < 256" "b < 256" "c < (256::nat)"
  shows "a div 4 < 64" "a mod 4 * 16 + b div 16 < 64" "b mod 16 * 4 + c div 64 < 64" "c mod 64 < 64"
    "a div 4 * 4 + (a mod 4 * 16 + b div 16) div 16 = a"
    "(a mod 4 * 16 + b div 16) mod 16 * 16 + (b mod 16 * 4 + c div 64) div 4 = b"
    "(b mod 16 * 4 + c div 64) mod 4 * 64 + c mod 64 = c"
    "a mod 4 * 16 < 64" "b mod 16 * 4 < 64"
    "a div 4 * 4 + (a mod 4 * 16) div 16 = a"
    "(a mod 4 * 16 + b div 16) mod 16 * 16 + (b mod 16 * 4) div 4 = b"
proof -
  have d: "b div 16 < 16" "c div 64 < 4" "a mod 4 < 4" "b mod 16 < 16" using assms by auto
  show "a div 4 < 64" "a mod 4 * 16 + b div 16 < 64" "b mod 16 * 4 + c div 64 < 64" "c mod 64 < 64"
    "a mod 4 * 16 < 64" "b mod 16 * 4 < 64"
    using assms d by auto
  have q: "(a mod 4 * 16 + b div 16) div 16 = a mod 4" "(a mod 4 * 16 + b div 16) mod 16 = b div 16"
    "(b mod 16 * 4 + c div 64) div 4 = b mod 16" "(b mod 16 * 4 + c div 64) mod 4 = c div 64"
    using d by simp_all
  have "b div 16 * 16 + b mod 16 = b" "c div 64 * 64 + c mod 64 = c" "a div 4 * 4 + a mod 4 = a" by simp_all
  then show "a div 4 * 4 + (a mod 4 * 16 + b div 16) div 16 = a"
    "(a mod 4 * 16 + b div 16) mod 16 * 16 + (b mod 16 * 4 + c div 64) div 4 = b"
    "(b mod 16 * 4 + c div 64) mod 4 * 64 + c mod 64 = c"
    "a div 4 * 4 + (a mod 4 * 16) div 16 = a"
    "(a mod 4 * 16 + b div 16) mod 16 * 16 + (b mod 16 * 4) div 4 = b"
    unfolding q using d by simp_all
qed

lemma b64_decode_encode: "b64_decode (RawURLEncoding s) = s"
proof (induction s rule: RawURLEncoding.induct)
  case (2 x)
  show ?case using b64_groups [of "byte_of x" 0 0] by (simp add: Let_def)
next
  case (3 x y)
  show ?case using b64_groups [of "byte_of x" "byte_of y" 0] by (simp add: Let_def)
next
  case (4 x y z s)
  then show ?case using b64_groups [of "byte_of x" "byte_of y" "byte_of z"] by (simp add: Let_def)
qed simp

lemma RawURLEncoding_inject [simp]: "RawURLEncoding s = RawURLEncoding t \<longleftrightarrow> s = t"
  by (metis b64_decode_encode)

text \<open>The characters of an encoding are letters, digits, hyphens and underscores.\<close>

definition key_char :: "char \<Rightarrow> bool" where
  "key_char c \<longleftrightarrow> (let n = byte_of c in 65 \<le> n \<and> n \<le> 90 \<or> 97 \<le> n \<and> n \<le> 122 \<or> 48 \<le> n \<and> n \<le> 57 \<or> n = 45 \<or> n = 95)"

lemma key_char_b64 [simp]: "n < 64 \<Longrightarrow> key_char (b64_char n)"
  by (auto simp: key_char_def b64_char_def byte_of_def Let_def)

lemma key_char_encoding: "c \<in> set (RawURLEncoding s) \<Longrightarrow> key_char c"
proof (induction s rule: RawURLEncoding.induct)
  case (2 x)
  then show ?case using b64_groups [of "byte_of x" 0 0] by (auto simp: Let_def)
next
  case (3 x y)
  then show ?case using b64_groups [of "byte_of x" "byte_of y" 0] by (auto simp: Let_def)
next
  case (4 x y z s)
  then show ?case using b64_groups [of "byte_of x" "byte_of y" "byte_of z"] by (auto simp: Let_def)
qed simp

section \<open>Keys\<close>

definition configMapDataKey :: "string \<Rightarrow> string" where
  "configMapDataKey key = ''state_'' @ RawURLEncoding key"

definition memcacheKey :: "string \<Rightarrow> string \<Rightarrow> string" where
  "memcacheKey keyPrefix key = keyPrefix @ '':state:'' @ RawURLEncoding key"

definition redisKey :: "string \<Rightarrow> string \<Rightarrow> string" where
  "redisKey keyPrefix key = keyPrefix @ '':state:'' @ RawURLEncoding key"

lemma keys_inject [simp]:
  "configMapDataKey k = configMapDataKey l \<longleftrightarrow> k = l"
  "memcacheKey p k = memcacheKey p l \<longleftrightarrow> k = l"
  "redisKey p k = redisKey p l \<longleftrightarrow> k = l"
  by (simp_all add: configMapDataKey_def memcacheKey_def redisKey_def)


section \<open>Expiration times\<close>

definition durationToMemcacheExpiration :: "duration \<Rightarrow> int" where
  "durationToMemcacheExpiration d =
     (if d \<le> 0 then 0
      else let seconds = d div Second in
        if seconds \<le> 0 then 1 else if max_int32 < seconds then max_int32 else i32 seconds)"

text \<open>
  The protocol reads an expiration of up to thirty days as a number of seconds from now, and
  a larger one as a Unix time.
\<close>

definition memcache_relative_limit :: int where
  "memcache_relative_limit = 60 * 60 * 24 * 30"

text \<open>C37: The expiration of an entry never overflows and never becomes unlimited by rounding: for
  a positive time to live it lies between one second and the largest int32, and is the whole
  seconds of the duration within them. It is read as a relative time exactly when the time to
  live is below thirty days and one second; a longer one is read as a date in 1970 to 2038.\<close>

theorem memcache_expiration_bounds:
  assumes "0 < d" "d \<le> max_int64"
  shows "1 \<le> durationToMemcacheExpiration d \<and> durationToMemcacheExpiration d \<le> max_int32 \<and>
    durationToMemcacheExpiration d = max 1 (min (d div Second) max_int32) \<and>
    (durationToMemcacheExpiration d \<le> memcache_relative_limit \<longleftrightarrow> d < (memcache_relative_limit + 1) * Second)"
proof -
  have e: "durationToMemcacheExpiration d = max 1 (min (d div Second) max_int32)"
    using assms(1) i32_id [of "d div Second"]
    by (auto simp: durationToMemcacheExpiration_def Let_def max_int32_def)
  have "d div Second \<le> memcache_relative_limit \<longleftrightarrow> d < (memcache_relative_limit + 1) * Second"
    by (simp add: Second_def memcache_relative_limit_def) linarith
  then show ?thesis
    by (auto simp: e max_int32_def memcache_relative_limit_def)
qed

theorem memcache_expiration_bounds_witness:
  "\<not> durationToMemcacheExpiration (31 * 24 * Hour) \<le> memcache_relative_limit"
proof -
  have "0 < 31 * 24 * Hour" "31 * 24 * Hour \<le> max_int64" "\<not> 31 * 24 * Hour < (memcache_relative_limit + 1) * Second"
    by (simp_all add: duration_units max_int64_def memcache_relative_limit_def)
  then show ?thesis using memcache_expiration_bounds by blast
qed

end
