(* ===== verification/State_Kv.thy ===== *)
theory State_Kv
  imports State_Codec State_Keys
begin

text \<open>
  The backends on key-value clients: \<open>internal/state/backends/memcache\<close>, \<open>redis\<close> and \<open>memory\<close>.
  The clients are libraries and services; they are a record of three functions, and
  \<open>kv_client\<close> states their documented behaviour. The generic cache of gocache between a
  backend and its store passes the key, the value and the error through.
\<close>

text \<open>A read has no value where the client reports a miss; a delete tells whether it found one.\<close>

record ('c, 'v) kv =
  kv_Get :: "time \<Rightarrow> string \<Rightarrow> 'c \<Rightarrow> 'v option result \<times> 'c"
  kv_Set :: "time \<Rightarrow> string \<Rightarrow> 'v \<Rightarrow> int \<Rightarrow> 'c \<Rightarrow> go_error option \<times> 'c"
  kv_Delete :: "time \<Rightarrow> string \<Rightarrow> 'c \<Rightarrow> bool result \<times> 'c"

text \<open>
  \<open>alive x t t'\<close>: a value set at \<open>t\<close> with the expiration \<open>x\<close> is still there at \<open>t'\<close>. The expirations
  that keep a value at least for the instant it is set are the \<open>lasting\<close> ones.
\<close>

locale kv_client =
  fixes kv :: "('c, 'v) kv"
    and up :: "'c \<Rightarrow> bool"
    and contents :: "time \<Rightarrow> 'c \<Rightarrow> string \<Rightarrow> 'v option"
    and alive :: "int \<Rightarrow> time \<Rightarrow> time \<Rightarrow> bool"
    and lasting :: "int \<Rightarrow> bool"
  assumes kv_get: "up c \<Longrightarrow> kv_Get kv t k c = (r, c') \<Longrightarrow>
      r = Inr (contents t c k) \<and> up c' \<and> (\<forall>t' \<ge> t. contents t' c' = contents t' c)"
    and kv_set: "up c \<Longrightarrow> kv_Set kv t k v x c = (err, c') \<Longrightarrow>
      err = None \<and> up c' \<and> (\<forall>t' \<ge> t. contents t' c' = (contents t' c)(k := if alive x t t' then Some v else None))"
    and kv_delete: "up c \<Longrightarrow> kv_Delete kv t k c = (d, c') \<Longrightarrow>
      (\<exists>b. d = Inr b) \<and> up c' \<and> (\<forall>t' \<ge> t. contents t' c' = (contents t' c)(k := None))"
    and alive_now: "lasting x \<Longrightarrow> clock_time t \<Longrightarrow> alive x t t"

section \<open>Memcache\<close>

record memcache_store =
  mc_keyPrefix :: string
  mc_ttl :: duration

text \<open>A store's read: an error, no value (the not-found error of gocache), or the entry.\<close>

definition memcache_Get ::
    "('c, string) kv \<Rightarrow> memcache_store \<Rightarrow> time \<Rightarrow> string \<Rightarrow> 'c \<Rightarrow> entry option result \<times> 'c" where
  "memcache_Get kv s now key c =
     (case kv_Get kv now (memcacheKey (mc_keyPrefix s) key) c of
        (Inl err, c) \<Rightarrow> (Inl (ErrWrap ''memcache get: '' err []), c)
      | (Inr None, c) \<Rightarrow> (Inr None, c)
      | (Inr (Some value), c) \<Rightarrow>
          (case Entry_Unmarshal value zero_entry of
             Inl err \<Rightarrow> (Inl (ErrWrap ''parse state entry: '' err []), c)
           | Inr e \<Rightarrow> (Inr (Some e), c)))"

definition memcache_Set ::
    "('c, string) kv \<Rightarrow> memcache_store \<Rightarrow> time \<Rightarrow> string \<Rightarrow> entry \<Rightarrow> duration \<Rightarrow> 'c \<Rightarrow> go_error option \<times> 'c" where
  "memcache_Set kv s now key e appliedExpiration c =
     (let expiry = (if 0 < appliedExpiration then appliedExpiration else mc_ttl s);
          data = Entry_Marshal e
      in case kv_Set kv now (memcacheKey (mc_keyPrefix s) key) data (durationToMemcacheExpiration expiry) c of
          (Some err, c) \<Rightarrow> (Some (ErrWrap ''memcache set: '' err []), c)
        | (None, c) \<Rightarrow> (None, c))"

definition memcache_Delete ::
    "('c, string) kv \<Rightarrow> memcache_store \<Rightarrow> time \<Rightarrow> string \<Rightarrow> 'c \<Rightarrow> go_error option \<times> 'c" where
  "memcache_Delete kv s now key c =
     (case kv_Delete kv now (memcacheKey (mc_keyPrefix s) key) c of
        (Inl err, c) \<Rightarrow> (Some (ErrWrap ''memcache delete: '' err []), c)
      | (Inr _, c) \<Rightarrow> (None, c))"

definition memcache_GetWithTTL ::
    "('c, string) kv \<Rightarrow> memcache_store \<Rightarrow> time \<Rightarrow> string \<Rightarrow> 'c \<Rightarrow> (entry option \<times> duration) result \<times> 'c" where
  "memcache_GetWithTTL kv s now key c =
     (case memcache_Get kv s now key c of
        (Inl err, c) \<Rightarrow> (Inl err, c)
      | (Inr None, c) \<Rightarrow> (Inr (None, 0), c)
      | (Inr (Some e), c) \<Rightarrow> (Inr (Some e, mc_ttl s), c))"

definition memcache_Invalidate :: "go_error option" where
  "memcache_Invalidate = Some (ErrNew ''Invalidate not supported for Memcache backend'')"

definition memcache_Clear :: "go_error option" where
  "memcache_Clear = Some (ErrNew ''Clear not supported for Memcache backend'')"

text \<open>The backend writes with its time to live as the expiration option, if it has one.\<close>

definition memcache_GetEntry ::
    "('c, string) kv \<Rightarrow> memcache_store \<Rightarrow> time \<Rightarrow> string \<Rightarrow> 'c \<Rightarrow> entry option result \<times> 'c" where
  "memcache_GetEntry kv s now key c =
     (case memcache_Get kv s now key c of
        (Inl err, c) \<Rightarrow> (Inl err, c)
      | (Inr None, c) \<Rightarrow> (Inr None, c)
      | (Inr (Some e), c) \<Rightarrow> (Inr (Some e), c))"

definition memcache_SetEntry ::
    "('c, string) kv \<Rightarrow> memcache_store \<Rightarrow> time \<Rightarrow> string \<Rightarrow> entry option \<Rightarrow> 'c \<Rightarrow> go_error option \<times> 'c" where
  "memcache_SetEntry kv s now key entry c =
     (case entry of None \<Rightarrow> (None, c)
      | Some e \<Rightarrow> memcache_Set kv s now key e (if 0 < mc_ttl s then mc_ttl s else 0) c)"

definition memcache_DeleteEntry ::
    "('c, string) kv \<Rightarrow> memcache_store \<Rightarrow> time \<Rightarrow> string \<Rightarrow> 'c \<Rightarrow> go_error option \<times> 'c" where
  "memcache_DeleteEntry kv s now key c = memcache_Delete kv s now key c"

definition memcache_backend :: "('c, string) kv \<Rightarrow> memcache_store \<Rightarrow> 'c backend" where
  "memcache_backend kv s =
     \<lparr>be_GetEntry = memcache_GetEntry kv s,
      be_SetEntry = (\<lambda>now k e. memcache_SetEntry kv s now k (Some e)),
      be_DeleteEntry = memcache_DeleteEntry kv s\<rparr>"

section \<open>Redis\<close>

record redis_store =
  rd_keyPrefix :: string
  rd_ttl :: duration

definition redis_Get ::
    "('c, string) kv \<Rightarrow> redis_store \<Rightarrow> time \<Rightarrow> string \<Rightarrow> 'c \<Rightarrow> entry option result \<times> 'c" where
  "redis_Get kv s now key c =
     (case kv_Get kv now (redisKey (rd_keyPrefix s) key) c of
        (Inl err, c) \<Rightarrow> (Inl (ErrWrap ''redis get: '' err []), c)
      | (Inr None, c) \<Rightarrow> (Inr None, c)
      | (Inr (Some data), c) \<Rightarrow>
          (case Entry_Unmarshal data zero_entry of
             Inl err \<Rightarrow> (Inl (ErrWrap ''parse state entry: '' err []), c)
           | Inr e \<Rightarrow> (Inr (Some e), c)))"

text \<open>The TTL command of the client is a further argument.\<close>

definition redis_GetWithTTL ::
    "('c, string) kv \<Rightarrow> (time \<Rightarrow> string \<Rightarrow> 'c \<Rightarrow> duration result \<times> 'c) \<Rightarrow> redis_store \<Rightarrow> time \<Rightarrow> string \<Rightarrow> 'c \<Rightarrow>
     (entry option \<times> duration) result \<times> 'c" where
  "redis_GetWithTTL kv ttl_cmd s now key c =
     (let rk = redisKey (rd_keyPrefix s) key in
      case kv_Get kv now rk c of
        (Inl err, c) \<Rightarrow> (Inl (ErrWrap ''redis get: '' err []), c)
      | (Inr None, c) \<Rightarrow> (Inr (None, 0), c)
      | (Inr (Some data), c) \<Rightarrow>
          (case Entry_Unmarshal data zero_entry of
             Inl err \<Rightarrow> (Inl (ErrWrap ''parse state entry: '' err []), c)
           | Inr e \<Rightarrow>
               (case ttl_cmd now rk c of
                  (Inl _, c) \<Rightarrow> (Inr (Some e, rd_ttl s), c)
                | (Inr ttl, c) \<Rightarrow> (Inr (Some e, ttl), c))))"

definition redis_Set ::
    "('c, string) kv \<Rightarrow> redis_store \<Rightarrow> time \<Rightarrow> string \<Rightarrow> entry \<Rightarrow> duration \<Rightarrow> 'c \<Rightarrow> go_error option \<times> 'c" where
  "redis_Set kv s now key e appliedExpiration c =
     (let expiry = (if 0 < appliedExpiration then appliedExpiration else rd_ttl s);
          data = Entry_Marshal e
      in case kv_Set kv now (redisKey (rd_keyPrefix s) key) data expiry c of
          (Some err, c) \<Rightarrow> (Some (ErrWrap ''redis set: '' err []), c)
        | (None, c) \<Rightarrow> (None, c))"

definition redis_Delete ::
    "('c, string) kv \<Rightarrow> redis_store \<Rightarrow> time \<Rightarrow> string \<Rightarrow> 'c \<Rightarrow> go_error option \<times> 'c" where
  "redis_Delete kv s now key c =
     (case kv_Delete kv now (redisKey (rd_keyPrefix s) key) c of
        (Inl err, c) \<Rightarrow> (Some (ErrWrap ''redis del: '' err []), c)
      | (Inr _, c) \<Rightarrow> (None, c))"

definition redis_Invalidate :: "go_error option" where
  "redis_Invalidate = Some (ErrNew ''Invalidate not supported for Redis backend'')"

text \<open>
  \<open>Clear\<close> walks the cursor of the SCAN command until it comes back to zero. The result is
  \<open>None\<close> where it never does; the two commands are arguments.
\<close>

partial_function (option) redis_Clear_loop ::
    "(int \<Rightarrow> string \<Rightarrow> 'c \<Rightarrow> (string list \<times> int) result \<times> 'c) \<Rightarrow>
     (string list \<Rightarrow> 'c \<Rightarrow> go_error option \<times> 'c) \<Rightarrow> string \<Rightarrow> int \<Rightarrow> 'c \<Rightarrow> (go_error option \<times> 'c) option" where
  "redis_Clear_loop scan del pattern cursor c =
     (case scan cursor pattern c of
        (Inl err, c) \<Rightarrow> Some (Some (ErrWrap ''redis scan: '' err []), c)
      | (Inr (keys, nextCursor), c) \<Rightarrow>
          (case (if keys = [] then (None, c) else del keys c) of
             (Some err, c) \<Rightarrow> Some (Some (ErrWrap ''redis del: '' err []), c)
           | (None, c) \<Rightarrow>
               if nextCursor = 0 then Some (None, c) else redis_Clear_loop scan del pattern nextCursor c))"

definition redis_Clear ::
    "(int \<Rightarrow> string \<Rightarrow> 'c \<Rightarrow> (string list \<times> int) result \<times> 'c) \<Rightarrow>
     (string list \<Rightarrow> 'c \<Rightarrow> go_error option \<times> 'c) \<Rightarrow> redis_store \<Rightarrow> 'c \<Rightarrow> (go_error option \<times> 'c) option" where
  "redis_Clear scan del s c = redis_Clear_loop scan del (rd_keyPrefix s @ '':state:*'') 0 c"

text \<open>It returns where the cursors of the server run out: where each round that goes on lowers some
  measure of the cursor and the store.\<close>

lemma redis_Clear_returns:
  assumes "\<And>cursor c keys next c1 c2. scan cursor (rd_keyPrefix s @ '':state:*'') c = (Inr (keys, next), c1) \<Longrightarrow>
      (if keys = [] then (None, c1) else del keys c1) = (None, c2) \<Longrightarrow> next \<noteq> 0 \<Longrightarrow> (m next c2 :: nat) < m cursor c"
  shows "\<exists>result. redis_Clear scan del s c = Some result"
proof -
  have "\<exists>result. redis_Clear_loop scan del (rd_keyPrefix s @ '':state:*'') cursor c = Some result" for cursor
  proof (induction "m cursor c" arbitrary: cursor c rule: less_induct)
    case less
    obtain r c1 where r: "scan cursor (rd_keyPrefix s @ '':state:*'') c = (r, c1)"
      by (cases "scan cursor (rd_keyPrefix s @ '':state:*'') c") auto
    show ?case
    proof (cases r)
      case (Inr kn)
      obtain keys n where kn: "kn = (keys, n)" by (cases kn) auto
      obtain d c2 where d: "(if keys = [] then (None, c1) else del keys c1) = (d, c2)"
        by (cases "if keys = [] then (None, c1) else del keys c1") auto
      show ?thesis
        using less [of n c2] assms [of cursor c keys n c1 c2] r Inr kn d
        by (cases d; cases "n = 0") (simp_all add: redis_Clear_loop.simps [of scan del _ cursor c])
    qed (simp add: redis_Clear_loop.simps [of scan del _ cursor c] r)
  qed
  then show ?thesis by (simp add: redis_Clear_def)
qed

definition redis_GetEntry ::
    "('c, string) kv \<Rightarrow> redis_store \<Rightarrow> time \<Rightarrow> string \<Rightarrow> 'c \<Rightarrow> entry option result \<times> 'c" where
  "redis_GetEntry kv s now key c =
     (case redis_Get kv s now key c of
        (Inl err, c) \<Rightarrow> (Inl err, c)
      | (Inr None, c) \<Rightarrow> (Inr None, c)
      | (Inr (Some e), c) \<Rightarrow> (Inr (Some e), c))"

definition redis_SetEntry ::
    "('c, string) kv \<Rightarrow> redis_store \<Rightarrow> time \<Rightarrow> string \<Rightarrow> entry option \<Rightarrow> 'c \<Rightarrow> go_error option \<times> 'c" where
  "redis_SetEntry kv s now key entry c =
     (case entry of None \<Rightarrow> (None, c)
      | Some e \<Rightarrow> redis_Set kv s now key e (if 0 < rd_ttl s then rd_ttl s else 0) c)"

definition redis_DeleteEntry ::
    "('c, string) kv \<Rightarrow> redis_store \<Rightarrow> time \<Rightarrow> string \<Rightarrow> 'c \<Rightarrow> go_error option \<times> 'c" where
  "redis_DeleteEntry kv s now key c = redis_Delete kv s now key c"

definition redis_backend :: "('c, string) kv \<Rightarrow> redis_store \<Rightarrow> 'c backend" where
  "redis_backend kv s =
     \<lparr>be_GetEntry = redis_GetEntry kv s,
      be_SetEntry = (\<lambda>now k e. redis_SetEntry kv s now k (Some e)),
      be_DeleteEntry = redis_DeleteEntry kv s\<rparr>"

section \<open>Memory\<close>

text \<open>The cleanup interval handed to go-cache, and the backend with its default time to live.\<close>

definition memory_cleanupInterval :: "duration \<Rightarrow> duration" where
  "memory_cleanupInterval ttl =
     (if 0 < ttl then (if ttl div 2 \<le> 0 then Second else ttl div 2) else Minute)"

definition memory_NewBackend_ttl :: "duration \<Rightarrow> duration" where
  "memory_NewBackend_ttl ttl = (if ttl \<le> 0 then 24 * Hour else ttl)"

definition memory_GetEntry :: "('c, entry) kv \<Rightarrow> time \<Rightarrow> string \<Rightarrow> 'c \<Rightarrow> entry option result \<times> 'c" where
  "memory_GetEntry kv now key c =
     (case kv_Get kv now key c of
        (Inl err, c) \<Rightarrow> (Inl err, c)
      | (Inr None, c) \<Rightarrow> (Inr None, c)
      | (Inr (Some e), c) \<Rightarrow> (Inr (Some e), c))"

definition memory_SetEntry ::
    "('c, entry) kv \<Rightarrow> duration \<Rightarrow> time \<Rightarrow> string \<Rightarrow> entry option \<Rightarrow> 'c \<Rightarrow> go_error option \<times> 'c" where
  "memory_SetEntry kv ttl now key entry c =
     (case entry of None \<Rightarrow> (None, c) | Some e \<Rightarrow> kv_Set kv now key e ttl c)"

definition memory_DeleteEntry :: "('c, entry) kv \<Rightarrow> time \<Rightarrow> string \<Rightarrow> 'c \<Rightarrow> go_error option \<times> 'c" where
  "memory_DeleteEntry kv now key c =
     (case kv_Delete kv now key c of (Inl err, c) \<Rightarrow> (Some err, c) | (Inr _, c) \<Rightarrow> (None, c))"

definition memory_backend :: "('c, entry) kv \<Rightarrow> duration \<Rightarrow> 'c backend" where
  "memory_backend kv ttl =
     (let ttl = memory_NewBackend_ttl ttl in
      \<lparr>be_GetEntry = memory_GetEntry kv,
       be_SetEntry = (\<lambda>now k e. memory_SetEntry kv ttl now k (Some e)),
       be_DeleteEntry = memory_DeleteEntry kv\<rparr>)"

section \<open>The backends keep the contract\<close>

text \<open>
  What the two text stores show through a key function: the entries they can parse. They
  work as long as everything they hold under their keys can be parsed.
\<close>

definition text_view ::
    "(time \<Rightarrow> 'c \<Rightarrow> string \<Rightarrow> string option) \<Rightarrow> (string \<Rightarrow> string) \<Rightarrow> time \<Rightarrow> 'c \<Rightarrow> string \<Rightarrow> entry option" where
  "text_view contents key t c k =
     (case contents t c (key k) of None \<Rightarrow> None
      | Some text \<Rightarrow> (case Entry_Unmarshal text zero_entry of Inr e \<Rightarrow> Some e | Inl _ \<Rightarrow> None))"

definition text_works ::
    "('c \<Rightarrow> bool) \<Rightarrow> (time \<Rightarrow> 'c \<Rightarrow> string \<Rightarrow> string option) \<Rightarrow> (string \<Rightarrow> string) \<Rightarrow> time \<Rightarrow> 'c \<Rightarrow> bool" where
  "text_works up contents key t c \<longleftrightarrow> up c \<and>
     (\<forall>t' \<ge> t. \<forall>k text. contents t' c (key k) = Some text \<longrightarrow> (\<exists>e. Entry_Unmarshal text zero_entry = Inr e))"

definition text_keeps :: "time \<Rightarrow> entry \<Rightarrow> bool" where
  "text_keeps t e \<longleftrightarrow> ascii (e_Fingerprint e) \<and> ascii (e_Summary e) \<and> clock_time t"

definition text_shows :: "(time \<Rightarrow> time \<Rightarrow> bool) \<Rightarrow> time \<Rightarrow> time \<Rightarrow> entry \<Rightarrow> entry option" where
  "text_shows alive t t' e = (if alive t t' then Some (stored_entry e) else None)"

lemma text_view_upd:
  assumes "inj key" "text_keeps t e"
    and "contents t' c' = (contents t' c)(key k := if alive then Some (Entry_Marshal e) else None)"
  shows "text_view contents key t' c' = (text_view contents key t' c)(k := if alive then Some (stored_entry e) else None)"
  using assms unmarshal_marshal
  by (auto simp: text_view_def text_keeps_def fun_eq_iff inj_eq split: option.split)

lemma text_view_del:
  assumes "inj key" "contents t' c' = (contents t' c)(key k := None)"
  shows "text_view contents key t' c' = (text_view contents key t' c)(k := None)"
  using assms by (auto simp: text_view_def fun_eq_iff inj_eq split: option.split)

lemma text_works_upd:
  assumes "text_works up contents key t c" "up c'" "text_keeps t e"
    and "\<And>t'. t \<le> t' \<Longrightarrow> contents t' c' = (contents t' c)(K := if alive t' then Some (Entry_Marshal e) else None)"
  shows "text_works up contents key t c'"
  using assms unmarshal_marshal by (auto simp: text_works_def text_keeps_def split: if_splits)

lemma text_works_same:
  assumes "text_works up contents key t c" "up c'" "\<And>t'. t \<le> t' \<Longrightarrow> contents t' c' = contents t' c"
  shows "text_works up contents key t c'"
  using assms by (auto simp: text_works_def)

lemma text_works_del:
  assumes "text_works up contents key t c" "up c'" "\<And>t'. t \<le> t' \<Longrightarrow> contents t' c' = (contents t' c)(K := None)"
  shows "text_works up contents key t c'"
  using assms by (auto simp: text_works_def split: if_splits)

lemma text_works_later: "text_works up contents key t c \<Longrightarrow> t \<le> t' \<Longrightarrow> text_works up contents key t' c"
  unfolding text_works_def by (meson order_trans)

text \<open>
  Both stores are one backend of texts, for a key function, an expiration and the labels of
  their errors. Its laws are proved once.
\<close>

definition text_backend ::
    "('c, string) kv \<Rightarrow> (string \<Rightarrow> string) \<Rightarrow> int \<Rightarrow> string \<times> string \<times> string \<Rightarrow> 'c backend" where
  "text_backend kv key x labels = (case labels of (gl, sl, dl) \<Rightarrow>
     \<lparr>be_GetEntry = (\<lambda>now k c. case kv_Get kv now (key k) c of
          (Inl err, c) \<Rightarrow> (Inl (ErrWrap gl err []), c)
        | (Inr None, c) \<Rightarrow> (Inr None, c)
        | (Inr (Some text), c) \<Rightarrow>
            (case Entry_Unmarshal text zero_entry of
               Inl err \<Rightarrow> (Inl (ErrWrap ''parse state entry: '' err []), c)
             | Inr e \<Rightarrow> (Inr (Some e), c))),
      be_SetEntry = (\<lambda>now k e c. case kv_Set kv now (key k) (Entry_Marshal e) x c of
          (Some err, c) \<Rightarrow> (Some (ErrWrap sl err []), c)
        | (None, c) \<Rightarrow> (None, c)),
      be_DeleteEntry = (\<lambda>now k c. case kv_Delete kv now (key k) c of
          (Inl err, c) \<Rightarrow> (Some (ErrWrap dl err []), c)
        | (Inr _, c) \<Rightarrow> (None, c))\<rparr>)"

lemma memcache_backend_eq:
  "0 < mc_ttl s \<Longrightarrow> memcache_backend kv s = text_backend kv (memcacheKey (mc_keyPrefix s))
     (durationToMemcacheExpiration (mc_ttl s)) (''memcache get: '', ''memcache set: '', ''memcache delete: '')"
  by (simp add: memcache_backend_def text_backend_def memcache_GetEntry_def memcache_Get_def memcache_SetEntry_def
      memcache_Set_def memcache_DeleteEntry_def memcache_Delete_def fun_eq_iff Let_def
      split: prod.split sum.split option.split)

lemma redis_backend_eq:
  "0 < rd_ttl s \<Longrightarrow> redis_backend kv s = text_backend kv (redisKey (rd_keyPrefix s))
     (rd_ttl s) (''redis get: '', ''redis set: '', ''redis del: '')"
  by (simp add: redis_backend_def text_backend_def redis_GetEntry_def redis_Get_def redis_SetEntry_def
      redis_Set_def redis_DeleteEntry_def redis_Delete_def fun_eq_iff Let_def
      split: prod.split sum.split option.split)

locale text_store = kv_client kv up contents alive lasting
  for kv :: "('c, string) kv" and up contents alive lasting +
  fixes key :: "string \<Rightarrow> string" and x :: int and labels :: "string \<times> string \<times> string"
  assumes key_inj: "inj key" and x_lasting: "lasting x"
begin

lemma text_get_law:
  assumes "text_works up contents key t c" "be_GetEntry (text_backend kv key x labels) t k c = (r, c')"
  shows "r = Inr (text_view contents key t c k) \<and> text_works up contents key t c' \<and>
    (\<forall>t' \<ge> t. text_view contents key t' c' = text_view contents key t' c)"
proof -
  obtain y c1 where g: "kv_Get kv t (key k) c = (y, c1)" by (cases "kv_Get kv t (key k) c") auto
  have l: "y = Inr (contents t c (key k))" "up c1" "\<And>t'. t \<le> t' \<Longrightarrow> contents t' c1 = contents t' c"
    using kv_get [OF _ g] assms(1) by (auto simp: text_works_def)
  have p: "\<And>text. contents t c (key k) = Some text \<Longrightarrow> \<exists>e. Entry_Unmarshal text zero_entry = Inr e"
    using assms(1) by (auto simp: text_works_def)
  have "c' = c1 \<and> r = Inr (text_view contents key t c k)"
    using assms(2) p
    by (auto simp: text_backend_def g l(1) text_view_def split: prod.splits option.splits sum.splits)
  then show ?thesis using text_works_same [OF assms(1) l(2,3)] l(3) by (simp add: text_view_def fun_eq_iff)
qed

lemma text_set_law:
  assumes "text_works up contents key t c" "text_keeps t e"
    "be_SetEntry (text_backend kv key x labels) t k e c = (err, c')"
  shows "err = None \<and> text_works up contents key t c' \<and>
    (\<forall>t' \<ge> t. text_view contents key t' c' = (text_view contents key t' c)(k := text_shows (alive x) t t' e))"
proof -
  obtain er c1 where g: "kv_Set kv t (key k) (Entry_Marshal e) x c = (er, c1)"
    by (cases "kv_Set kv t (key k) (Entry_Marshal e) x c") auto
  have l: "er = None" "up c1" "\<And>t'. t \<le> t' \<Longrightarrow> contents t' c1 =
      (contents t' c)(key k := if alive x t t' then Some (Entry_Marshal e) else None)"
    using kv_set [OF _ g] assms(1) by (auto simp: text_works_def)
  have "c' = c1 \<and> err = None"
    using assms(3) by (auto simp: text_backend_def g l(1) split: prod.splits)
  then show ?thesis
    using text_works_upd [OF assms(1) l(2) assms(2) l(3)]
      text_view_upd [where contents = contents, OF key_inj assms(2) l(3)]
    by (simp add: text_shows_def)
qed

lemma text_delete_law:
  assumes "text_works up contents key t c" "be_DeleteEntry (text_backend kv key x labels) t k c = (err, c')"
  shows "err = None \<and> text_works up contents key t c' \<and>
    (\<forall>t' \<ge> t. text_view contents key t' c' = (text_view contents key t' c)(k := None))"
proof -
  obtain d c1 where g: "kv_Delete kv t (key k) c = (d, c1)" by (cases "kv_Delete kv t (key k) c") auto
  have l: "\<exists>b. d = Inr b" "up c1" "\<And>t'. t \<le> t' \<Longrightarrow> contents t' c1 = (contents t' c)(key k := None)"
    using kv_delete [OF _ g] assms(1) by (auto simp: text_works_def)
  have "c' = c1 \<and> err = None"
    using assms(2) l(1) by (auto simp: text_backend_def g split: prod.splits)
  then show ?thesis
    using text_works_del [OF assms(1) l(2,3)] text_view_del [where contents = contents, OF key_inj l(3)] by simp
qed

end

sublocale text_store \<subseteq> state_backend "text_backend kv key x labels" "text_works up contents key"
    "text_view contents key" text_keeps "text_shows (alive x)"
  by unfold_locales
    (fact text_works_later text_get_law text_set_law text_delete_law
     | use alive_now [OF x_lasting] in \<open>auto simp: text_shows_def text_keeps_def stored_entry_def split: if_splits\<close>)+

locale memcache_client = kv_client kv up contents alive lasting
  for kv :: "('c, string) kv" and up contents alive lasting +
  fixes s :: memcache_store
  assumes ttl_positive: "0 < mc_ttl s"
    and ttl_lasting: "lasting (durationToMemcacheExpiration (mc_ttl s))"

sublocale memcache_client \<subseteq> memcache_text: text_store kv up contents alive lasting
    "memcacheKey (mc_keyPrefix s)" "durationToMemcacheExpiration (mc_ttl s)"
    "(''memcache get: '', ''memcache set: '', ''memcache delete: '')"
  by unfold_locales (auto simp: inj_on_def ttl_lasting)

sublocale memcache_client \<subseteq> state_backend "memcache_backend kv s"
    "text_works up contents (memcacheKey (mc_keyPrefix s))" "text_view contents (memcacheKey (mc_keyPrefix s))"
    text_keeps "text_shows (alive (durationToMemcacheExpiration (mc_ttl s)))"
  unfolding memcache_backend_eq [OF ttl_positive] by (rule memcache_text.state_backend_axioms)

context memcache_client
begin

lemma contract: "state_backend (memcache_backend kv s) (text_works up contents (memcacheKey (mc_keyPrefix s)))
    (text_view contents (memcacheKey (mc_keyPrefix s))) text_keeps
    (text_shows (alive (durationToMemcacheExpiration (mc_ttl s))))"
  by unfold_locales

end

locale redis_client = kv_client kv up contents alive lasting
  for kv :: "('c, string) kv" and up contents alive lasting +
  fixes s :: redis_store
  assumes ttl_positive: "0 < rd_ttl s" and ttl_lasting: "lasting (rd_ttl s)"

sublocale redis_client \<subseteq> redis_text: text_store kv up contents alive lasting
    "redisKey (rd_keyPrefix s)" "rd_ttl s" "(''redis get: '', ''redis set: '', ''redis del: '')"
  by unfold_locales (auto simp: inj_on_def ttl_lasting)

sublocale redis_client \<subseteq> state_backend "redis_backend kv s"
    "text_works up contents (redisKey (rd_keyPrefix s))" "text_view contents (redisKey (rd_keyPrefix s))"
    text_keeps "text_shows (alive (rd_ttl s))"
  unfolding redis_backend_eq [OF ttl_positive] by (rule redis_text.state_backend_axioms)

context redis_client
begin

lemma contract: "state_backend (redis_backend kv s) (text_works up contents (redisKey (rd_keyPrefix s)))
    (text_view contents (redisKey (rd_keyPrefix s))) text_keeps (text_shows (alive (rd_ttl s)))"
  by unfold_locales

end

text \<open>The memory backend keeps the entries themselves.\<close>

locale memory_client = kv_client kv up contents alive lasting
  for kv :: "('c, entry) kv" and up contents alive lasting +
  fixes ttl :: duration
  assumes ttl_lasting: "lasting (memory_NewBackend_ttl ttl)"

sublocale memory_client \<subseteq> state_backend "memory_backend kv ttl" "\<lambda>_. up" contents "\<lambda>t _. clock_time t"
    "\<lambda>t t' e. if alive (memory_NewBackend_ttl ttl) t t' then Some e else None"
proof unfold_locales
  fix t t' :: time and c c' and k e e' err r
  show "up c \<Longrightarrow> be_GetEntry (memory_backend kv ttl) t k c = (r, c') \<Longrightarrow>
      r = Inr (contents t c k) \<and> up c' \<and> (\<forall>t'\<ge>t. contents t' c' = contents t' c)"
    using kv_get [of c t k _ c']
    by (auto simp: memory_backend_def memory_GetEntry_def Let_def split: prod.splits sum.splits option.splits)
  show "up c \<Longrightarrow> clock_time t \<Longrightarrow> be_SetEntry (memory_backend kv ttl) t k e c = (err, c') \<Longrightarrow>
      err = None \<and> up c' \<and> (\<forall>t'\<ge>t. contents t' c' =
        (contents t' c)(k := if alive (memory_NewBackend_ttl ttl) t t' then Some e else None))"
    using kv_set [of c t k e "memory_NewBackend_ttl ttl" err c']
    by (simp add: memory_backend_def memory_SetEntry_def Let_def)
  show "up c \<Longrightarrow> be_DeleteEntry (memory_backend kv ttl) t k c = (err, c') \<Longrightarrow>
      err = None \<and> up c' \<and> (\<forall>t'\<ge>t. contents t' c' = (contents t' c)(k := None))"
    using kv_delete [of c t k _ c']
    by (auto simp: memory_backend_def memory_DeleteEntry_def Let_def split: prod.splits sum.splits)
qed (use alive_now [OF ttl_lasting] in \<open>auto split: if_splits\<close>)

context memory_client
begin

lemma contract: "state_backend (memory_backend kv ttl) (\<lambda>_. up) contents (\<lambda>t _. clock_time t)
    (\<lambda>t t' e. if alive (memory_NewBackend_ttl ttl) t t' then Some e else None)"
  by unfold_locales

end

section \<open>A client in memory\<close>

text \<open>
  The client that the tests of the Memcache store use, with items that hold the instant they
  expire: \<open>fakeMemcacheClient\<close> of \<open>memcache/store_test.go\<close>. The unit of an expiration is a
  second there; with other units it stands for the other two clients.
\<close>

record 'v fakeItem =
  fi_value :: 'v
  fi_expiresAt :: time

definition item_expired :: "time \<Rightarrow> time \<Rightarrow> bool" where
  "item_expired now expiresAt \<longleftrightarrow> \<not> time_IsZero expiresAt \<and> time_After now expiresAt"

definition fake_Get :: "time \<Rightarrow> string \<Rightarrow> (string \<rightharpoonup> 'v fakeItem) \<Rightarrow> 'v option result \<times> (string \<rightharpoonup> 'v fakeItem)" where
  "fake_Get now key items =
     (case items key of None \<Rightarrow> (Inr None, items)
      | Some it \<Rightarrow> if item_expired now (fi_expiresAt it) then (Inr None, items(key := None)) else (Inr (Some (fi_value it)), items))"

definition expires_at :: "duration \<Rightarrow> int \<Rightarrow> time \<Rightarrow> time" where
  "expires_at unit x now = (if 0 < x then time_Add now (x * unit) else 0)"

definition fake_Set ::
    "duration \<Rightarrow> time \<Rightarrow> string \<Rightarrow> 'v \<Rightarrow> int \<Rightarrow> (string \<rightharpoonup> 'v fakeItem) \<Rightarrow> go_error option \<times> (string \<rightharpoonup> 'v fakeItem)" where
  "fake_Set unit now key v x items =
     (None, items(key \<mapsto> \<lparr>fi_value = v, fi_expiresAt = expires_at unit x now\<rparr>))"

definition fake_Delete ::
    "time \<Rightarrow> string \<Rightarrow> (string \<rightharpoonup> 'v fakeItem) \<Rightarrow> bool result \<times> (string \<rightharpoonup> 'v fakeItem)" where
  "fake_Delete now key items =
     (if items key = None then (Inr False, items) else (Inr True, items(key := None)))"

definition fake_kv :: "duration \<Rightarrow> (string \<rightharpoonup> 'v fakeItem, 'v) kv" where
  "fake_kv unit = \<lparr>kv_Get = fake_Get, kv_Set = fake_Set unit, kv_Delete = fake_Delete\<rparr>"

definition fake_contents :: "time \<Rightarrow> (string \<rightharpoonup> 'v fakeItem) \<Rightarrow> string \<Rightarrow> 'v option" where
  "fake_contents t items k =
     (case items k of None \<Rightarrow> None | Some it \<Rightarrow> if item_expired t (fi_expiresAt it) then None else Some (fi_value it))"

definition fake_alive :: "duration \<Rightarrow> int \<Rightarrow> time \<Rightarrow> time \<Rightarrow> bool" where
  "fake_alive unit x t t' \<longleftrightarrow> \<not> item_expired t' (expires_at unit x t)"

definition fake_lasting :: "duration \<Rightarrow> int \<Rightarrow> bool" where
  "fake_lasting unit x \<longleftrightarrow> 0 < x \<and> 0 \<le> unit \<and> x * unit \<le> max_int64"

lemma item_expired_later: "item_expired t it \<Longrightarrow> t \<le> t' \<Longrightarrow> item_expired t' it"
  by (simp add: item_expired_def time_After_def)

lemma fake_contents_upd [simp]:
  "fake_contents t (items(k := None)) = (fake_contents t items)(k := None)"
  "fake_contents t (items(k \<mapsto> it)) =
     (fake_contents t items)(k := if item_expired t (fi_expiresAt it) then None else Some (fi_value it))"
  by (auto simp: fake_contents_def fun_eq_iff)

lemma fake_Get_eq:
  "fst (fake_Get t k items) = Inr (fake_contents t items k)"
  "t \<le> t' \<Longrightarrow> fake_contents t' (snd (fake_Get t k items)) = fake_contents t' items"
proof -
  show "fst (fake_Get t k items) = Inr (fake_contents t items k)"
    by (simp add: fake_Get_def fake_contents_def split: option.split)
  have "fake_contents t' items k = None" if "items k = Some it" "item_expired t (fi_expiresAt it)" "t \<le> t'" for it
    using that item_expired_later by (simp add: fake_contents_def)
  then show "t \<le> t' \<Longrightarrow> fake_contents t' (snd (fake_Get t k items)) = fake_contents t' items"
    by (simp add: fake_Get_def fun_upd_idem split: option.split)
qed

lemma fake_kv_client: "kv_client (fake_kv unit) (\<lambda>_. True) fake_contents (fake_alive unit) (fake_lasting unit)"
proof
  fix t k r c c' err v x d
  show "kv_Get (fake_kv unit) t k c = (r, c') \<Longrightarrow>
      r = Inr (fake_contents t c k) \<and> True \<and> (\<forall>t'\<ge>t. fake_contents t' c' = fake_contents t' c)"
    using fake_Get_eq [where t = t and k = k and items = c] by (simp add: fake_kv_def)
  show "kv_Set (fake_kv unit) t k v x c = (err, c') \<Longrightarrow> err = None \<and> True \<and>
      (\<forall>t'\<ge>t. fake_contents t' c' = (fake_contents t' c)(k := if fake_alive unit x t t' then Some v else None))"
    by (auto simp: fake_kv_def fake_Set_def fake_alive_def)
  show "kv_Delete (fake_kv unit) t k c = (d, c') \<Longrightarrow>
      (\<exists>b. d = Inr b) \<and> True \<and> (\<forall>t'\<ge>t. fake_contents t' c' = (fake_contents t' c)(k := None))"
    by (auto simp: fake_kv_def fake_Delete_def fake_contents_def fun_upd_idem split: if_splits)
  show "fake_lasting unit x \<Longrightarrow> clock_time t \<Longrightarrow> fake_alive unit x t t"
    by (auto simp: fake_lasting_def fake_alive_def item_expired_def expires_at_def time_After_def
        time_Add_clock not_less [symmetric] mult_less_0_iff)
qed

definition ex_memcache :: memcache_store where
  "ex_memcache = \<lparr>mc_keyPrefix = ''komodor'', mc_ttl = 24 * Hour\<rparr>"

definition ex_redis :: redis_store where
  "ex_redis = \<lparr>rd_keyPrefix = ''komodor'', rd_ttl = 24 * Hour\<rparr>"

interpretation fake_memcache: memcache_client "fake_kv Second" "\<lambda>_. True" fake_contents "fake_alive Second"
    "fake_lasting Second" ex_memcache
proof (intro memcache_client.intro fake_kv_client memcache_client_axioms.intro)
  have "durationToMemcacheExpiration (24 * Hour) = 86400"
    by (simp add: durationToMemcacheExpiration_def duration_units max_int32_def i32_id)
  then show "fake_lasting Second (durationToMemcacheExpiration (mc_ttl ex_memcache))"
    by (simp add: fake_lasting_def ex_memcache_def Second_def max_int64_def)
qed (simp add: ex_memcache_def duration_units)

interpretation fake_redis: redis_client "fake_kv 1" "\<lambda>_. True" fake_contents "fake_alive 1" "fake_lasting 1" ex_redis
  by (intro redis_client.intro fake_kv_client redis_client_axioms.intro)
    (simp_all add: fake_lasting_def ex_redis_def duration_units max_int64_def)

interpretation fake_memory: memory_client "fake_kv 1" "\<lambda>_. True" fake_contents "fake_alive 1" "fake_lasting 1" 0
  by (intro memory_client.intro fake_kv_client memory_client_axioms.intro)
    (simp add: fake_lasting_def memory_NewBackend_ttl_def duration_units max_int64_def)

end
