(* ===== verification/State_Configmap.thy ===== *)
theory State_Configmap
  imports State_Codec State_Keys
begin

text \<open>
  The backend of \<open>internal/state/backends/configmap/store.go\<close>: the entries are the data of one
  ConfigMap, and the expiry is judged by the program on reading. The Kubernetes client and
  the retry on conflicts are libraries; they are a record of functions, and
  \<open>configmap_client\<close> states their documented behaviour without concurrent writers.
\<close>

record configmap =
  cm_Name :: string
  cm_Namespace :: string
  cm_ResourceVersion :: string
  cm_Data :: "(string \<rightharpoonup> string) option"

record 'c configmap_api =
  ca_Get :: "string \<Rightarrow> string \<Rightarrow> 'c \<Rightarrow> configmap option result \<times> 'c"
  ca_Create :: "configmap \<Rightarrow> 'c \<Rightarrow> go_error option \<times> 'c"
  ca_Update :: "configmap \<Rightarrow> 'c \<Rightarrow> go_error option \<times> 'c"
  ca_RetryOnConflict :: "('c \<Rightarrow> go_error option \<times> 'c) \<Rightarrow> 'c \<Rightarrow> go_error option \<times> 'c"

record configmap_store =
  cs_namespace :: string
  cs_configMap :: string
  cs_ttl :: duration

definition isExpired :: "configmap_store \<Rightarrow> entry option \<Rightarrow> time \<Rightarrow> bool" where
  "isExpired s entry now =
     (case entry of None \<Rightarrow> False
      | Some e \<Rightarrow>
          if cs_ttl s \<le> 0 \<or> time_IsZero (e_LastScannedTime e) then False
          else time_After now (time_Add (e_LastScannedTime e) (cs_ttl s)))"

definition set_attempt ::
    "'c configmap_api \<Rightarrow> configmap_store \<Rightarrow> string \<Rightarrow> string \<Rightarrow> 'c \<Rightarrow> go_error option \<times> 'c" where
  "set_attempt api s storageKey value c =
     (case ca_Get api (cs_namespace s) (cs_configMap s) c of
        (Inl err, c) \<Rightarrow> (Some (ErrWrap ''get configmap: '' err []), c)
      | (Inr None, c) \<Rightarrow>
          (case ca_Create api \<lparr>cm_Name = cs_configMap s, cm_Namespace = cs_namespace s, cm_ResourceVersion = [],
                  cm_Data = Some [storageKey \<mapsto> value]\<rparr> c of
             (Some err, c) \<Rightarrow> (Some (ErrWrap ''create configmap: '' err []), c)
           | (None, c) \<Rightarrow> (None, c))
      | (Inr (Some cm), c) \<Rightarrow>
          let data = (case cm_Data cm of None \<Rightarrow> Map.empty | Some d \<Rightarrow> d) in
          (case ca_Update api (cm\<lparr>cm_Data := Some (data(storageKey \<mapsto> value))\<rparr>) c of
             (Some err, c) \<Rightarrow> (Some (ErrWrap ''update configmap: '' err []), c)
           | (None, c) \<Rightarrow> (None, c)))"

definition configmap_Set ::
    "'c configmap_api \<Rightarrow> configmap_store \<Rightarrow> string \<Rightarrow> entry \<Rightarrow> 'c \<Rightarrow> go_error option \<times> 'c" where
  "configmap_Set api s key e c =
     (let storageKey = configMapDataKey key; value = Entry_Marshal e
      in ca_RetryOnConflict api (set_attempt api s storageKey value) c)"

definition delete_attempt ::
    "'c configmap_api \<Rightarrow> configmap_store \<Rightarrow> string \<Rightarrow> 'c \<Rightarrow> go_error option \<times> 'c" where
  "delete_attempt api s storageKey c =
     (case ca_Get api (cs_namespace s) (cs_configMap s) c of
        (Inl err, c) \<Rightarrow> (Some (ErrWrap ''get configmap: '' err []), c)
      | (Inr None, c) \<Rightarrow> (None, c)
      | (Inr (Some cm), c) \<Rightarrow>
          (case cm_Data cm of None \<Rightarrow> (None, c)
           | Some data \<Rightarrow>
               if data storageKey = None then (None, c)
               else (case ca_Update api (cm\<lparr>cm_Data := Some (data(storageKey := None))\<rparr>) c of
                   (Some err, c) \<Rightarrow> (Some (ErrWrap ''update configmap: '' err []), c)
                 | (None, c) \<Rightarrow> (None, c))))"

definition configmap_Delete ::
    "'c configmap_api \<Rightarrow> configmap_store \<Rightarrow> string \<Rightarrow> 'c \<Rightarrow> go_error option \<times> 'c" where
  "configmap_Delete api s key c = ca_RetryOnConflict api (delete_attempt api s (configMapDataKey key)) c"

definition configmap_Get ::
    "'c configmap_api \<Rightarrow> configmap_store \<Rightarrow> time \<Rightarrow> string \<Rightarrow> 'c \<Rightarrow> entry option result \<times> 'c" where
  "configmap_Get api s now key c =
     (case ca_Get api (cs_namespace s) (cs_configMap s) c of
        (Inl err, c) \<Rightarrow> (Inl (ErrWrap ''get configmap: '' err []), c)
      | (Inr None, c) \<Rightarrow> (Inr None, c)
      | (Inr (Some cm), c) \<Rightarrow>
          (case Option.bind (cm_Data cm) (\<lambda>data. data (configMapDataKey key)) of
             None \<Rightarrow> (Inr None, c)
           | Some data \<Rightarrow>
               (case Entry_Unmarshal data zero_entry of
                  Inl err \<Rightarrow> (Inl (ErrWrap (''parse state entry for key '' @ key @ '': '') err []), c)
                | Inr e \<Rightarrow>
                    if isExpired s (Some e) now then (Inr None, snd (configmap_Delete api s key c))
                    else (Inr (Some e), c))))"

definition configmap_GetWithTTL ::
    "'c configmap_api \<Rightarrow> configmap_store \<Rightarrow> time \<Rightarrow> string \<Rightarrow> 'c \<Rightarrow> (entry option \<times> duration) result \<times> 'c" where
  "configmap_GetWithTTL api s now key c =
     (case configmap_Get api s now key c of
        (Inl err, c) \<Rightarrow> (Inl err, c)
      | (Inr None, c) \<Rightarrow> (Inr (None, 0), c)
      | (Inr (Some e), c) \<Rightarrow> (Inr (Some e, cs_ttl s), c))"

definition configmap_Clear :: "go_error option" where
  "configmap_Clear = Some (ErrNew ''Clear not supported for ConfigMap backend'')"

definition configmap_Invalidate :: "go_error option" where
  "configmap_Invalidate = Some (ErrNew ''Invalidate not supported for ConfigMap backend'')"

section \<open>The backend\<close>

definition configmap_NewBackend :: "string \<Rightarrow> string \<Rightarrow> duration \<Rightarrow> configmap_store" where
  "configmap_NewBackend namespace configMapName ttl =
     \<lparr>cs_namespace = namespace, cs_configMap = configMapName,
      cs_ttl = (if ttl \<le> 0 then 24 * Hour else ttl)\<rparr>"

definition configmap_GetEntry ::
    "'c configmap_api \<Rightarrow> configmap_store \<Rightarrow> time \<Rightarrow> string \<Rightarrow> 'c \<Rightarrow> entry option result \<times> 'c" where
  "configmap_GetEntry api s now key c =
     (case configmap_Get api s now key c of
        (Inl err, c) \<Rightarrow> (Inl err, c)
      | (Inr None, c) \<Rightarrow> (Inr None, c)
      | (Inr (Some e), c) \<Rightarrow> (Inr (Some e), c))"

text \<open>The expiration option of the backend's write is not used by this store.\<close>

definition configmap_SetEntry ::
    "'c configmap_api \<Rightarrow> configmap_store \<Rightarrow> string \<Rightarrow> entry option \<Rightarrow> 'c \<Rightarrow> go_error option \<times> 'c" where
  "configmap_SetEntry api s key entry c =
     (case entry of None \<Rightarrow> (None, c) | Some e \<Rightarrow> configmap_Set api s key e c)"

definition configmap_DeleteEntry ::
    "'c configmap_api \<Rightarrow> configmap_store \<Rightarrow> string \<Rightarrow> 'c \<Rightarrow> go_error option \<times> 'c" where
  "configmap_DeleteEntry api s key c = configmap_Delete api s key c"

definition configmap_backend :: "'c configmap_api \<Rightarrow> configmap_store \<Rightarrow> 'c backend" where
  "configmap_backend api s =
     \<lparr>be_GetEntry = configmap_GetEntry api s,
      be_SetEntry = (\<lambda>now k e. configmap_SetEntry api s k (Some e)),
      be_DeleteEntry = (\<lambda>now k. configmap_DeleteEntry api s k)\<rparr>"

section \<open>The client\<close>

text \<open>
  The objects of the namespace as the client shows them: there is the ConfigMap or there is
  not. A read returns it, a create makes it where there is none, an update of the object just
  read replaces it, and a function that succeeds is run once. The data of the ConfigMap may
  be nil.
\<close>

text \<open>The data of the ConfigMap, empty where it is missing.\<close>

definition data_of :: "('c \<Rightarrow> configmap option) \<Rightarrow> 'c \<Rightarrow> string \<Rightarrow> string option" where
  "data_of object c k = Option.bind (object c) (\<lambda>cm. Option.bind (cm_Data cm) (\<lambda>d. d k))"

lemma data_of_eq: "map_option cm_Data (object c) = Some (Some d) \<Longrightarrow> data_of object c = d"
  by (rule ext) (auto simp: data_of_def)

locale configmap_client =
  fixes api :: "'c configmap_api" and s :: configmap_store
    and reachable :: "'c \<Rightarrow> bool"
    and object :: "'c \<Rightarrow> configmap option"
  assumes api_get: "reachable c \<Longrightarrow> ca_Get api (cs_namespace s) (cs_configMap s) c = (r, c') \<Longrightarrow>
      r = Inr (object c) \<and> reachable c' \<and> object c' = object c"
    and api_create: "reachable c \<Longrightarrow> object c = None \<Longrightarrow> cm_Name cm = cs_configMap s \<Longrightarrow>
      cm_Namespace cm = cs_namespace s \<Longrightarrow> ca_Create api cm c = (err, c') \<Longrightarrow>
      err = None \<and> reachable c' \<and> map_option cm_Data (object c') = Some (cm_Data cm)"
    and api_update: "reachable c \<Longrightarrow> object c = Some old \<Longrightarrow> cm = old\<lparr>cm_Data := d\<rparr> \<Longrightarrow>
      ca_Update api cm c = (err, c') \<Longrightarrow>
      err = None \<and> reachable c' \<and> map_option cm_Data (object c') = Some d"
    and api_retry: "f c = (None, c') \<Longrightarrow> ca_RetryOnConflict api f c = (None, c')"
    and ttl_second: "Second \<le> cs_ttl s" and ttl_i64: "cs_ttl s \<le> max_int64"
begin

lemma set_attempt_works:
  assumes "reachable c"
  shows "\<exists>c'. set_attempt api s k v c = (None, c') \<and> reachable c' \<and> data_of object c' = (data_of object c)(k \<mapsto> v)"
proof -
  obtain r c1 where g: "ca_Get api (cs_namespace s) (cs_configMap s) c = (r, c1)"
    by (cases "ca_Get api (cs_namespace s) (cs_configMap s) c") auto
  note l = api_get [OF assms g]
  show ?thesis
  proof (cases "object c")
    case None
    let ?cm = "\<lparr>cm_Name = cs_configMap s, cm_Namespace = cs_namespace s, cm_ResourceVersion = [], cm_Data = Some [k \<mapsto> v]\<rparr>"
    obtain err c2 where u: "ca_Create api ?cm c1 = (err, c2)" by (cases "ca_Create api ?cm c1") auto
    have w: "err = None" "reachable c2" "data_of object c2 = [k \<mapsto> v]"
      using api_create [OF _ _ _ _ u] l None by (simp_all add: data_of_eq)
    have "data_of object c = Map.empty" by (rule ext) (simp add: data_of_def None)
    then show ?thesis using w l None by (simp add: set_attempt_def g u)
  next
    case (Some cm)
    let ?d = "case cm_Data cm of None \<Rightarrow> Map.empty | Some d \<Rightarrow> d"
    let ?cm = "cm\<lparr>cm_Data := Some (?d(k \<mapsto> v))\<rparr>"
    obtain err c2 where u: "ca_Update api ?cm c1 = (err, c2)" by (cases "ca_Update api ?cm c1") auto
    have w: "err = None" "reachable c2" "data_of object c2 = ?d(k \<mapsto> v)"
      using api_update [OF _ _ refl u] l Some by (simp_all add: data_of_eq)
    have "data_of object c = ?d" by (rule ext) (simp add: data_of_def Some split: option.split)
    then show ?thesis using w l Some by (simp add: set_attempt_def g u Let_def)
  qed
qed

lemma delete_attempt_works:
  assumes "reachable c"
  shows "\<exists>c'. delete_attempt api s k c = (None, c') \<and> reachable c' \<and> data_of object c' = (data_of object c)(k := None)"
proof -
  obtain r c1 where g: "ca_Get api (cs_namespace s) (cs_configMap s) c = (r, c1)"
    by (cases "ca_Get api (cs_namespace s) (cs_configMap s) c") auto
  note l = api_get [OF assms g]
  have same: "data_of object c1 = data_of object c" using l by (simp add: data_of_def fun_eq_iff)
  show ?thesis
  proof (cases "data_of object c k")
    case None
    then show ?thesis using l same
      by (auto simp: delete_attempt_def g data_of_def fun_upd_idem split: option.splits)
  next
    case (Some v)
    then obtain cm d where o: "object c = Some cm" "cm_Data cm = Some d" "d k = Some v"
      by (auto simp: data_of_def bind_eq_Some_conv)
    let ?cm = "cm\<lparr>cm_Data := Some (d(k := None))\<rparr>"
    obtain err c2 where u: "ca_Update api ?cm c1 = (err, c2)" by (cases "ca_Update api ?cm c1") auto
    have w: "err = None" "reachable c2" "data_of object c2 = d(k := None)"
      using api_update [OF _ _ refl u] l o by (simp_all add: data_of_eq)
    have "data_of object c = d" by (rule ext) (simp add: data_of_def o)
    then show ?thesis using w l o by (simp add: delete_attempt_def g u)
  qed
qed

end

section \<open>The contract\<close>

definition configmap_view ::
    "configmap_store \<Rightarrow> ('c \<Rightarrow> configmap option) \<Rightarrow> time \<Rightarrow> 'c \<Rightarrow> string \<Rightarrow> entry option" where
  "configmap_view s object t c k =
     (case data_of object c (configMapDataKey k) of None \<Rightarrow> None
      | Some text \<Rightarrow>
          (case Entry_Unmarshal text zero_entry of
             Inl _ \<Rightarrow> None
           | Inr e \<Rightarrow> if isExpired s (Some e) t then None else Some e))"

definition configmap_works ::
    "('c \<Rightarrow> bool) \<Rightarrow> ('c \<Rightarrow> configmap option) \<Rightarrow> time \<Rightarrow> 'c \<Rightarrow> bool" where
  "configmap_works reachable object t c \<longleftrightarrow> reachable c \<and>
     (\<forall>k text. data_of object c (configMapDataKey k) = Some text \<longrightarrow> (\<exists>e. Entry_Unmarshal text zero_entry = Inr e))"

definition configmap_keeps :: "time \<Rightarrow> entry \<Rightarrow> bool" where
  "configmap_keeps t e \<longleftrightarrow> ascii (e_Fingerprint e) \<and> ascii (e_Summary e) \<and> clock_time t"

definition configmap_shows :: "configmap_store \<Rightarrow> time \<Rightarrow> time \<Rightarrow> entry \<Rightarrow> entry option" where
  "configmap_shows s t t' e = (if isExpired s (Some (stored_entry e)) t' then None else Some (stored_entry e))"

lemma isExpired_later: "isExpired s e t \<Longrightarrow> t \<le> t' \<Longrightarrow> isExpired s e t'"
  by (auto simp: isExpired_def time_After_def split: option.splits if_splits)

text \<open>The fraction that storage drops is below the smallest time to live.\<close>

lemma not_expired_now:
  assumes "clock_time (e_LastScannedTime e)" "Second \<le> cs_ttl s" "cs_ttl s \<le> max_int64"
  shows "\<not> isExpired s (Some (stored_entry e)) (e_LastScannedTime e)"
proof -
  let ?t = "e_LastScannedTime e"
  have "?t div Second \<le> max_int64"
    using assms(1) by (auto simp: clock_time_def Second_def max_int64_def)
  then have st: "stored_time ?t = ?t div Second * Second"
    using assms(1) stored_time_eq [of ?t] by (simp add: clock_time_def)
  have "(unix_to_internal + 1) * Second div Second \<le> ?t div Second"
    using assms(1) by (intro zdiv_mono1) (simp_all add: clock_time_def Second_def)
  then have le: "(unix_to_internal + 1) * Second \<le> ?t div Second * Second"
    by (intro mult_right_mono) (simp_all add: Second_def)
  moreover have "?t div Second * Second \<le> ?t" by (simp add: Second_def)
  ultimately have "clock_time (?t div Second * Second)"
    using assms(1) by (simp add: clock_time_def)
  then have "time_Add (?t div Second * Second) (cs_ttl s) = ?t div Second * Second + cs_ttl s"
    using assms(2,3) by (intro time_Add_clock) (auto simp: Second_def)
  moreover have "?t < ?t div Second * Second + Second" by (simp add: Second_def)
  ultimately show ?thesis
    using assms(2) by (simp add: isExpired_def stored_entry_def st time_After_def)
qed

context configmap_client
begin

lemma configmap_get_law:
  assumes "configmap_works reachable object t c" "configmap_GetEntry api s t k c = (r, c')"
  shows "r = Inr (configmap_view s object t c k) \<and> configmap_works reachable object t c' \<and>
    (\<forall>t' \<ge> t. configmap_view s object t' c' = configmap_view s object t' c)"
proof -
  obtain y c1 where g: "ca_Get api (cs_namespace s) (cs_configMap s) c = (y, c1)"
    by (cases "ca_Get api (cs_namespace s) (cs_configMap s) c") auto
  have l: "y = Inr (object c)" "reachable c1" "object c1 = object c"
    using api_get [OF _ g] assms(1) by (simp_all add: configmap_works_def)
  then have same: "data_of object c1 = data_of object c" by (simp add: data_of_def fun_eq_iff)
  obtain c2 where "delete_attempt api s (configMapDataKey k) c1 = (None, c2)" and
    d: "reachable c2" "data_of object c2 = (data_of object c)(configMapDataKey k := None)"
    using delete_attempt_works [OF l(2), of "configMapDataKey k"] same by auto
  then have del: "configmap_Delete api s k c1 = (None, c2)" by (simp add: configmap_Delete_def api_retry)
  let ?data = "data_of object c (configMapDataKey k)"
  have step: "configmap_Get api s t k c =
      (case ?data of None \<Rightarrow> (Inr None, c1)
       | Some text \<Rightarrow> (case Entry_Unmarshal text zero_entry of
           Inl err \<Rightarrow> (Inl (ErrWrap (''parse state entry for key '' @ k @ '': '') err []), c1)
         | Inr e \<Rightarrow> if isExpired s (Some e) t then (Inr None, c2) else (Inr (Some e), c1)))"
    by (simp add: configmap_Get_def g l(1) del data_of_def split: option.split sum.split)
  have p: "\<And>text. ?data = Some text \<Longrightarrow> \<exists>e. Entry_Unmarshal text zero_entry = Inr e"
    using assms(1) by (auto simp: configmap_works_def)
  have w1: "configmap_works reachable object t c1" and w2: "configmap_works reachable object t c2"
    using assms(1) l(2) same d by (auto simp: configmap_works_def)
  have v1: "configmap_view s object t' c1 = configmap_view s object t' c" for t'
    by (simp add: configmap_view_def same fun_eq_iff)
  show ?thesis
  proof (cases "\<exists>text e. ?data = Some text \<and> Entry_Unmarshal text zero_entry = Inr e \<and> isExpired s (Some e) t")
    case True
    then obtain v e where te: "?data = Some v" "Entry_Unmarshal v zero_entry = Inr e" "isExpired s (Some e) t"
      by blast
    then have "c' = c2" "r = Inr None"
      using assms(2) by (simp_all add: configmap_GetEntry_def step)
    moreover have "configmap_view s object t' c2 k' = configmap_view s object t' c k'" if "t \<le> t'" for t' k'
      using isExpired_later [OF te(3) that] te by (simp add: configmap_view_def d)
    moreover have "configmap_view s object t c k = None" using te by (simp add: configmap_view_def)
    ultimately show ?thesis using w2 by (simp add: fun_eq_iff)
  next
    case False
    then have "c' = c1 \<and> r = Inr (configmap_view s object t c k)"
      using assms(2) p by (auto simp: configmap_GetEntry_def step configmap_view_def split: option.splits sum.splits)
    then show ?thesis using w1 v1 by simp
  qed
qed

lemma configmap_set_law:
  assumes "configmap_works reachable object t c" "configmap_keeps t e"
    "configmap_SetEntry api s k (Some e) c = (err, c')"
  shows "err = None \<and> configmap_works reachable object t c' \<and> (\<forall>t' \<ge> t. configmap_view s object t' c' =
    (configmap_view s object t' c)(k := configmap_shows s t t' e))"
proof -
  obtain c1 where "set_attempt api s (configMapDataKey k) (Entry_Marshal e) c = (None, c1)" and
    d: "reachable c1" "data_of object c1 = (data_of object c)(configMapDataKey k \<mapsto> Entry_Marshal e)"
    using set_attempt_works assms(1) by (auto simp: configmap_works_def) metis
  then have "err = None" "c' = c1"
    using assms(3) by (simp_all add: configmap_SetEntry_def configmap_Set_def Let_def api_retry)
  moreover have "Entry_Unmarshal (Entry_Marshal e) zero_entry = Inr (stored_entry e)"
    using assms(2) unmarshal_marshal by (simp add: configmap_keeps_def)
  ultimately show ?thesis
    using assms(1) d by (auto simp: configmap_works_def configmap_view_def configmap_shows_def fun_eq_iff)
qed

lemma configmap_delete_law:
  assumes "configmap_works reachable object t c" "configmap_DeleteEntry api s k c = (err, c')"
  shows "err = None \<and> configmap_works reachable object t c' \<and>
    (\<forall>t' \<ge> t. configmap_view s object t' c' = (configmap_view s object t' c)(k := None))"
proof -
  obtain c1 where "delete_attempt api s (configMapDataKey k) c = (None, c1)" and
    d: "reachable c1" "data_of object c1 = (data_of object c)(configMapDataKey k := None)"
    using delete_attempt_works assms(1) by (auto simp: configmap_works_def) metis
  then have "err = None" "c' = c1"
    using assms(2) by (simp_all add: configmap_DeleteEntry_def configmap_Delete_def api_retry)
  then show ?thesis
    using assms(1) d by (auto simp: configmap_works_def configmap_view_def fun_eq_iff)
qed

end

sublocale configmap_client \<subseteq> state_backend "configmap_backend api s" "configmap_works reachable object"
    "configmap_view s object" configmap_keeps "configmap_shows s"
proof unfold_locales
  fix t t' :: time and c c' and k e e' err r
  show "configmap_works reachable object t c \<Longrightarrow> t \<le> t' \<Longrightarrow> configmap_works reachable object t' c"
    by (simp add: configmap_works_def)
  show "configmap_works reachable object t c \<Longrightarrow> be_GetEntry (configmap_backend api s) t k c = (r, c') \<Longrightarrow>
      r = Inr (configmap_view s object t c k) \<and> configmap_works reachable object t c' \<and>
      (\<forall>t'\<ge>t. configmap_view s object t' c' = configmap_view s object t' c)"
    using configmap_get_law [of t c k r c'] by (simp add: configmap_backend_def)
  show "configmap_works reachable object t c \<Longrightarrow> configmap_keeps t e \<Longrightarrow>
      be_SetEntry (configmap_backend api s) t k e c = (err, c') \<Longrightarrow>
      err = None \<and> configmap_works reachable object t c' \<and>
      (\<forall>t'\<ge>t. configmap_view s object t' c' = (configmap_view s object t' c)(k := configmap_shows s t t' e))"
    using configmap_set_law [of t c e k err c'] by (simp add: configmap_backend_def)
  show "configmap_works reachable object t c \<Longrightarrow> be_DeleteEntry (configmap_backend api s) t k c = (err, c') \<Longrightarrow>
      err = None \<and> configmap_works reachable object t c' \<and>
      (\<forall>t'\<ge>t. configmap_view s object t' c' = (configmap_view s object t' c)(k := None))"
    using configmap_delete_law [of t c k err c'] by (simp add: configmap_backend_def)
  show "configmap_keeps t e \<Longrightarrow> configmap_shows s t t' e = Some e' \<Longrightarrow>
      e_Fingerprint e' = e_Fingerprint e \<and> e_Summary e' = e_Summary e"
    by (auto simp: configmap_shows_def stored_entry_def split: if_splits)
  show "configmap_keeps t e \<Longrightarrow> e_LastScannedTime e = t \<Longrightarrow> configmap_shows s t t e \<noteq> None"
    using not_expired_now [of e s] ttl_second ttl_i64 by (auto simp: configmap_shows_def configmap_keeps_def)
qed

context configmap_client
begin

lemma contract: "state_backend (configmap_backend api s) (configmap_works reachable object)
    (configmap_view s object) configmap_keeps (configmap_shows s)"
  by unfold_locales

end

section \<open>A server that keeps ConfigMaps\<close>

text \<open>
  What an API server does for a single client: objects live under their namespace and name, a
  create of an existing object and an update with an old resource version are refused, and a
  write changes the resource version. Every law of the contract holds of it.
\<close>

type_synonym api_server = "string \<times> string \<rightharpoonup> configmap"

definition server_Get :: "string \<Rightarrow> string \<Rightarrow> api_server \<Rightarrow> configmap option result \<times> api_server" where
  "server_Get ns name c = (Inr (c (ns, name)), c)"

definition server_Create :: "configmap \<Rightarrow> api_server \<Rightarrow> go_error option \<times> api_server" where
  "server_Create cm c =
     (let key = (cm_Namespace cm, cm_Name cm) in
      if c key \<noteq> None then (Some (ErrNew ''AlreadyExists''), c)
      else (None, c(key \<mapsto> cm\<lparr>cm_ResourceVersion := ''1''\<rparr>)))"

definition server_Update :: "configmap \<Rightarrow> api_server \<Rightarrow> go_error option \<times> api_server" where
  "server_Update cm c =
     (let key = (cm_Namespace cm, cm_Name cm) in
      case c key of
        None \<Rightarrow> (Some (ErrNew ''NotFound''), c)
      | Some old \<Rightarrow>
          if cm_ResourceVersion cm \<noteq> cm_ResourceVersion old then (Some (ErrNew ''Conflict''), c)
          else (None, c(key \<mapsto> cm\<lparr>cm_ResourceVersion := cm_ResourceVersion old @ ''1''\<rparr>)))"

definition server_api :: "api_server configmap_api" where
  "server_api = \<lparr>ca_Get = server_Get, ca_Create = server_Create, ca_Update = server_Update,
     ca_RetryOnConflict = (\<lambda>f. f)\<rparr>"

definition server_reachable :: "api_server \<Rightarrow> bool" where
  "server_reachable c \<longleftrightarrow> (\<forall>ns name cm. c (ns, name) = Some cm \<longrightarrow> cm_Namespace cm = ns \<and> cm_Name cm = name)"

definition ex_configmap_store :: configmap_store where
  "ex_configmap_store = \<lparr>cs_namespace = ''komodor'', cs_configMap = ''security-reporter-state'', cs_ttl = 24 * Hour\<rparr>"

definition ex_object :: "api_server \<Rightarrow> configmap option" where
  "ex_object c = c (cs_namespace ex_configmap_store, cs_configMap ex_configmap_store)"

interpretation server_store: configmap_client server_api ex_configmap_store server_reachable ex_object
proof unfold_locales
  fix c c' cm old d err r
  show "server_reachable c \<Longrightarrow>
      ca_Get server_api (cs_namespace ex_configmap_store) (cs_configMap ex_configmap_store) c = (r, c') \<Longrightarrow>
      r = Inr (ex_object c) \<and> server_reachable c' \<and> ex_object c' = ex_object c"
    by (auto simp: server_api_def server_Get_def ex_object_def)
  show "server_reachable c \<Longrightarrow> ex_object c = None \<Longrightarrow> cm_Name cm = cs_configMap ex_configmap_store \<Longrightarrow>
      cm_Namespace cm = cs_namespace ex_configmap_store \<Longrightarrow> ca_Create server_api cm c = (err, c') \<Longrightarrow>
      err = None \<and> server_reachable c' \<and> map_option cm_Data (ex_object c') = Some (cm_Data cm)"
    by (auto simp: server_api_def server_Create_def ex_object_def server_reachable_def Let_def split: if_splits)
  show "server_reachable c \<Longrightarrow> ex_object c = Some old \<Longrightarrow> cm = old\<lparr>cm_Data := d\<rparr> \<Longrightarrow>
      ca_Update server_api cm c = (err, c') \<Longrightarrow>
      err = None \<and> server_reachable c' \<and> map_option cm_Data (ex_object c') = Some d"
    by (auto simp: server_api_def server_Update_def ex_object_def server_reachable_def Let_def split: if_splits)
qed (simp_all add: server_api_def ex_configmap_store_def Second_def Minute_def Hour_def max_int64_def)

end
