(* ===== verification/State_Factory.thy ===== *)
theory State_Factory
  imports Config State_Kv State_Configmap
begin

text \<open>
  The choice of the state backend: the settings of each backend (\<open>config.go\<close> beside it) and the
  factory \<open>internal/state/backends/factory.go\<close>. Decoding is viper's and the connection is the
  client libraries', so both are parameters.
\<close>

section \<open>Settings\<close>

record redis_config =
  rc_Address :: string
  rc_Password :: string
  rc_DB :: int
  rc_TLSEnabled :: bool
  rc_KeyPrefix :: string
  rc_DialTimeout :: duration
  rc_ReadTimeout :: duration
  rc_WriteTimeout :: duration

record memcache_config =
  mcc_Address :: string
  mcc_KeyPrefix :: string
  mcc_Timeout :: duration
  mcc_MaxIdleConns :: int

text \<open>A part of the configuration file, with what viper makes of it.\<close>

record 'v viper =
  vp_Sub :: "'v \<Rightarrow> string \<Rightarrow> 'v option"
  vp_GetString :: "'v \<Rightarrow> string \<Rightarrow> string"
  vp_redis :: "'v \<Rightarrow> redis_config result"
  vp_memcache :: "'v \<Rightarrow> memcache_config result"
  vp_maxEntries :: "'v \<Rightarrow> int result"
  vp_configMapName :: "'v \<Rightarrow> string result"

text \<open>The scope of a backend: its own section where there is one, the section of the state otherwise.\<close>

definition decode_scope :: "'v viper \<Rightarrow> string \<Rightarrow> 'v option \<Rightarrow> 'v option" where
  "decode_scope vp name scoped =
     (case scoped of None \<Rightarrow> None
      | Some v \<Rightarrow> (case vp_Sub vp v name of Some sub \<Rightarrow> Some sub | None \<Rightarrow> Some v))"

definition redis_ParseConfig :: "'v viper \<Rightarrow> 'v option \<Rightarrow> redis_config result" where
  "redis_ParseConfig vp scoped =
     (case (case decode_scope vp ''redis'' scoped of
              None \<Rightarrow> Inr \<lparr>rc_Address = [], rc_Password = [], rc_DB = 0, rc_TLSEnabled = False, rc_KeyPrefix = [],
                rc_DialTimeout = 0, rc_ReadTimeout = 0, rc_WriteTimeout = 0\<rparr>
            | Some v \<Rightarrow> vp_redis vp v) of
        Inl err \<Rightarrow> Inl (ErrWrap ''decode redis state config: '' err [])
      | Inr cfg \<Rightarrow>
          if TrimSpace (rc_Address cfg) = [] then Inl (ErrNew ''state.redis.address is required'') else Inr cfg)"

definition memcache_ParseConfig :: "'v viper \<Rightarrow> 'v option \<Rightarrow> memcache_config result" where
  "memcache_ParseConfig vp scoped =
     (case (case decode_scope vp ''memcache'' scoped of
              None \<Rightarrow> Inr \<lparr>mcc_Address = [], mcc_KeyPrefix = [], mcc_Timeout = 0, mcc_MaxIdleConns = 0\<rparr>
            | Some v \<Rightarrow> vp_memcache vp v) of
        Inl err \<Rightarrow> Inl (ErrWrap ''decode memcache state config: '' err [])
      | Inr cfg \<Rightarrow>
          if TrimSpace (mcc_Address cfg) = [] then Inl (ErrNew ''state.memcache.address is required'') else Inr cfg)"

definition memory_ParseConfig :: "'v viper \<Rightarrow> 'v option \<Rightarrow> int result" where
  "memory_ParseConfig vp scoped =
     (case (case decode_scope vp ''memory'' scoped of None \<Rightarrow> Inr 0 | Some v \<Rightarrow> vp_maxEntries vp v) of
        Inl err \<Rightarrow> Inl (ErrWrap ''decode memory state config: '' err [])
      | Inr maxEntries \<Rightarrow> Inr maxEntries)"

definition defaultConfigMapName :: string where
  "defaultConfigMapName = ''komodor-security-reporter-state''"

definition configmap_ParseConfig :: "'v viper \<Rightarrow> 'v option \<Rightarrow> string result" where
  "configmap_ParseConfig vp scoped =
     (case (case scoped of None \<Rightarrow> Inr [] | Some v \<Rightarrow> vp_configMapName vp v) of
        Inl err \<Rightarrow> Inl (ErrWrap ''decode configmap state config: '' err [])
      | Inr name \<Rightarrow>
          let name = (if name = [] then (case scoped of None \<Rightarrow> [] | Some v \<Rightarrow> vp_GetString vp v ''configmap.configMapName'')
                      else name)
          in Inr (if name = [] then defaultConfigMapName else name))"

section \<open>The factory\<close>

text \<open>The clients that the libraries connect; the entries of go-cache expire by a default and are
  swept at an interval, and nothing bounds their number.\<close>

record 'c clients =
  cl_redis :: "redis_config \<Rightarrow> ('c, string) kv"
  cl_memcache :: "string \<Rightarrow> duration \<Rightarrow> int \<Rightarrow> ('c, string) kv"
  cl_gocache :: "duration \<Rightarrow> duration \<Rightarrow> ('c, entry) kv"
  cl_api :: "'c configmap_api"

definition redis_NewBackend :: "'c clients \<Rightarrow> redis_config \<Rightarrow> duration \<Rightarrow> 'c backend result" where
  "redis_NewBackend cl cfg ttl = Inr (redis_backend (cl_redis cl cfg) \<lparr>rd_keyPrefix = rc_KeyPrefix cfg, rd_ttl = ttl\<rparr>)"

text \<open>A timeout and a number of idle connections that are not positive leave the client's own, here zero.\<close>

definition memcache_NewBackend :: "'c clients \<Rightarrow> memcache_config \<Rightarrow> duration \<Rightarrow> 'c backend result" where
  "memcache_NewBackend cl cfg ttl =
     (let client = cl_memcache cl (mcc_Address cfg) (if 0 < mcc_Timeout cfg then mcc_Timeout cfg else 0)
            (if 0 < mcc_MaxIdleConns cfg then mcc_MaxIdleConns cfg else 0)
      in Inr (memcache_backend client \<lparr>mc_keyPrefix = mcc_KeyPrefix cfg, mc_ttl = ttl\<rparr>))"

definition memory_NewBackend :: "'c clients \<Rightarrow> duration \<Rightarrow> int \<Rightarrow> 'c backend" where
  "memory_NewBackend cl ttl maxEntries =
     (let ttl = memory_NewBackend_ttl ttl
      in memory_backend (cl_gocache cl ttl (memory_cleanupInterval ttl)) ttl)"

definition New :: "'v viper \<Rightarrow> 'c clients \<Rightarrow> state_config \<Rightarrow> 'v option \<Rightarrow> string \<Rightarrow> 'c backend result" where
  "New vp cl cfg scoped resolvedNamespace =
     (let b = NormalizeStateBackend (sc_Backend cfg)
      in if b = StateBackendConfigMap then
           (case configmap_ParseConfig vp scoped of
              Inl err \<Rightarrow> Inl err
            | Inr name \<Rightarrow> Inr (configmap_backend (cl_api cl) (configmap_NewBackend resolvedNamespace name (sc_TTL cfg))))
         else if b = StateBackendMemory then
           (case memory_ParseConfig vp scoped of
              Inl err \<Rightarrow> Inl err
            | Inr maxEntries \<Rightarrow> Inr (memory_NewBackend cl (sc_TTL cfg) maxEntries))
         else if b = StateBackendRedis then
           (case redis_ParseConfig vp scoped of
              Inl err \<Rightarrow> Inl err
            | Inr c \<Rightarrow> redis_NewBackend cl c (sc_TTL cfg))
         else if b = StateBackendMemcache then
           (case memcache_ParseConfig vp scoped of
              Inl err \<Rightarrow> Inl err
            | Inr c \<Rightarrow> memcache_NewBackend cl c (sc_TTL cfg))
         else Inl (ErrNew (''unsupported state backend: '' @ sc_Backend cfg)))"

section \<open>Lemmas\<close>

lemma configmap_ParseConfig_name: "configmap_ParseConfig vp scoped = Inr name \<Longrightarrow> name \<noteq> []"
  by (auto simp: configmap_ParseConfig_def defaultConfigMapName_def Let_def split: sum.splits if_splits)

text \<open>The four backends that the factory builds, with a positive time to live.\<close>

lemma New_Inr:
  assumes "New vp cl cfg scoped ns = Inr be" "0 < sc_TTL cfg"
  obtains
    (configmap) name where "NormalizeStateBackend (sc_Backend cfg) = StateBackendConfigMap"
      "configmap_ParseConfig vp scoped = Inr name"
      "be = configmap_backend (cl_api cl) \<lparr>cs_namespace = ns, cs_configMap = name, cs_ttl = sc_TTL cfg\<rparr>"
  | (memory) n where "NormalizeStateBackend (sc_Backend cfg) = StateBackendMemory" "memory_ParseConfig vp scoped = Inr n"
      "be = memory_backend (cl_gocache cl (sc_TTL cfg) (memory_cleanupInterval (sc_TTL cfg))) (sc_TTL cfg)"
  | (redis) c where "NormalizeStateBackend (sc_Backend cfg) = StateBackendRedis" "redis_ParseConfig vp scoped = Inr c"
      "be = redis_backend (cl_redis cl c) \<lparr>rd_keyPrefix = rc_KeyPrefix c, rd_ttl = sc_TTL cfg\<rparr>"
  | (memcache) c kv where "NormalizeStateBackend (sc_Backend cfg) = StateBackendMemcache" "memcache_ParseConfig vp scoped = Inr c"
      "kv = cl_memcache cl (mcc_Address c) (max 0 (mcc_Timeout c)) (max 0 (mcc_MaxIdleConns c))"
      "be = memcache_backend kv \<lparr>mc_keyPrefix = mcc_KeyPrefix c, mc_ttl = sc_TTL cfg\<rparr>"
proof -
  have m: "(if 0 < x then x else 0) = max 0 x" for x :: int by simp
  show thesis
    using assms that
    by (auto simp: New_def Let_def configmap_NewBackend_def memory_NewBackend_def memory_NewBackend_ttl_def
        redis_NewBackend_def memcache_NewBackend_def m split: if_splits sum.splits)
qed

lemma memory_backend_ttl: "memory_backend kv (memory_NewBackend_ttl t) = memory_backend kv t"
  by (simp add: memory_backend_def memory_NewBackend_ttl_def duration_units)

lemma validated_backend_supported:
  assumes "validateState cfg = None" "New vp cl cfg scoped ns = Inl err"
  shows "err \<noteq> ErrNew (''unsupported state backend: '' @ sc_Backend cfg)"
  using assms
  by (auto simp: New_def validateState_def Let_def configmap_ParseConfig_def memory_ParseConfig_def redis_ParseConfig_def
      memcache_ParseConfig_def redis_NewBackend_def memcache_NewBackend_def split: if_splits sum.splits option.splits)

end
