(* ===== verification/Reconciler_State.thy ===== *)
theory Reconciler_State
  imports Reconciler State_Kv State_Configmap
begin

text \<open>
  The reconciler on its state backends: each backend of \<open>internal/state/backends\<close> keeps the
  contract \<open>state_backend\<close>, and what a scan result leaves in a backend that keeps it.
\<close>

section \<open>The backends\<close>



section \<open>The state a result leaves\<close>

text \<open>C8: What a scan result leaves in the state, on any backend that keeps the contract. Compared
  with the map before: the state of the digest that the tag had before is dropped, the latest
  digest of the tag is bound to the state key of this one, and the state key is bound to the
  fingerprint of the result exactly when the result was published. No other key changes.\<close>

theorem result_state:
  assumes "state_backend be works view keeps shows_entry" and "re_backend env = be" "works (r_now env r) (r_store r)"
    and "r' = handleScanResultStateAndPublish env n resolved res wctx opts r"
    and "t = r_now env r" "t' = r_now env r'" "t \<le> t'"
    and "keeps t (latest_entry resolved n t)" "keeps t' (published_entry res t)"
  shows "works t' (r_store r') \<and> view t' (r_store r') =
    (let m = (unbind (stale_key (view t (r_store r) (latest_digest_key resolved n)) (state_key resolved n))
          (view t' (r_store r)))
        (latest_digest_key resolved n := shows_entry t t' (latest_entry resolved n t))
     in if 0 < added EventsPublishedTotal r r'
        then m(state_key resolved n := shows_entry t' t' (published_entry res t)) else m)"
  by (rule state_backend.handle_works [OF assms])

text \<open>An environment whose clock stands still and whose Komodor client accepts every event.\<close>

definition ex_now :: time where
  "ex_now = 64000000000 * Second"

definition ex_env :: "'s backend \<Rightarrow> (unit, 's) recon_env" where
  "ex_env be = \<lparr>re_cfg = ex_config, re_settings = ex_runtime, re_scanners = [], re_backend = be,
     re_now = (\<lambda>_. ex_now), re_sleep = (\<lambda>w d. (None, w)), re_digest = (\<lambda>w s. Inr s),
     re_publish = Some (\<lambda>w e. (None, w)), re_create_event = None\<rparr>"

definition ex_workload :: workload_context where
  "ex_workload = \<lparr>wc_ClusterName = ''prod'', wc_Namespace = ''default'', wc_Kind = ''Deployment'', wc_Name = ''web'',
     wc_UID = ''u1'', wc_APIVersion = ''apps/v1'', wc_Container = ''app''\<rparr>"

definition ex_options :: event_options where
  "ex_options = \<lparr>MinimumSeverity = ''high'', IncludeTopFindings = 5, PublishCleanScans = False\<rparr>"

definition ex_scan :: scan_result where
  "ex_scan = ex_result [ex_finding ''CVE-1'' SeverityHigh]"

definition ex_image :: "string \<Rightarrow> reg_image_ref" where
  "ex_image digest = \<lparr>Original = ''nginx'', Registry = ''docker.io'', Repository = ''library/nginx'', Tag = ''latest'',
     Digest = digest, Resolved = ''docker.io/library/nginx@'' @ digest\<rparr>"

lemma ex_now_clock: "clock_time ex_now"
  by (simp add: clock_time_def ex_now_def unix_to_internal_def Second_def)

lemma r_now_ex_env [simp]: "r_now (ex_env be) r = ex_now" "re_backend (ex_env be) = be"
  by (simp_all add: r_now_def ex_env_def)

text \<open>What the reconciler writes is text that every backend keeps.\<close>

lemma ascii_hex_string: "ascii (hex_string bs)"
proof -
  have "byte (hex_char d) < 128" if "d < 16" for d
    using that by (simp add: byte_def hex_char_def of_char_of)
  then have "ascii [hex_char (of_char c div 16), hex_char (of_char c mod 16)]" for c
    using nat_of_char_less_256 [of c] by (simp add: less_mult_imp_div_less)
  then show ?thesis unfolding hex_string_def by (induction bs) simp_all
qed

lemma ascii_Fingerprint [simp]: "ascii (Fingerprint res)"
  by (simp add: Fingerprint_def ascii_hex_string byte_def)

lemma published_on_ex_env:
  "0 < added EventsPublishedTotal r
    (handleScanResultStateAndPublish (ex_env be) n resolved ex_scan ex_workload ex_options r)"
proof -
  define r1 where "r1 = snd (after_latest (ex_env be) n resolved r)"
  obtain l where "lookup_outcome l" "r_metrics r1 = (r_metrics r)(l := r_metrics r l + 1)"
    using after_latest_metrics(1) unfolding r1_def by blast
  then have m1: "r_metrics r1 EventsPublishedTotal = r_metrics r EventsPublishedTotal"
    using lookup_outcome_other [of l] by simp
  have sp: "ShouldPublish ex_scan ex_options"
    by (simp add: ShouldPublish_def ex_scan_def ex_result_def ex_finding_def ex_options_def summary_of_def
        count_sev_def count_other_def Total_def i64_id in_i64_def min_int64_def max_int64_def hasRiskAtLevel_def
        severityRank_def ToLower_def lower_char_def Let_def)
  have "publish_to_komodor (ex_env be) ex_scan ex_workload ex_options r1 = (True, with_world () r1)"
    by (simp add: publish_to_komodor_def ex_env_def ex_config_def PublishToKomodor_def normalized_mode_def
        PublishingModeKomodor_def PublishingModeBoth_def ToLower_def TrimSpace_def lower_char_def is_space_def)
  moreover obtain ok2 r3 where e: "publish_to_events (ex_env be) n ex_scan ex_workload (with_world () r1) = (ok2, r3)"
    by (cases "publish_to_events (ex_env be) n ex_scan ex_workload (with_world () r1)") auto
  ultimately have "handleScanResultStateAndPublish (ex_env be) n resolved ex_scan ex_workload ex_options r =
      record_publication (ex_env be) (state_key resolved n) ex_now ex_scan r3"
    using sp by (simp add: handle_eq r1_def [symmetric] publish_result_def Let_def)
  then show ?thesis
    using record_publication_metrics [of "ex_env be" "state_key resolved n" ex_now ex_scan r3]
      publish_to_events_metrics [OF e] m1
    by (auto simp: added_def)
qed

theorem result_state_witness:
  "let r' = handleScanResultStateAndPublish (ex_env (configmap_backend server_api ex_configmap_store)) ''trivy''
      (ex_image ''sha256:ab'') ex_scan ex_workload ex_options (NewReconciler ex_config () Map.empty) in
   configmap_view ex_configmap_store ex_object ex_now (r_store r') =
     [''latest/docker.io/library/nginx:latest/trivy'' \<mapsto> stored_entry (latest_entry (ex_image ''sha256:ab'') ''trivy'' ex_now),
      ''sha256:ab/trivy'' \<mapsto> stored_entry (published_entry ex_scan ex_now)]"
proof -
  let ?be = "configmap_backend server_api ex_configmap_store" and ?im = "ex_image ''sha256:ab''"
  let ?r = "NewReconciler ex_config () Map.empty :: (unit, api_server) recon"
  let ?r' = "handleScanResultStateAndPublish (ex_env ?be) ''trivy'' ?im ex_scan ex_workload ex_options ?r"
  have st: "r_store ?r = Map.empty" by (simp add: NewReconciler_def Let_def)
  have w: "configmap_works server_reachable ex_object ex_now Map.empty"
    and v: "configmap_view ex_configmap_store ex_object ex_now Map.empty = Map.empty"
    by (simp_all add: configmap_works_def server_reachable_def configmap_view_def data_of_def ex_object_def fun_eq_iff)
  have k: "configmap_keeps ex_now (latest_entry ?im ''trivy'' ex_now)" "configmap_keeps ex_now (published_entry ex_scan ex_now)"
    by (simp_all add: configmap_keeps_def latest_entry_def published_entry_def ex_now_clock state_key_def ex_image_def byte_def)
  have sh: "configmap_shows ex_configmap_store ex_now ex_now e = Some (stored_entry e)" if "e_LastScannedTime e = ex_now" for e
    using not_expired_now [of e ex_configmap_store] that ex_now_clock
    by (simp add: configmap_shows_def ex_configmap_store_def duration_units max_int64_def)
  have keys: "latest_digest_key ?im ''trivy'' = ''latest/docker.io/library/nginx:latest/trivy''"
      "state_key ?im ''trivy'' = ''sha256:ab/trivy''"
    by (simp_all add: latest_digest_key_def state_key_def ex_image_def)
  have "configmap_view ex_configmap_store ex_object ex_now (r_store ?r') =
    (let m = (unbind (stale_key None (state_key ?im ''trivy'')) Map.empty)
        (latest_digest_key ?im ''trivy'' := Some (stored_entry (latest_entry ?im ''trivy'' ex_now)))
     in m(state_key ?im ''trivy'' := Some (stored_entry (published_entry ex_scan ex_now))))"
    using result_state [OF server_store.contract _ _ refl refl refl, where env = "ex_env ?be" and r = ?r and n = "''trivy''"
        and resolved = ?im and res = ex_scan and wctx = ex_workload and opts = ex_options]
      published_on_ex_env [where be = ?be and n = "''trivy''" and resolved = ?im and r = ?r] w v k sh st
    by (simp add: latest_entry_def published_entry_def)
  then show ?thesis by (simp add: keys stale_key_def unbind_def Let_def)
qed

section \<open>Two results under one tag\<close>

text \<open>C25: One state per tag: when a result for a tag is followed by a result of the same scanner
  for the same tag with another digest, the state of the first digest is gone, published or
  not. Two images pinned to different digests of one repository count as one tag, the empty
  one, so their results keep dropping each other's state.\<close>

theorem superseded_digest_dropped:
  assumes "state_backend be works view keeps shows_entry" and "re_backend env = be" "works (r_now env r) (r_store r)"
    and "r1 = handleScanResultStateAndPublish env n ref1 res1 wctx1 opts1 r"
    and "r2 = handleScanResultStateAndPublish env n ref2 res2 wctx2 opts2 r1"
    and "t = r_now env r" "u = r_now env r1" "v = r_now env r2" "t \<le> u" "u \<le> v"
    and "latest_digest_key ref1 n = latest_digest_key ref2 n" "state_key ref1 n \<noteq> state_key ref2 n"
    and "state_key ref1 n \<noteq> latest_digest_key ref1 n" "state_key ref2 n \<noteq> latest_digest_key ref2 n"
    and "keeps t (latest_entry ref1 n t)" "keeps u (published_entry res1 t)" "keeps u (latest_entry ref2 n u)"
      "keeps v (published_entry res2 u)"
    and "shows_entry t u (latest_entry ref1 n t) \<noteq> None"
  shows "view v (r_store r2) (state_key ref1 n) = None"
proof -
  have first: "works u (r_store r1)"
      "view u (r_store r1) (latest_digest_key ref1 n) = shows_entry t u (latest_entry ref1 n t)"
    using state_backend.handle_works [OF assms(1-4,6,7,9,15,16)] assms(13)
    by (simp_all add: Let_def)
  obtain e where e: "shows_entry t u (latest_entry ref1 n t) = Some e" using assms(19) by blast
  have "e_Fingerprint e = state_key ref1 n"
    using state_backend.shows_faithful [OF assms(1,15) e] by (simp add: latest_entry_def)
  moreover have "state_key ref1 n \<noteq> []" by (simp add: state_key_def)
  ultimately have "stale_key (view u (r_store r1) (latest_digest_key ref2 n)) (state_key ref2 n) = Some (state_key ref1 n)"
    using first(2) e assms(11,12) by (simp add: stale_key_def)
  then show ?thesis
    using state_backend.handle_works [OF assms(1,2) _ assms(5,7,8,10,17,18)] first(1) assms(7,11-13)
    by (simp add: Let_def unbind_def)
qed

definition ex_pinned :: "string \<Rightarrow> reg_image_ref" where
  "ex_pinned digest = \<lparr>Original = ''nginx@'' @ digest, Registry = ''docker.io'', Repository = ''library/nginx'',
     Tag = [], Digest = digest, Resolved = ''nginx@'' @ digest\<rparr>"

lemma Parse_ex_pinned:
  "Parse ''nginx@sha256:aa'' = Inr (ex_pinned ''sha256:aa'')" "Parse ''nginx@sha256:bb'' = Inr (ex_pinned ''sha256:bb'')"
  by code_simp+

theorem superseded_digest_dropped_witness:
  "\<exists>ref1 ref2. Parse ''nginx@sha256:aa'' = Inr ref1 \<and> Parse ''nginx@sha256:bb'' = Inr ref2 \<and>
    (let handle = (\<lambda>ref. handleScanResultStateAndPublish (ex_env (memory_backend (fake_kv 1) 0)) ''trivy'' ref
        ex_scan ex_workload ex_options)
     in fake_contents ex_now (r_store (handle ref2 (handle ref1 (NewReconciler ex_config () Map.empty))))
          ''sha256:aa/trivy'' = None)"
proof -
  let ?be = "memory_backend (fake_kv 1) 0" and ?a = "ex_pinned ''sha256:aa''" and ?b = "ex_pinned ''sha256:bb''"
  let ?r = "NewReconciler ex_config () Map.empty :: (unit, string \<rightharpoonup> entry fakeItem) recon"
  let ?handle = "\<lambda>ref. handleScanResultStateAndPublish (ex_env ?be) ''trivy'' ref ex_scan ex_workload ex_options"
  have keys: "latest_digest_key ?a ''trivy'' = latest_digest_key ?b ''trivy''" "state_key ?a ''trivy'' \<noteq> state_key ?b ''trivy''"
      "state_key ?a ''trivy'' \<noteq> latest_digest_key ?a ''trivy''" "state_key ?b ''trivy'' \<noteq> latest_digest_key ?b ''trivy''"
    by (simp_all add: latest_digest_key_def state_key_def ex_pinned_def)
  have alive: "fake_alive 1 (memory_NewBackend_ttl 0) ex_now ex_now"
    using fake_memory.alive_now [OF fake_memory.ttl_lasting ex_now_clock] .
  have "fake_contents ex_now (r_store (?handle ?b (?handle ?a ?r))) (state_key ?a ''trivy'') = None"
    by (rule superseded_digest_dropped [OF fake_memory.contract _ _ refl refl _ _ _ _ _ keys,
          where t = ex_now and u = ex_now and v = ex_now])
      (simp_all add: ex_now_clock alive)
  then show ?thesis using Parse_ex_pinned by (simp add: state_key_def ex_pinned_def)
qed

end
