(* ===== verification/Dispatch.thy ===== *)
theory Dispatch
  imports Reconciler Worker_Pool
begin

text \<open>
  The dispatch of the scans of one workload: \<open>reconcileWorkload\<close> of
  \<open>internal/reconciler/reconcile.go\<close>. The loop over images and scanners and the goroutines it
  starts are interleaved; a step is one of the dispatcher's or one of a goroutine's. The body
  of a goroutine is one step, its two last deferred calls are steps of their own. The map of the
  scanners is ranged over anew for each image, in any order.
\<close>

section \<open>The machine\<close>

record 'w scan_job =
  j_image :: extracted_image
  j_resolved :: reg_image_ref
  j_ref :: image_ref
  j_scanner :: "'w scanner"

text \<open>A goroutine is about to scan, to give its token back, or to leave the wait group.\<close>

datatype job_phase = Scanning | Releasing | Leaving

text \<open>Where the dispatcher is: at the head of a loop, before the semaphore, before the rate
  limiter, at the wait group, or returned.\<close>

datatype 'w dispatch_pc =
    AtImages "extracted_image list"
  | AtScanners extracted_image reg_image_ref image_ref "'w scanner list" "extracted_image list"
  | AtSemaphore "'w scan_job" "'w scanner list" "extracted_image list"
  | AtLimiter "'w scan_job" "'w scanner list" "extracted_image list"
  | AtWaitGroup
  | Returned "go_error option"

record ('w, 's) dispatch =
  dp_pc :: "'w dispatch_pc"
  dp_jobs :: "('w scan_job \<times> job_phase) list"
  dp_sem :: nat
  dp_wg :: nat
  dp_err :: "go_error option"
  dp_recon :: "('w, 's) recon"

text \<open>The limiter's \<open>Wait\<close> is a library function of its rate and the world.\<close>

type_synonym 'w limiter_wait = "limiter \<Rightarrow> 'w \<Rightarrow> go_error option \<times> 'w"

definition semaphore_size :: "('w, 's) recon_env \<Rightarrow> nat" where
  "semaphore_size env = nat (Concurrency (cfg_Scanners (re_cfg env)))"

definition dispatch_start :: "workloadInfo \<Rightarrow> ('w, 's) recon \<Rightarrow> ('w, 's) dispatch" where
  "dispatch_start wl r =
     (let extractedImages = FromPodSpec (wl_PodSpec wl)
      in \<lparr>dp_pc = AtImages extractedImages, dp_jobs = [], dp_sem = 0, dp_wg = 0, dp_err = None,
          dp_recon = metric_Add ImagesObservedTotal (int (length extractedImages)) r\<rparr>)"

text \<open>The argument \<open>visit\<close> is the order of the scanners, if the step begins to range over them.\<close>

definition dispatcher_step ::
    "('w, 's) recon_env \<Rightarrow> 'w scanner list \<Rightarrow> 'w limiter_wait \<Rightarrow> ('w, 's) dispatch \<Rightarrow> ('w, 's) dispatch option" where
  "dispatcher_step env visit wait d =
     (let r = dp_recon d in
      case dp_pc d of
        AtImages [] \<Rightarrow> Some (d\<lparr>dp_pc := AtWaitGroup\<rparr>)
      | AtImages (img # imgs) \<Rightarrow>
          (case prepareScanImage env img r of
             (None, r) \<Rightarrow> Some (d\<lparr>dp_pc := AtImages imgs, dp_recon := r\<rparr>)
           | (Some (resolved, scanImageRef), r) \<Rightarrow>
               Some (d\<lparr>dp_pc := AtScanners img resolved scanImageRef visit imgs, dp_recon := r\<rparr>))
      | AtScanners img resolved scanImageRef [] imgs \<Rightarrow> Some (d\<lparr>dp_pc := AtImages imgs\<rparr>)
      | AtScanners img resolved scanImageRef (sc # scs) imgs \<Rightarrow>
          Some (d\<lparr>dp_wg := dp_wg d + 1, dp_recon := Inc ScanQueueDepth r,
            dp_pc := AtSemaphore \<lparr>j_image = img, j_resolved = resolved, j_ref = scanImageRef, j_scanner = sc\<rparr> scs imgs\<rparr>)
      | AtSemaphore job scs imgs \<Rightarrow>
          if dp_sem d < semaphore_size env
          then Some (d\<lparr>dp_sem := dp_sem d + 1, dp_recon := Dec ScanQueueDepth r, dp_pc := AtLimiter job scs imgs\<rparr>)
          else None
      | AtLimiter job scs imgs \<Rightarrow>
          (case wait (r_backpressure r) (ss_world (r_scan r)) of
             (Some err, w) \<Rightarrow>
               if 0 < dp_wg d \<and> 0 < dp_sem d
               then Some (d\<lparr>dp_wg := dp_wg d - 1, dp_sem := dp_sem d - 1, dp_recon := with_world w r,
                 dp_pc := Returned (Some (ErrWrap ''backpressure wait: '' err []))\<rparr>)
               else None
           | (None, w) \<Rightarrow>
               Some (d\<lparr>dp_jobs := dp_jobs d @ [(job, Scanning)], dp_recon := Inc ScansInFlight (with_world w r),
                 dp_pc := AtScanners (j_image job) (j_resolved job) (j_ref job) scs imgs\<rparr>))
      | AtWaitGroup \<Rightarrow> if dp_wg d = 0 then Some (d\<lparr>dp_pc := Returned (dp_err d)\<rparr>) else None
      | Returned err \<Rightarrow> None)"

definition goroutine_step ::
    "('w, 's) recon_env \<Rightarrow> string \<Rightarrow> workloadInfo \<Rightarrow> nat \<Rightarrow> ('w, 's) dispatch \<Rightarrow> ('w, 's) dispatch option" where
  "goroutine_step env namespace wl i d =
     (if length (dp_jobs d) \<le> i then None
      else case dp_jobs d ! i of
          (job, Scanning) \<Rightarrow>
            (case runScannerForImage env namespace wl (j_image job) (j_resolved job) (j_ref job) (j_scanner job)
                (dp_err d) (dp_recon d) of
               (err, r) \<Rightarrow> Some (d\<lparr>dp_err := err, dp_recon := r, dp_jobs := (dp_jobs d)[i := (job, Releasing)]\<rparr>))
        | (job, Releasing) \<Rightarrow>
            if 0 < dp_sem d then Some (d\<lparr>dp_sem := dp_sem d - 1, dp_jobs := (dp_jobs d)[i := (job, Leaving)]\<rparr>) else None
        | (job, Leaving) \<Rightarrow>
            if 0 < dp_wg d
            then Some (d\<lparr>dp_wg := dp_wg d - 1, dp_jobs := take i (dp_jobs d) @ drop (Suc i) (dp_jobs d)\<rparr>) else None)"

text \<open>\<open>None\<close> is a step that blocks; a receive from an empty semaphore and a negative counter of
  the wait group are among these, and do not occur.\<close>

inductive dispatch_step ::
    "('w, 's) recon_env \<Rightarrow> 'w limiter_wait \<Rightarrow> string \<Rightarrow> workloadInfo \<Rightarrow> ('w, 's) dispatch \<Rightarrow> ('w, 's) dispatch \<Rightarrow> bool"
  for env wait namespace wl where
  dispatcher: "dispatcher_step env visit wait d = Some d' \<Longrightarrow> mset visit = mset (re_scanners env) \<Longrightarrow>
    dispatch_step env wait namespace wl d d'"
| goroutine: "goroutine_step env namespace wl i d = Some d' \<Longrightarrow> dispatch_step env wait namespace wl d d'"

definition dispatch_init :: "workloadInfo \<Rightarrow> ('w, 's) recon \<Rightarrow> ('w, 's) dispatch \<Rightarrow> bool" where
  "dispatch_init wl r d \<longleftrightarrow> d = dispatch_start wl r"

text \<open>A run that is over: the dispatcher has returned and no goroutine is left.\<close>

definition dispatch_over :: "go_error option \<Rightarrow> ('w, 's) dispatch \<Rightarrow> bool" where
  "dispatch_over err d \<longleftrightarrow> dp_pc d = Returned err \<and> dp_jobs d = []"

definition reconcileWorkload ::
    "('w, 's) recon_env \<Rightarrow> 'w limiter_wait \<Rightarrow> string \<Rightarrow> workloadInfo \<Rightarrow> ('w, 's) recon \<Rightarrow>
     go_error option \<Rightarrow> ('w, 's) recon \<Rightarrow> bool" where
  "reconcileWorkload env wait namespace wl r err r' \<longleftrightarrow>
     (\<exists>d. reaches (dispatch_init wl r) (dispatch_step env wait namespace wl) d \<and> dispatch_over err d \<and> dp_recon d = r')"

section \<open>The pool behind it\<close>

definition jobs_in :: "job_phase set \<Rightarrow> ('w scan_job \<times> job_phase) list \<Rightarrow> nat" where
  "jobs_in ps jobs = length (filter (\<lambda>j. snd j \<in> ps) jobs)"

definition pool_of_dispatch :: "('w, 's) dispatch \<Rightarrow> pool" where
  "pool_of_dispatch d = \<lparr>
     p_queued = (case dp_pc d of AtSemaphore _ _ _ \<Rightarrow> 1 | _ \<Rightarrow> 0),
     p_held = (case dp_pc d of AtLimiter _ _ _ \<Rightarrow> 1 | _ \<Rightarrow> 0),
     p_running = jobs_in {Scanning, Releasing} (dp_jobs d), p_leaving = jobs_in {Leaving} (dp_jobs d),
     p_sem = dp_sem d, p_wg = dp_wg d\<rparr>"

lemma filter_split_at: "i < length xs \<Longrightarrow>
    filter P xs = filter P (take i xs) @ (if P (xs ! i) then [xs ! i] else []) @ filter P (drop (Suc i) xs)"
  by (subst (1) id_take_nth_drop [of i xs]) simp_all

lemma length_filter_update:
  "i < length xs \<Longrightarrow> length (filter P (xs[i := y])) + (if P (xs ! i) then 1 else 0) =
     length (filter P xs) + (if P y then 1 else 0)"
  using filter_split_at [of i xs P] by (simp add: upd_conv_take_nth_drop)

lemma length_filter_remove:
  "i < length xs \<Longrightarrow> length (filter P (take i xs @ drop (Suc i) xs)) + (if P (xs ! i) then 1 else 0) =
     length (filter P xs)"
  using filter_split_at [of i xs P] by simp

text \<open>What each step does to the number of goroutines in a phase.\<close>

lemma jobs_in_advance:
  assumes "i < length jobs" "jobs ! i = (job, p)"
  shows "jobs_in ps (jobs[i := (job, q)]) + (if p \<in> ps then 1 else 0) = jobs_in ps jobs + (if q \<in> ps then 1 else 0)"
  using length_filter_update [OF assms(1), of "\<lambda>j. snd j \<in> ps" "(job, q)"] assms(2) by (simp add: jobs_in_def)

lemma jobs_in_remove:
  assumes "i < length jobs" "jobs ! i = (job, p)"
  shows "jobs_in ps (take i jobs @ drop (Suc i) jobs) + (if p \<in> ps then 1 else 0) = jobs_in ps jobs"
  using length_filter_remove [OF assms(1), of "\<lambda>j. snd j \<in> ps"] assms(2) by (simp add: jobs_in_def)

lemma jobs_in_start [simp]:
  "jobs_in ps [] = 0" "jobs_in ps (jobs @ [(job, p)]) = jobs_in ps jobs + (if p \<in> ps then 1 else 0)"
  by (simp_all add: jobs_in_def)

lemma goroutine_cases [consumes 1, case_names scan release leave]:
  assumes "goroutine_step env ns wl i d = Some d'"
  obtains job err r where "i < length (dp_jobs d)" "dp_jobs d ! i = (job, Scanning)"
      "runScannerForImage env ns wl (j_image job) (j_resolved job) (j_ref job) (j_scanner job) (dp_err d) (dp_recon d) = (err, r)"
      "d' = d\<lparr>dp_err := err, dp_recon := r, dp_jobs := (dp_jobs d)[i := (job, Releasing)]\<rparr>"
  | job where "i < length (dp_jobs d)" "dp_jobs d ! i = (job, Releasing)" "0 < dp_sem d"
      "d' = d\<lparr>dp_sem := dp_sem d - 1, dp_jobs := (dp_jobs d)[i := (job, Leaving)]\<rparr>"
  | job where "i < length (dp_jobs d)" "dp_jobs d ! i = (job, Leaving)" "0 < dp_wg d"
      "d' = d\<lparr>dp_wg := dp_wg d - 1, dp_jobs := take i (dp_jobs d) @ drop (Suc i) (dp_jobs d)\<rparr>"
proof -
  obtain job p where j: "dp_jobs d ! i = (job, p)" by (cases "dp_jobs d ! i") auto
  have i: "i < length (dp_jobs d)" using assms by (simp add: goroutine_step_def split: if_splits)
  show thesis
    using assms i j that by (cases p) (auto simp: goroutine_step_def split: prod.splits if_splits)
qed

lemma dispatcher_cases [consumes 1, case_names images_end unprepared prepared scanners_end announced acquired aborted spawned joined]:
  assumes "dispatcher_step env visit wait d = Some d'"
  obtains "dp_pc d = AtImages []" "d' = d\<lparr>dp_pc := AtWaitGroup\<rparr>"
  | img imgs r where "dp_pc d = AtImages (img # imgs)" "prepareScanImage env img (dp_recon d) = (None, r)"
      "d' = d\<lparr>dp_pc := AtImages imgs, dp_recon := r\<rparr>"
  | img imgs res ref r where "dp_pc d = AtImages (img # imgs)"
      "prepareScanImage env img (dp_recon d) = (Some (res, ref), r)"
      "d' = d\<lparr>dp_pc := AtScanners img res ref visit imgs, dp_recon := r\<rparr>"
  | img res ref imgs where "dp_pc d = AtScanners img res ref [] imgs" "d' = d\<lparr>dp_pc := AtImages imgs\<rparr>"
  | img res ref sc scs imgs where "dp_pc d = AtScanners img res ref (sc # scs) imgs"
      "d' = d\<lparr>dp_wg := dp_wg d + 1, dp_recon := Inc ScanQueueDepth (dp_recon d),
         dp_pc := AtSemaphore \<lparr>j_image = img, j_resolved = res, j_ref = ref, j_scanner = sc\<rparr> scs imgs\<rparr>"
  | job scs imgs where "dp_pc d = AtSemaphore job scs imgs" "dp_sem d < semaphore_size env"
      "d' = d\<lparr>dp_sem := dp_sem d + 1, dp_recon := Dec ScanQueueDepth (dp_recon d), dp_pc := AtLimiter job scs imgs\<rparr>"
  | job scs imgs err w where "dp_pc d = AtLimiter job scs imgs" "0 < dp_wg d" "0 < dp_sem d"
      "wait (r_backpressure (dp_recon d)) (ss_world (r_scan (dp_recon d))) = (Some err, w)"
      "d' = d\<lparr>dp_wg := dp_wg d - 1, dp_sem := dp_sem d - 1, dp_recon := with_world w (dp_recon d),
         dp_pc := Returned (Some (ErrWrap ''backpressure wait: '' err []))\<rparr>"
  | job scs imgs w where "dp_pc d = AtLimiter job scs imgs"
      "d' = d\<lparr>dp_jobs := dp_jobs d @ [(job, Scanning)], dp_recon := Inc ScansInFlight (with_world w (dp_recon d)),
         dp_pc := AtScanners (j_image job) (j_resolved job) (j_ref job) scs imgs\<rparr>"
  | "dp_pc d = AtWaitGroup" "dp_wg d = 0" "d' = d\<lparr>dp_pc := Returned (dp_err d)\<rparr>"
proof (cases "dp_pc d")
  case (AtImages imgs)
  show thesis
  proof (cases imgs)
    case Nil
    then show thesis using assms AtImages that(1) by (simp add: dispatcher_step_def)
  next
    case (Cons img imgs')
    obtain x r where p: "prepareScanImage env img (dp_recon d) = (x, r)" by (cases "prepareScanImage env img (dp_recon d)") auto
    show thesis
    proof (cases x)
      case None
      then show thesis using assms AtImages Cons p that(2) by (simp add: dispatcher_step_def)
    next
      case (Some y)
      then show thesis using assms AtImages Cons p that(3) by (cases y) (simp add: dispatcher_step_def)
    qed
  qed
next
  case (AtScanners img res ref scs imgs)
  then show thesis using assms that(4,5) by (cases scs) (simp_all add: dispatcher_step_def)
next
  case (AtSemaphore job scs imgs)
  then show thesis using assms that(6) by (simp add: dispatcher_step_def split: if_splits)
next
  case (AtLimiter job scs imgs)
  obtain x w where w: "wait (r_backpressure (dp_recon d)) (ss_world (r_scan (dp_recon d))) = (x, w)"
    by (cases "wait (r_backpressure (dp_recon d)) (ss_world (r_scan (dp_recon d)))") auto
  show thesis
  proof (cases x)
    case None
    then show thesis using assms AtLimiter w by (intro that(8) [OF AtLimiter, of w]) (simp add: dispatcher_step_def)
  next
    case (Some err)
    then show thesis
      using assms AtLimiter w
      by (intro that(7) [OF AtLimiter, of err w]) (simp_all add: dispatcher_step_def split: if_splits)
  qed
next
  case AtWaitGroup
  then show thesis using assms that(9) by (simp add: dispatcher_step_def split: if_splits)
next
  case (Returned err)
  then show thesis using assms by (simp add: dispatcher_step_def)
qed

inductive_simps pool_step_iff: "pool_step cap p p'"

lemma dispatch_pool_step:
  assumes "dispatch_step env wait ns wl d d'"
  shows "pool_step (semaphore_size env) (pool_of_dispatch d) (pool_of_dispatch d') \<or> pool_of_dispatch d' = pool_of_dispatch d"
  using assms
proof (cases rule: dispatch_step.cases)
  case dispatcher
  then show ?thesis
    by (cases rule: dispatcher_cases) (simp_all add: pool_of_dispatch_def pool_step_iff)
next
  case (goroutine i)
  then show ?thesis
  proof (cases rule: goroutine_cases)
    case (scan job err r)
    then show ?thesis
      using jobs_in_advance [OF scan(1,2), of "{Scanning, Releasing}" Releasing]
        jobs_in_advance [OF scan(1,2), of "{Leaving}" Releasing]
      by (simp add: pool_of_dispatch_def)
  next
    case (release job)
    then show ?thesis
      using jobs_in_advance [OF release(1,2), of "{Scanning, Releasing}" Leaving]
        jobs_in_advance [OF release(1,2), of "{Leaving}" Leaving]
      by (auto simp: pool_of_dispatch_def pool_step_iff)
  next
    case (leave job)
    then show ?thesis
      using jobs_in_remove [OF leave(1,2), of "{Scanning, Releasing}"] jobs_in_remove [OF leave(1,2), of "{Leaving}"]
      by (auto simp: pool_of_dispatch_def pool_step_iff)
  qed
qed

lemma dispatch_pool_init: "dispatch_init wl r d \<Longrightarrow> pool_init (pool_of_dispatch d)"
  by (simp add: dispatch_init_def dispatch_start_def Let_def pool_init_def pool_of_dispatch_def)

interpretation dispatch_pool: pool_client "dispatch_init wl r" "dispatch_step env wait ns wl" pool_of_dispatch
    "semaphore_size env" for wl r env wait ns
  by unfold_locales (rule dispatch_pool_init, assumption, rule dispatch_pool_step)

section \<open>What is counted\<close>

lemma added_simps [simp]:
  "added m r (Inc m' s) = added m r s + (if m' = m then 1 else 0)"
  "added m r (Dec m' s) = added m r s - (if m' = m then 1 else 0)"
  "added m r (metric_Add m' n s) = added m r s + (if m' = m then n else 0)"
  "added m r (with_world w s) = added m r s"
  "added m r r = 0"
  by (simp_all add: added_def metric_Add_def)

lemma scan_effect:
  assumes "runScannerForImage env ns wl ei res img sc err s = (err', s')"
  obtains failed where "failed = (0::int) \<or> failed = 1"
    "added ScanErrorsTotal r s' = added ScanErrorsTotal r s + failed"
    "added ScansTotal r s' = added ScansTotal r s + 1 - failed"
    "added ScansInFlight r s' = added ScansInFlight r s - 1"
    "err' = None \<longleftrightarrow> err = None \<and> failed = 0" "err \<noteq> None \<longrightarrow> err' = err"
    "\<forall>m \<in> {ScanQueueDepth, ImagesObservedTotal, ImagesResolvedTotal, ImageResolutionErrorsTotal}.
      added m r s' = added m r s"
proof -
  obtain x d cls e t where "executeScannerWithResilience (scanner_env env sc) (re_settings env) (sc_Name sc)
      img (r_scan s) = ((x, d, cls, e), t)"
    by (cases "executeScannerWithResilience (scanner_env env sc) (re_settings env) (sc_Name sc) img (r_scan s)") auto
  then have m: "added ScansTotal s s' = count_if (e = None)" "added ScanErrorsTotal s s' = count_if (e \<noteq> None)"
      "added ScansInFlight s s' = -1" "err' = (if err = None then e else err)"
    using scan_metrics [of env ns wl ei res img sc err s] assms by simp_all
  moreover have "added m r s' = added m r s + added m s s'" for m by (simp add: added_def)
  moreover have "\<forall>m \<in> {ScanQueueDepth, ImagesObservedTotal, ImagesResolvedTotal, ImageResolutionErrorsTotal}.
      added m r s' = added m r s"
    using scan_metrics_frame [OF assms] by (simp add: added_def)
  ultimately show thesis by (intro that [of "count_if (e \<noteq> None)"]) (auto simp: count_if_def)
qed

lemma prepare_effect:
  assumes "prepareScanImage env img s = (x, s')" "ei_Image img \<noteq> []"
  shows "s' = Inc (if x = None then ImageResolutionErrorsTotal else ImagesResolvedTotal) s"
proof -
  obtain p where "Parse (ei_Image img) = Inr p"
    using assms(2) by (cases "splitDigest (ei_Image img) (new_ref (ei_Image img))") (simp add: Parse_def Let_def)
  then show ?thesis using assms(1) by (auto simp: prepareScanImage_def split: prod.splits option.splits)
qed

lemma prepare_frame:
  assumes "prepareScanImage env img s = (x, s')" "m \<noteq> ImageResolutionErrorsTotal" "m \<noteq> ImagesResolvedTotal"
  shows "added m r s' = added m r s"
proof -
  have "s' = s \<or> s' = Inc ImageResolutionErrorsTotal s \<or> s' = Inc ImagesResolvedTotal s"
    using assms(1) by (auto simp: prepareScanImage_def split: sum.splits prod.splits option.splits)
  then show ?thesis using assms(2,3) by (elim disjE) simp_all
qed

text \<open>What the dispatcher has still to do.\<close>

fun images_left :: "'w dispatch_pc \<Rightarrow> extracted_image list" where
  "images_left (AtImages imgs) = imgs"
| "images_left (AtScanners _ _ _ _ imgs) = imgs"
| "images_left (AtSemaphore _ _ imgs) = imgs"
| "images_left (AtLimiter _ _ imgs) = imgs"
| "images_left _ = []"

fun scanners_left :: "'w dispatch_pc \<Rightarrow> nat" where
  "scanners_left (AtScanners _ _ _ scs _) = length scs"
| "scanners_left (AtSemaphore _ scs _) = length scs + 1"
| "scanners_left (AtLimiter _ scs _) = length scs + 1"
| "scanners_left _ = 0"

definition aborted :: "'w limiter_wait \<Rightarrow> 'w dispatch_pc \<Rightarrow> bool" where
  "aborted wait pc \<longleftrightarrow> (\<exists>e a w. pc = Returned (Some (ErrWrap ''backpressure wait: '' e [])) \<and> fst (wait a w) = Some e)"

definition gauges_inv :: "('w, 's) recon \<Rightarrow> ('w, 's) dispatch \<Rightarrow> bool" where
  "gauges_inv r d \<longleftrightarrow>
     added ScanQueueDepth r (dp_recon d) = (case dp_pc d of AtSemaphore _ _ _ \<Rightarrow> 1 | _ \<Rightarrow> 0) \<and>
     added ScansInFlight r (dp_recon d) = int (jobs_in {Scanning} (dp_jobs d))"

definition errors_inv :: "('w, 's) recon \<Rightarrow> ('w, 's) dispatch \<Rightarrow> bool" where
  "errors_inv r d \<longleftrightarrow> 0 \<le> added ScanErrorsTotal r (dp_recon d) \<and>
     (dp_err d = None \<longleftrightarrow> added ScanErrorsTotal r (dp_recon d) = 0)"

definition scans_inv :: "('w, 's) recon_env \<Rightarrow> 'w limiter_wait \<Rightarrow> workloadInfo \<Rightarrow> ('w, 's) recon \<Rightarrow> ('w, 's) dispatch \<Rightarrow> bool" where
  "scans_inv env wait wl r d \<longleftrightarrow> (let A = (\<lambda>m. added m r (dp_recon d)) in
     A ImagesObservedTotal = int (length (FromPodSpec (wl_PodSpec wl))) \<and>
     (\<forall>img \<in> set (images_left (dp_pc d)). ei_Image img \<noteq> []) \<and>
     (aborted wait (dp_pc d) \<or>
       A ScansTotal + A ScanErrorsTotal + int (jobs_in {Scanning} (dp_jobs d)) + int (scanners_left (dp_pc d)) =
         A ImagesResolvedTotal * int (length (re_scanners env)) \<and>
       A ImagesResolvedTotal + A ImageResolutionErrorsTotal + int (length (images_left (dp_pc d))) = A ImagesObservedTotal))"

definition return_inv :: "'w limiter_wait \<Rightarrow> ('w, 's) dispatch \<Rightarrow> bool" where
  "return_inv wait d \<longleftrightarrow> (\<forall>err. dp_pc d = Returned err \<longrightarrow> aborted wait (dp_pc d) \<or> dp_jobs d = [] \<and> err = dp_err d)"

lemma aborted_simps [simp]:
  "\<not> aborted wait (AtImages imgs)" "\<not> aborted wait (AtScanners img res ref scs imgs)"
  "\<not> aborted wait (AtSemaphore job scs imgs)" "\<not> aborted wait (AtLimiter job scs imgs)" "\<not> aborted wait AtWaitGroup"
  by (simp_all add: aborted_def)

lemma abortedI: "wait a w = (Some e, w') \<Longrightarrow> aborted wait (Returned (Some (ErrWrap ''backpressure wait: '' e [])))"
  by (auto simp: aborted_def) (metis fst_conv)

lemma gauges_inv_step:
  assumes "dispatch_step env wait ns wl d d'" "gauges_inv r d"
  shows "gauges_inv r d'"
  using assms(1)
proof (cases rule: dispatch_step.cases)
  case dispatcher
  then show ?thesis
  proof (cases rule: dispatcher_cases)
    case (unprepared img imgs s)
    then show ?thesis using assms(2) by (simp add: gauges_inv_def prepare_frame)
  next
    case (prepared img imgs res ref s)
    then show ?thesis using assms(2) by (simp add: gauges_inv_def prepare_frame)
  qed (use assms(2) in \<open>simp_all add: gauges_inv_def\<close>)
next
  case (goroutine i)
  then show ?thesis
  proof (cases rule: goroutine_cases)
    case (scan job err s)
    obtain failed where f: "added ScansInFlight r s = added ScansInFlight r (dp_recon d) - 1"
        "added ScanQueueDepth r s = added ScanQueueDepth r (dp_recon d)"
      by (rule scan_effect [OF scan(3), of r]) (rule that, simp_all)
    then show ?thesis
      using jobs_in_advance [OF scan(1,2), of "{Scanning}" Releasing] scan(4) assms(2) by (simp add: gauges_inv_def)
  next
    case (release job)
    then show ?thesis
      using assms(2) jobs_in_advance [OF release(1,2), of "{Scanning}" Leaving] by (simp add: gauges_inv_def)
  next
    case (leave job)
    then show ?thesis
      using assms(2) jobs_in_remove [OF leave(1,2), of "{Scanning}"] by (simp add: gauges_inv_def)
  qed
qed

lemma errors_inv_step:
  assumes "dispatch_step env wait ns wl d d'" "errors_inv r d"
  shows "errors_inv r d'"
  using assms(1)
proof (cases rule: dispatch_step.cases)
  case dispatcher
  then show ?thesis
  proof (cases rule: dispatcher_cases)
    case (unprepared img imgs s)
    then show ?thesis using assms(2) by (simp add: errors_inv_def prepare_frame)
  next
    case (prepared img imgs res ref s)
    then show ?thesis using assms(2) by (simp add: errors_inv_def prepare_frame)
  qed (use assms(2) in \<open>simp_all add: errors_inv_def\<close>)
next
  case (goroutine i)
  then show ?thesis
  proof (cases rule: goroutine_cases)
    case (scan job err s)
    obtain failed where f: "failed = (0::int) \<or> failed = 1" "err = None \<longleftrightarrow> dp_err d = None \<and> failed = 0"
        "added ScanErrorsTotal r s = added ScanErrorsTotal r (dp_recon d) + failed"
      by (rule scan_effect [OF scan(3), of r]) (rule that)
    then show ?thesis using scan(4) assms(2) by (auto simp: errors_inv_def)
  qed (use assms(2) in \<open>simp_all add: errors_inv_def\<close>)
qed

lemma return_inv_step:
  assumes "dispatch_step env wait ns wl d d'" "return_inv wait d" "pool_inv cap (pool_of_dispatch d)"
  shows "return_inv wait d'"
  using assms(1)
proof (cases rule: dispatch_step.cases)
  case dispatcher
  then show ?thesis
  proof (cases rule: dispatcher_cases)
    case joined
    then have "jobs_in {Scanning, Releasing} (dp_jobs d) = 0" "jobs_in {Leaving} (dp_jobs d) = 0"
      using assms(3) by (auto simp: pool_inv_def pool_of_dispatch_def)
    then have "\<forall>j \<in> set (dp_jobs d). snd j \<notin> {Scanning, Releasing} \<and> snd j \<notin> {Leaving}"
      by (simp add: jobs_in_def filter_empty_conv)
    then have "j \<notin> set (dp_jobs d)" for j by (cases "snd j") auto
    then have "dp_jobs d = []" by (metis list.set_intros(1) neq_Nil_conv)
    then show ?thesis using joined by (simp add: return_inv_def)
  qed (simp_all add: return_inv_def abortedI)
next
  case (goroutine i)
  then have pc: "dp_pc d' = dp_pc d" "dp_jobs d \<noteq> []" by (cases rule: goroutine_cases; auto)+
  then show ?thesis using assms(2) by (auto simp: return_inv_def)
qed

lemma scans_inv_step:
  assumes "dispatch_step env wait ns wl d d'" "scans_inv env wait wl r d"
  shows "scans_inv env wait wl r d'"
  using assms(1)
proof (cases rule: dispatch_step.cases)
  case (dispatcher visit)
  then show ?thesis
  proof (cases rule: dispatcher_cases)
    case (unprepared img imgs s)
    then have "ei_Image img \<noteq> []" using assms(2) by (simp add: scans_inv_def)
    from prepare_effect [OF unprepared(2) this] show ?thesis
      using unprepared(1,3) assms(2) by (simp add: scans_inv_def)
  next
    case (prepared img imgs res ref s)
    then have "ei_Image img \<noteq> []" using assms(2) by (simp add: scans_inv_def)
    from prepare_effect [OF prepared(2) this] show ?thesis
      using prepared(1,3) assms(2) mset_eq_length [OF dispatcher(2)] by (simp add: scans_inv_def algebra_simps)
  qed (use assms(2) in \<open>simp_all add: scans_inv_def abortedI\<close>)
next
  case (goroutine i)
  then show ?thesis
  proof (cases rule: goroutine_cases)
    case (scan job err s)
    obtain failed where f: "added ScanErrorsTotal r s = added ScanErrorsTotal r (dp_recon d) + failed"
        "added ScansTotal r s = added ScansTotal r (dp_recon d) + 1 - failed"
        "added ImagesObservedTotal r s = added ImagesObservedTotal r (dp_recon d)"
        "added ImagesResolvedTotal r s = added ImagesResolvedTotal r (dp_recon d)"
        "added ImageResolutionErrorsTotal r s = added ImageResolutionErrorsTotal r (dp_recon d)"
      by (rule scan_effect [OF scan(3), of r]) (rule that, simp_all)
    have "int (jobs_in {Scanning} (dp_jobs d)) = int (jobs_in {Scanning} ((dp_jobs d)[i := (job, Releasing)])) + 1"
      using jobs_in_advance [OF scan(1,2), of "{Scanning}" Releasing] by simp
    then show ?thesis using f scan(4) assms(2) by (auto simp: scans_inv_def)
  next
    case (release job)
    then show ?thesis
      using assms(2) jobs_in_advance [OF release(1,2), of "{Scanning}" Leaving] by (auto simp: scans_inv_def)
  next
    case (leave job)
    then show ?thesis
      using assms(2) jobs_in_remove [OF leave(1,2), of "{Scanning}"] by (auto simp: scans_inv_def)
  qed
qed

definition dispatch_inv :: "('w, 's) recon_env \<Rightarrow> 'w limiter_wait \<Rightarrow> workloadInfo \<Rightarrow> ('w, 's) recon \<Rightarrow> ('w, 's) dispatch \<Rightarrow> bool" where
  "dispatch_inv env wait wl r d \<longleftrightarrow> pool_inv (semaphore_size env) (pool_of_dispatch d) \<and> gauges_inv r d \<and> errors_inv r d \<and>
     scans_inv env wait wl r d \<and> return_inv wait d"

lemma dispatch_inv_init: "dispatch_init wl r d \<Longrightarrow> dispatch_inv env wait wl r d"
  using pool_inv_init [OF dispatch_pool_init [of wl r d]] FromPodSpec_nonempty [of _ "wl_PodSpec wl"]
  by (simp add: dispatch_inv_def dispatch_init_def dispatch_start_def Let_def gauges_inv_def errors_inv_def
      scans_inv_def return_inv_def)

lemma dispatch_inv_step:
  assumes "dispatch_inv env wait wl r d" "dispatch_step env wait ns wl d d'"
  shows "dispatch_inv env wait wl r d'"
proof -
  have p: "pool_inv (semaphore_size env) (pool_of_dispatch d)" using assms(1) by (simp add: dispatch_inv_def)
  have "pool_inv (semaphore_size env) (pool_of_dispatch d')"
    using dispatch_pool_step [OF assms(2)] pool_inv_step p by metis
  then show ?thesis
    using assms(1) gauges_inv_step [OF assms(2)] errors_inv_step [OF assms(2)] scans_inv_step [OF assms(2)]
      return_inv_step [OF assms(2) _ p]
    by (simp add: dispatch_inv_def)
qed

interpretation dispatch_run: inductive_invariant "dispatch_init wl r" "dispatch_step env wait ns wl" "dispatch_inv env wait wl r"
  for wl r env wait ns
  by unfold_locales (rule dispatch_inv_init, assumption, rule dispatch_inv_step)

text \<open>The metrics of the loop over the namespaces are not touched.\<close>

definition outer_metric :: "metric \<Rightarrow> bool" where
  "outer_metric m \<longleftrightarrow> m = NamespaceScanQueueDepth \<or> (\<exists>a. m = ReconcileRunsTotal a \<or> m = WorkloadsReconciledTotal a)"

lemma outer_metric_step:
  assumes "dispatch_step env wait ns wl d d'" "outer_metric m"
  shows "added m r (dp_recon d') = added m r (dp_recon d)"
proof -
  have m: "m \<notin> {ImageResolutionErrorsTotal, ImagesResolvedTotal, ScanQueueDepth, ScansInFlight}"
    using assms(2) by (auto simp: outer_metric_def)
  show ?thesis
    using assms(1)
  proof (cases rule: dispatch_step.cases)
    case dispatcher
    then show ?thesis by (cases rule: dispatcher_cases) (use m in \<open>auto simp: prepare_frame\<close>)
  next
    case (goroutine i)
    then show ?thesis
    proof (cases rule: goroutine_cases)
      case (scan job err s)
      then have "r_metrics s m = r_metrics (dp_recon d) m"
        by (rule_tac scan_metrics_frame) (use assms(2) in \<open>auto simp: outer_metric_def\<close>)
      then show ?thesis using scan(4) by (simp add: added_def)
    qed simp_all
  qed
qed

lemma reconcileWorkload_outer:
  assumes "reconcileWorkload env wait ns wl r err r'" "outer_metric m"
  shows "r_metrics r' m = r_metrics r m"
proof -
  have "added m r (dp_recon d) = 0" if "reaches (dispatch_init wl r) (dispatch_step env wait ns wl) d" for d
    using that
  proof (induction rule: reaches.induct)
    case (reaches_init d)
    then show ?case using assms(2) by (auto simp: dispatch_init_def dispatch_start_def Let_def outer_metric_def)
  next
    case (reaches_step d d')
    then show ?case using outer_metric_step [OF reaches_step(2) assms(2)] by metis
  qed
  then show ?thesis using assms(1) by (auto simp: reconcileWorkload_def added_def)
qed

section \<open>Every run ends\<close>

definition images_cost :: "nat \<Rightarrow> extracted_image list \<Rightarrow> nat" where
  "images_cost n imgs = length imgs * (6 * n + 2) + 2"

fun pc_cost :: "nat \<Rightarrow> 'w dispatch_pc \<Rightarrow> nat" where
  "pc_cost n (AtImages imgs) = images_cost n imgs"
| "pc_cost n (AtScanners _ _ _ scs imgs) = 6 * length scs + 1 + images_cost n imgs"
| "pc_cost n (AtSemaphore _ scs imgs) = 5 + 6 * length scs + 1 + images_cost n imgs"
| "pc_cost n (AtLimiter _ scs imgs) = 4 + 6 * length scs + 1 + images_cost n imgs"
| "pc_cost n AtWaitGroup = 1"
| "pc_cost n (Returned _) = 0"

definition dispatch_cost :: "('w, 's) recon_env \<Rightarrow> ('w, 's) dispatch \<Rightarrow> nat" where
  "dispatch_cost env d = pc_cost (length (re_scanners env)) (dp_pc d) + 3 * jobs_in {Scanning} (dp_jobs d)
     + 2 * jobs_in {Releasing} (dp_jobs d) + jobs_in {Leaving} (dp_jobs d)"

lemma dispatch_cost_step:
  assumes "dispatch_step env wait ns wl d d'"
  shows "dispatch_cost env d' < dispatch_cost env d"
  using assms
proof (cases rule: dispatch_step.cases)
  case dispatcher
  then show ?thesis by (cases rule: dispatcher_cases) (auto simp: dispatch_cost_def images_cost_def dest: mset_eq_length)
next
  case (goroutine i)
  then show ?thesis
  proof (cases rule: goroutine_cases)
    case (scan job err r)
    then show ?thesis
      using jobs_in_advance [OF scan(1,2), of "{Scanning}" Releasing] jobs_in_advance [OF scan(1,2), of "{Releasing}" Releasing]
        jobs_in_advance [OF scan(1,2), of "{Leaving}" Releasing]
      by (simp add: dispatch_cost_def)
  next
    case (release job)
    then show ?thesis
      using jobs_in_advance [OF release(1,2), of "{Scanning}" Leaving] jobs_in_advance [OF release(1,2), of "{Releasing}" Leaving]
        jobs_in_advance [OF release(1,2), of "{Leaving}" Leaving]
      by (simp add: dispatch_cost_def)
  next
    case (leave job)
    then show ?thesis
      using jobs_in_remove [OF leave(1,2), of "{Scanning}"] jobs_in_remove [OF leave(1,2), of "{Releasing}"]
        jobs_in_remove [OF leave(1,2), of "{Leaving}"]
      by (simp add: dispatch_cost_def)
  qed
qed

interpretation dispatch_measured: measured "dispatch_step env wait ns wl" "dispatch_cost env" for env wait ns wl
  by unfold_locales (rule dispatch_cost_step)

text \<open>The first goroutine can always go on, and without goroutines the dispatcher can.\<close>

lemma goroutine_goes_on:
  assumes "pool_inv cap (pool_of_dispatch d)" "dp_jobs d \<noteq> []"
  shows "\<exists>d'. goroutine_step env ns wl 0 d = Some d'"
proof -
  obtain job p js where j: "dp_jobs d = (job, p) # js" using assms(2) by (cases "dp_jobs d") auto
  have "jobs_in ps (dp_jobs d) = (if p \<in> ps then 1 else 0) + jobs_in ps js" for ps by (simp add: j jobs_in_def)
  then have "p \<in> {Scanning, Releasing} \<longrightarrow> 0 < dp_sem d" "0 < dp_wg d"
    using assms(1) by (cases p; simp add: pool_inv_def pool_of_dispatch_def)+
  then show ?thesis by (cases p) (simp_all add: goroutine_step_def j split: prod.split)
qed

lemma dispatcher_goes_on:
  assumes "pool_inv (semaphore_size env) (pool_of_dispatch d)" "dp_jobs d = []" "0 < semaphore_size env"
    and "\<And>err. dp_pc d \<noteq> Returned err"
  shows "\<exists>d'. dispatcher_step env visit wait d = Some d'"
proof (cases "dp_pc d")
  case (AtImages imgs)
  then show ?thesis by (auto simp: dispatcher_step_def Let_def split: list.splits prod.splits option.splits)
next
  case (AtScanners img res ref scs imgs)
  then show ?thesis by (cases scs) (simp_all add: dispatcher_step_def)
next
  case (AtLimiter job scs imgs)
  then show ?thesis using assms(1,2)
    by (cases "wait (r_backpressure (dp_recon d)) (ss_world (r_scan (dp_recon d)))")
      (auto simp: dispatcher_step_def pool_inv_def pool_of_dispatch_def Let_def split: option.split)
qed (use assms in \<open>auto simp: dispatcher_step_def pool_inv_def pool_of_dispatch_def\<close>)

lemma dispatch_progress:
  assumes "dispatch_inv env wait wl r d" "0 < semaphore_size env" "\<And>d'. \<not> dispatch_step env wait ns wl d d'"
  shows "\<exists>err. dispatch_over err d"
proof -
  have p: "pool_inv (semaphore_size env) (pool_of_dispatch d)" using assms(1) by (simp add: dispatch_inv_def)
  have "dp_jobs d = []"
    using goroutine_goes_on [OF p, of env ns wl] assms(3) dispatch_step.goroutine by metis
  moreover from dispatcher_goes_on [OF p this assms(2), of "re_scanners env" wait] have "\<exists>err. dp_pc d = Returned err"
    using assms(3) dispatch_step.dispatcher [OF _ refl] by metis
  ultimately show ?thesis by (auto simp: dispatch_over_def)
qed

section \<open>Properties\<close>

text \<open>A run given as a schedule: the dispatcher, or the goroutine with a number, makes the next step.\<close>

fun run_schedule ::
    "('w, 's) recon_env \<Rightarrow> 'w limiter_wait \<Rightarrow> string \<Rightarrow> workloadInfo \<Rightarrow> nat option list \<Rightarrow> ('w, 's) dispatch \<Rightarrow>
     ('w, 's) dispatch option" where
  "run_schedule env wait ns wl [] d = Some d"
| "run_schedule env wait ns wl (a # as) d =
     Option.bind (case a of None \<Rightarrow> dispatcher_step env (re_scanners env) wait d | Some i \<Rightarrow> goroutine_step env ns wl i d)
       (run_schedule env wait ns wl as)"

lemma run_schedule_reaches:
  "run_schedule env wait ns wl sch d = Some d' \<Longrightarrow> reaches (dispatch_init wl r) (dispatch_step env wait ns wl) d \<Longrightarrow>
    reaches (dispatch_init wl r) (dispatch_step env wait ns wl) d'"
  by (induction sch arbitrary: d)
    (auto simp: bind_eq_Some_conv split: option.splits intro: reaches_step dispatch_step.dispatcher [OF _ refl] dispatch_step.goroutine)

lemma reaches_start: "reaches (dispatch_init wl r) (dispatch_step env wait ns wl) (dispatch_start wl r)"
  by (simp add: reaches_init dispatch_init_def)

definition ex_image_scanner :: "string \<Rightarrow> nat scanner" where
  "ex_image_scanner n = \<lparr>sc_Name = n, sc_Scan = (\<lambda>w timeout img. (Inl (ErrNew ''no such image''), w))\<rparr>"

definition ex_recon_env :: "string list \<Rightarrow> (nat, unit) recon_env" where
  "ex_recon_env names = \<lparr>re_cfg = ex_config, re_settings = ex_runtime, re_scanners = map ex_image_scanner names,
     re_backend = \<lparr>be_GetEntry = (\<lambda>t k s. (Inr None, s)), be_SetEntry = (\<lambda>t k e s. (None, s)),
       be_DeleteEntry = (\<lambda>t k s. (None, s))\<rparr>,
     re_now = (\<lambda>_. 0), re_sleep = (\<lambda>w d. (None, w)), re_digest = (\<lambda>w s. Inr ''sha256:ab''),
     re_publish = None, re_create_event = None\<rparr>"

definition ex_workload_info :: workloadInfo where
  "ex_workload_info = \<lparr>wl_Kind = ''Deployment'', wl_Name = ''web'', wl_UID = ''u1'', wl_APIVersion = ''apps/v1'',
     wl_PodSpec = \<lparr>Containers = [\<lparr>c_Name = ''app'', c_Image = ''nginx''\<rparr>], InitContainers = [], EphemeralContainers = []\<rparr>\<rparr>"

text \<open>A rate limiter that lets a number of calls through and then sees a cancelled context.\<close>

definition ex_wait :: "nat \<Rightarrow> nat limiter_wait" where
  "ex_wait n a w = (if w < n then (None, w + 1) else (Some ErrCanceled, w))"

definition ex_recon :: "(nat, unit) recon" where
  "ex_recon = NewReconciler ex_config 0 ()"

fun returned :: "'w dispatch_pc \<Rightarrow> go_error option option" where
  "returned (Returned err) = Some err"
| "returned _ = None"

lemma returned_iff [simp]: "returned pc = Some err \<longleftrightarrow> pc = Returned err"
  by (cases pc) auto

lemma ex_aborted_run:
  "map_option (\<lambda>d. (returned (dp_pc d), map snd (dp_jobs d)))
     (run_schedule (ex_recon_env [''trivy'', ''snyk'']) (ex_wait 1) ''default'' ex_workload_info
       (replicate 7 None) (dispatch_start ex_workload_info ex_recon)) =
   Some (Some (Some (ErrWrap ''backpressure wait: '' ErrCanceled [])), [Scanning])"
  by code_simp

lemma reaches_dispatch_inv:
  "reaches (dispatch_init wl r) (dispatch_step env wait ns wl) d \<Longrightarrow> dispatch_inv env wait wl r d"
  by (rule dispatch_run.inv_reaches)

lemma dispatch_terminates:
  assumes "0 < semaphore_size env"
  shows "\<exists>err r'. reconcileWorkload env wait ns wl r err r'"
proof -
  obtain d where d: "(dispatch_step env wait ns wl)\<^sup>*\<^sup>* (dispatch_start wl r) d" "\<forall>u. \<not> dispatch_step env wait ns wl d u"
    using dispatch_measured.run_ends by blast
  then have "reaches (dispatch_init wl r) (dispatch_step env wait ns wl) d"
    using reaches_rtranclp reaches_start by metis
  then show ?thesis
    using dispatch_progress [OF reaches_dispatch_inv assms] d(2) unfolding reconcileWorkload_def by blast
qed

text \<open>C15: The scans of a workload run under its semaphore: in every state that any interleaving
  of the dispatcher and its goroutines reaches, the semaphore and the wait group are those of
  the abstract pool, at most \<open>concurrency\<close> goroutines hold a token or scan, the gauge of the
  scans in flight is the number of goroutines that scan, and the queue gauge is one exactly
  while the dispatcher waits for a token.\<close>

theorem dispatch_bounded:
  assumes "reaches (dispatch_init wl r) (dispatch_step env wait ns wl) d"
  shows "reaches pool_init (pool_step (semaphore_size env)) (pool_of_dispatch d) \<and>
    jobs_in {Scanning, Releasing} (dp_jobs d) \<le> semaphore_size env \<and>
    added ScansInFlight r (dp_recon d) = int (jobs_in {Scanning} (dp_jobs d)) \<and>
    added ScanQueueDepth r (dp_recon d) = (case dp_pc d of AtSemaphore job scs imgs \<Rightarrow> 1 | _ \<Rightarrow> 0)"
proof -
  note inv = reaches_dispatch_inv [OF assms]
  have "jobs_in {Scanning, Releasing} (dp_jobs d) \<le> semaphore_size env"
    using inv by (simp add: dispatch_inv_def pool_inv_def pool_of_dispatch_def)
  then show ?thesis
    using dispatch_pool.client_reaches [OF assms] inv by (simp add: dispatch_inv_def gauges_inv_def)
qed



text \<open>C2: Reconciling a workload always comes to an end: with a positive concurrency no run has
  more than six steps for each image and scanner, two for each image and two more, and a run
  that cannot go on is over: the dispatcher has returned and no goroutine is left behind.\<close>

theorem reconcileWorkload_returns:
  assumes "0 < semaphore_size env"
  shows "(\<exists>err r'. reconcileWorkload env wait ns wl r err r') \<and>
    (\<forall>n d. (dispatch_step env wait ns wl ^^ n) (dispatch_start wl r) d \<longrightarrow>
      n \<le> length (FromPodSpec (wl_PodSpec wl)) * (6 * length (re_scanners env) + 2) + 2 \<and>
      ((\<forall>d'. \<not> dispatch_step env wait ns wl d d') \<longrightarrow> (\<exists>err. dispatch_over err d)))"
proof (intro conjI allI impI)
  show "\<exists>err r'. reconcileWorkload env wait ns wl r err r'" by (rule dispatch_terminates [OF assms])
next
  fix n d assume run: "(dispatch_step env wait ns wl ^^ n) (dispatch_start wl r) d"
  have "n \<le> dispatch_cost env (dispatch_start wl r)"
    using dispatch_measured.run_length [OF run] by simp
  then show "n \<le> length (FromPodSpec (wl_PodSpec wl)) * (6 * length (re_scanners env) + 2) + 2"
    by (simp add: dispatch_cost_def dispatch_start_def images_cost_def Let_def)
  have "reaches (dispatch_init wl r) (dispatch_step env wait ns wl) d"
    using reaches_rtranclp [OF relpowp_imp_rtranclp [OF run] reaches_start] .
  then show "\<exists>err. dispatch_over err d" if "\<forall>d'. \<not> dispatch_step env wait ns wl d d'"
    using dispatch_progress [OF reaches_dispatch_inv assms] that by metis
qed

theorem reconcileWorkload_returns_witness:
  "\<exists>err r'. reconcileWorkload (ex_recon_env [''trivy'']) (ex_wait 1) ''default'' ex_workload_info ex_recon err r'"
  using reconcileWorkload_returns [of "ex_recon_env [''trivy'']" "ex_wait 1" "''default''" ex_workload_info ex_recon]
  by (simp add: semaphore_size_def ex_recon_env_def ex_config_def)

theorem dispatch_bounded_witness:
  "added ScansInFlight ex_recon (dp_recon (dispatch_start ex_workload_info ex_recon)) = 0"
  using dispatch_bounded [OF reaches_start [of ex_workload_info ex_recon "ex_recon_env []" "ex_wait 0" "''default''"]]
  by (simp add: dispatch_start_def Let_def)

text \<open>C24: An error of the rate limiter breaks the join: \<open>reconcileWorkload\<close> returns at once, and
  scans it has started can still run then, with their results still to be stored and
  published. In every other case it returns with no scan running.\<close>

theorem backpressure_leaves_scans:
  "(\<exists>env wait ns wl r d. reaches (dispatch_init wl (r :: (nat, unit) recon)) (dispatch_step env wait ns wl) d \<and>
      dp_pc d = Returned (Some (ErrWrap ''backpressure wait: '' ErrCanceled [])) \<and> jobs_in {Scanning} (dp_jobs d) = 1) \<and>
   (\<forall>env wait ns wl r d err. reaches (dispatch_init wl (r :: ('w, 's) recon)) (dispatch_step env wait ns wl) d \<and>
      dp_pc d = Returned err \<and> \<not> aborted wait (dp_pc d) \<longrightarrow> dp_jobs d = [])"
proof (intro conjI allI impI)
  obtain d where d: "run_schedule (ex_recon_env [''trivy'', ''snyk'']) (ex_wait 1) ''default'' ex_workload_info
      (replicate 7 None) (dispatch_start ex_workload_info ex_recon) = Some d"
      "dp_pc d = Returned (Some (ErrWrap ''backpressure wait: '' ErrCanceled []))" "map snd (dp_jobs d) = [Scanning]"
    using ex_aborted_run by auto
  moreover from d(3) have "jobs_in {Scanning} (dp_jobs d) = 1" by (auto simp: jobs_in_def)
  ultimately show "\<exists>env wait ns wl r d. reaches (dispatch_init wl (r :: (nat, unit) recon)) (dispatch_step env wait ns wl) d \<and>
      dp_pc d = Returned (Some (ErrWrap ''backpressure wait: '' ErrCanceled [])) \<and> jobs_in {Scanning} (dp_jobs d) = 1"
    using run_schedule_reaches [OF d(1) reaches_start] by blast
next
  fix env wait ns wl and r :: "('w, 's) recon" and d err
  assume "reaches (dispatch_init wl r) (dispatch_step env wait ns wl) d \<and> dp_pc d = Returned err \<and> \<not> aborted wait (dp_pc d)"
  then show "dp_jobs d = []" using reaches_dispatch_inv [of wl r env wait ns d] by (auto simp: dispatch_inv_def return_inv_def)
qed

lemma ex_quiet_run:
  "map_option (\<lambda>d. returned (dp_pc d))
     (run_schedule (ex_recon_env []) (ex_wait 1) ''default'' ex_workload_info
       (replicate 4 None) (dispatch_start ex_workload_info ex_recon)) = Some (Some None)"
  by code_simp

theorem backpressure_leaves_scans_witness:
  "map_option dp_jobs (run_schedule (ex_recon_env []) (ex_wait 1) ''default'' ex_workload_info
     (replicate 4 None) (dispatch_start ex_workload_info ex_recon)) = Some []"
proof -
  obtain d where d: "run_schedule (ex_recon_env []) (ex_wait 1) ''default'' ex_workload_info
      (replicate 4 None) (dispatch_start ex_workload_info ex_recon) = Some d" "dp_pc d = Returned None"
    using ex_quiet_run by auto
  have "\<not> aborted (ex_wait 1) (dp_pc d)" by (simp add: d(2) aborted_def)
  then show ?thesis
    using conjunct2 [OF backpressure_leaves_scans, rule_format, of ex_workload_info ex_recon "ex_recon_env []" "ex_wait 1" "''default''" d None]
      run_schedule_reaches [OF d(1) reaches_start] d by simp
qed

end
