(* ===== verification/Reconcile_All.thy ===== *)
theory Reconcile_All
  imports Dispatch
begin

text \<open>
  A full run over the cluster: \<open>ReconcileAll\<close> of \<open>internal/reconciler/reconcile.go\<close>. The loop
  over the namespaces and the goroutines it starts are interleaved; a goroutine lists the
  workloads of its namespace kind by kind and reconciles them one after the other. The
  reconciliation of a workload is one step here, with an outcome that \<open>Dispatch\<close> allows.
\<close>

section \<open>The machine\<close>

datatype ns_phase = NsRunning | NsReleasing | NsLeaving

record ns_worker =
  nw_namespace :: string
  nw_kinds :: "string list"
  nw_workloads :: "workloadInfo list"
  nw_count :: nat
  nw_phase :: ns_phase

datatype all_pc =
    AtNamespaces "string list"
  | AtNsSemaphore string "string list"
  | AtSpawn string "string list"
  | AtNsWaitGroup
  | AtCancelled go_error
  | AllReturned "go_error option"

record ('w, 's) reconcile_all =
  ra_pc :: all_pc
  ra_workers :: "ns_worker list"
  ra_sem :: nat
  ra_wg :: nat
  ra_totalWorkloads :: nat
  ra_recon :: "('w, 's) recon"

text \<open>The cluster and the error of the context, as they are in a world.\<close>

record ('w, 's) all_env =
  ae_recon :: "('w, 's) recon_env"
  ae_wait :: "'w limiter_wait"
  ae_cluster :: "'w \<Rightarrow> cluster"
  ae_ctx_err :: "'w \<Rightarrow> go_error option"

abbreviation world_of :: "('w, 's) recon \<Rightarrow> 'w" where
  "world_of r \<equiv> ss_world (r_scan r)"

definition ns_semaphore_size :: "('w, 's) all_env \<Rightarrow> nat" where
  "ns_semaphore_size ae = nat (NamespaceConcurrency (EffectiveScannersConfig (cfg_Scanners (re_cfg (ae_recon ae)))))"

definition start_all :: "('w, 's) all_env \<Rightarrow> ('w, 's) recon \<Rightarrow> ('w, 's) reconcile_all" where
  "start_all ae r =
     (case resolveNamespaces (re_cfg (ae_recon ae)) (ae_cluster ae (world_of r)) of
        Inl err \<Rightarrow>
          \<lparr>ra_pc = AllReturned (Some (ErrWrap ''resolve namespaces: '' err [])), ra_workers = [], ra_sem = 0, ra_wg = 0,
           ra_totalWorkloads = 0, ra_recon = Inc (ReconcileRunsTotal ''error'') r\<rparr>
      | Inr namespaces \<Rightarrow>
          \<lparr>ra_pc = AtNamespaces namespaces, ra_workers = [], ra_sem = 0, ra_wg = 0, ra_totalWorkloads = 0,
           ra_recon = r\<rparr>)"

definition new_worker :: "('w, 's) all_env \<Rightarrow> string \<Rightarrow> ns_worker" where
  "new_worker ae ns = \<lparr>nw_namespace = ns, nw_kinds = cfg_WorkloadKinds (re_cfg (ae_recon ae)), nw_workloads = [],
     nw_count = 0, nw_phase = NsRunning\<rparr>"

text \<open>The steps of the loop. Where the semaphore has room and the context is cancelled, the
  \<open>select\<close> may take either branch.\<close>

inductive loop_step :: "('w, 's) all_env \<Rightarrow> ('w, 's) reconcile_all \<Rightarrow> ('w, 's) reconcile_all \<Rightarrow> bool" for ae where
  excluded: "ra_pc a = AtNamespaces (ns # rest) \<Longrightarrow> isExcluded ns (Exclude (cfg_Namespaces (re_cfg (ae_recon ae)))) \<Longrightarrow>
    loop_step ae a (a\<lparr>ra_pc := AtNamespaces rest\<rparr>)"
| announced: "ra_pc a = AtNamespaces (ns # rest) \<Longrightarrow> \<not> isExcluded ns (Exclude (cfg_Namespaces (re_cfg (ae_recon ae)))) \<Longrightarrow>
    loop_step ae a (a\<lparr>ra_pc := AtNsSemaphore ns rest, ra_wg := ra_wg a + 1,
      ra_recon := Inc NamespaceScanQueueDepth (ra_recon a)\<rparr>)"
| acquired: "ra_pc a = AtNsSemaphore ns rest \<Longrightarrow> ra_sem a < ns_semaphore_size ae \<Longrightarrow>
    loop_step ae a (a\<lparr>ra_pc := AtSpawn ns rest, ra_sem := ra_sem a + 1,
      ra_recon := Dec NamespaceScanQueueDepth (ra_recon a)\<rparr>)"
| cancelled: "ra_pc a = AtNsSemaphore ns rest \<Longrightarrow> ae_ctx_err ae (world_of (ra_recon a)) = Some err \<Longrightarrow> 0 < ra_wg a \<Longrightarrow>
    loop_step ae a (a\<lparr>ra_pc := AtCancelled err, ra_wg := ra_wg a - 1,
      ra_recon := Dec NamespaceScanQueueDepth (ra_recon a)\<rparr>)"
| spawned: "ra_pc a = AtSpawn ns rest \<Longrightarrow>
    loop_step ae a (a\<lparr>ra_pc := AtNamespaces rest, ra_workers := ra_workers a @ [new_worker ae ns]\<rparr>)"
| loop_end: "ra_pc a = AtNamespaces [] \<Longrightarrow> loop_step ae a (a\<lparr>ra_pc := AtNsWaitGroup\<rparr>)"
| joined: "ra_pc a = AtNsWaitGroup \<Longrightarrow> ra_wg a = 0 \<Longrightarrow>
    loop_step ae a (a\<lparr>ra_pc := AllReturned None, ra_recon := Inc (ReconcileRunsTotal ''success'') (ra_recon a)\<rparr>)"
| cancel_joined: "ra_pc a = AtCancelled err \<Longrightarrow> ra_wg a = 0 \<Longrightarrow>
    loop_step ae a (a\<lparr>ra_pc := AllReturned (Some (ErrWrap ''namespace queue wait: '' err [])),
      ra_recon := Inc (ReconcileRunsTotal ''error'') (ra_recon a)\<rparr>)"

text \<open>The steps of the goroutine with a number.\<close>

inductive worker_step :: "('w, 's) all_env \<Rightarrow> nat \<Rightarrow> ('w, 's) reconcile_all \<Rightarrow> ('w, 's) reconcile_all \<Rightarrow> bool" for ae where
  listed: "i < length (ra_workers a) \<Longrightarrow> ra_workers a ! i = w \<Longrightarrow> nw_phase w = NsRunning \<Longrightarrow> nw_workloads w = [] \<Longrightarrow>
    nw_kinds w = kind # kinds \<Longrightarrow>
    listWorkloads (ae_cluster ae (world_of (ra_recon a))) (nw_namespace w) kind = Inr workloads \<Longrightarrow>
    worker_step ae i a (a\<lparr>ra_workers := (ra_workers a)[i := w\<lparr>nw_kinds := kinds, nw_workloads := workloads,
      nw_count := nw_count w + length workloads\<rparr>]\<rparr>)"
| not_listed: "i < length (ra_workers a) \<Longrightarrow> ra_workers a ! i = w \<Longrightarrow> nw_phase w = NsRunning \<Longrightarrow> nw_workloads w = [] \<Longrightarrow>
    nw_kinds w = kind # kinds \<Longrightarrow>
    listWorkloads (ae_cluster ae (world_of (ra_recon a))) (nw_namespace w) kind = Inl err \<Longrightarrow>
    worker_step ae i a (a\<lparr>ra_workers := (ra_workers a)[i := w\<lparr>nw_kinds := kinds\<rparr>]\<rparr>)"
| reconciled: "i < length (ra_workers a) \<Longrightarrow> ra_workers a ! i = w \<Longrightarrow> nw_phase w = NsRunning \<Longrightarrow> nw_workloads w = wl # wls \<Longrightarrow>
    reconcileWorkload (ae_recon ae) (ae_wait ae) (nw_namespace w) wl (ra_recon a) err r \<Longrightarrow>
    worker_step ae i a (a\<lparr>ra_workers := (ra_workers a)[i := w\<lparr>nw_workloads := wls\<rparr>],
      ra_recon := Inc (WorkloadsReconciledTotal (if err = None then ''success'' else ''error'')) r\<rparr>)"
| finished: "i < length (ra_workers a) \<Longrightarrow> ra_workers a ! i = w \<Longrightarrow> nw_phase w = NsRunning \<Longrightarrow> nw_workloads w = [] \<Longrightarrow>
    nw_kinds w = [] \<Longrightarrow>
    worker_step ae i a (a\<lparr>ra_workers := (ra_workers a)[i := w\<lparr>nw_phase := NsReleasing\<rparr>],
      ra_totalWorkloads := ra_totalWorkloads a + nw_count w\<rparr>)"
| released: "i < length (ra_workers a) \<Longrightarrow> ra_workers a ! i = w \<Longrightarrow> nw_phase w = NsReleasing \<Longrightarrow> 0 < ra_sem a \<Longrightarrow>
    worker_step ae i a (a\<lparr>ra_workers := (ra_workers a)[i := w\<lparr>nw_phase := NsLeaving\<rparr>], ra_sem := ra_sem a - 1\<rparr>)"
| left: "i < length (ra_workers a) \<Longrightarrow> ra_workers a ! i = w \<Longrightarrow> nw_phase w = NsLeaving \<Longrightarrow> 0 < ra_wg a \<Longrightarrow>
    worker_step ae i a (a\<lparr>ra_workers := take i (ra_workers a) @ drop (Suc i) (ra_workers a), ra_wg := ra_wg a - 1\<rparr>)"

definition all_step :: "('w, 's) all_env \<Rightarrow> ('w, 's) reconcile_all \<Rightarrow> ('w, 's) reconcile_all \<Rightarrow> bool" where
  "all_step ae a a' \<longleftrightarrow> loop_step ae a a' \<or> (\<exists>i. worker_step ae i a a')"

definition all_init :: "('w, 's) all_env \<Rightarrow> ('w, 's) recon \<Rightarrow> ('w, 's) reconcile_all \<Rightarrow> bool" where
  "all_init ae r a \<longleftrightarrow> a = start_all ae r"

section \<open>The pool behind it\<close>

definition workers_in :: "ns_phase set \<Rightarrow> ns_worker list \<Rightarrow> nat" where
  "workers_in ps ws = sum_list (map (\<lambda>w. if nw_phase w \<in> ps then 1 else 0) ws)"

definition pool_of_all :: "('w, 's) reconcile_all \<Rightarrow> pool" where
  "pool_of_all a = \<lparr>
     p_queued = (case ra_pc a of AtNsSemaphore _ _ \<Rightarrow> 1 | _ \<Rightarrow> 0),
     p_held = (case ra_pc a of AtSpawn _ _ \<Rightarrow> 1 | _ \<Rightarrow> 0),
     p_running = workers_in {NsRunning, NsReleasing} (ra_workers a),
     p_leaving = workers_in {NsLeaving} (ra_workers a),
     p_sem = ra_sem a, p_wg = ra_wg a\<rparr>"

lemma workers_in_simps [simp]:
  "workers_in ps [] = 0"
  "workers_in ps (ws @ [w]) = workers_in ps ws + (if nw_phase w \<in> ps then 1 else 0)"
  by (simp_all add: workers_in_def)

lemma workers_in_update:
  "i < length ws \<Longrightarrow> ws ! i = w \<Longrightarrow> workers_in ps (ws[i := w']) + (if nw_phase w \<in> ps then 1 else 0) =
    workers_in ps ws + (if nw_phase w' \<in> ps then 1 else 0)"
  using sum_list_map_update [of i ws "\<lambda>w. if nw_phase w \<in> ps then 1 else 0" w'] by (simp add: workers_in_def)

lemma workers_in_remove:
  "i < length ws \<Longrightarrow> ws ! i = w \<Longrightarrow> workers_in ps (take i ws @ drop (Suc i) ws) + (if nw_phase w \<in> ps then 1 else 0) =
    workers_in ps ws"
  using sum_list_map_remove [of i ws "\<lambda>w. if nw_phase w \<in> ps then 1 else 0"] by (simp add: workers_in_def)

lemma workers_in_Nil: "workers_in {NsRunning, NsReleasing} ws = 0 \<Longrightarrow> workers_in {NsLeaving} ws = 0 \<Longrightarrow> ws = []"
proof (cases ws)
  case (Cons w ws')
  then show "workers_in {NsRunning, NsReleasing} ws = 0 \<Longrightarrow> workers_in {NsLeaving} ws = 0 \<Longrightarrow> ws = []"
    by (cases "nw_phase w") (simp_all add: workers_in_def)
qed simp

lemma all_pool_init: "all_init ae r a \<Longrightarrow> pool_init (pool_of_all a)"
  by (simp add: all_init_def start_all_def pool_init_def pool_of_all_def split: sum.split)

lemma all_pool_step:
  assumes "all_step ae a a'"
  shows "pool_step (ns_semaphore_size ae) (pool_of_all a) (pool_of_all a') \<or> pool_of_all a' = pool_of_all a"
  using assms unfolding all_step_def
proof (elim disjE exE)
  assume "loop_step ae a a'"
  then show ?thesis
    by (cases rule: loop_step.cases) (simp_all add: pool_of_all_def pool_step_iff new_worker_def)
next
  fix i assume "worker_step ae i a a'"
  then show ?thesis
  proof (cases rule: worker_step.cases)
    case (released w)
    then show ?thesis
      using workers_in_update [OF released(2,3), of "{NsRunning, NsReleasing}" "w\<lparr>nw_phase := NsLeaving\<rparr>"]
        workers_in_update [OF released(2,3), of "{NsLeaving}" "w\<lparr>nw_phase := NsLeaving\<rparr>"]
      by (auto simp: pool_of_all_def pool_step_iff)
  next
    case (left w)
    then show ?thesis
      using workers_in_remove [OF left(2,3), of "{NsRunning, NsReleasing}"] workers_in_remove [OF left(2,3), of "{NsLeaving}"]
      by (auto simp: pool_of_all_def pool_step_iff)
  next
    case (listed w kind kinds workloads)
    let ?w' = "w\<lparr>nw_kinds := kinds, nw_workloads := workloads, nw_count := nw_count w + length workloads\<rparr>"
    from listed show ?thesis
      using workers_in_update [OF listed(2,3), of "{NsRunning, NsReleasing}" ?w'] workers_in_update [OF listed(2,3), of "{NsLeaving}" ?w']
      by (simp add: pool_of_all_def)
  next
    case (not_listed w kind kinds err)
    then show ?thesis
      using workers_in_update [OF not_listed(2,3), of "{NsRunning, NsReleasing}" "w\<lparr>nw_kinds := kinds\<rparr>"]
        workers_in_update [OF not_listed(2,3), of "{NsLeaving}" "w\<lparr>nw_kinds := kinds\<rparr>"]
      by (simp add: pool_of_all_def)
  next
    case (reconciled w wl wls err r)
    then show ?thesis
      using workers_in_update [OF reconciled(2,3), of "{NsRunning, NsReleasing}" "w\<lparr>nw_workloads := wls\<rparr>"]
        workers_in_update [OF reconciled(2,3), of "{NsLeaving}" "w\<lparr>nw_workloads := wls\<rparr>"]
      by (simp add: pool_of_all_def)
  next
    case (finished w)
    then show ?thesis
      using workers_in_update [OF finished(2,3), of "{NsRunning, NsReleasing}" "w\<lparr>nw_phase := NsReleasing\<rparr>"]
        workers_in_update [OF finished(2,3), of "{NsLeaving}" "w\<lparr>nw_phase := NsReleasing\<rparr>"]
      by (simp add: pool_of_all_def)
  qed
qed

interpretation all_pool: pool_client "all_init ae r" "all_step ae" pool_of_all "ns_semaphore_size ae" for ae r
  by unfold_locales (rule all_pool_init, assumption, rule all_pool_step)

section \<open>What is counted\<close>

definition included :: "('w, 's) all_env \<Rightarrow> string list \<Rightarrow> string list" where
  "included ae nss = filter (\<lambda>ns. \<not> isExcluded ns (Exclude (cfg_Namespaces (re_cfg (ae_recon ae))))) nss"

definition scanned_namespaces :: "('w, 's) all_env \<Rightarrow> cluster \<Rightarrow> string list" where
  "scanned_namespaces ae cl =
     (case resolveNamespaces (re_cfg (ae_recon ae)) cl of Inl _ \<Rightarrow> [] | Inr nss \<Rightarrow> included ae nss)"

fun namespaces_left :: "('w, 's) all_env \<Rightarrow> all_pc \<Rightarrow> string list" where
  "namespaces_left ae (AtNamespaces nss) = included ae nss"
| "namespaces_left ae (AtNsSemaphore ns nss) = ns # included ae nss"
| "namespaces_left ae (AtSpawn ns nss) = ns # included ae nss"
| "namespaces_left ae _ = []"

fun stopped :: "all_pc \<Rightarrow> bool" where
  "stopped (AtCancelled err) = True"
| "stopped (AllReturned (Some err)) = True"
| "stopped _ = False"

text \<open>The workloads that a namespace has of a kind, and those that are still to be reconciled.\<close>

definition listed_count :: "cluster \<Rightarrow> string \<Rightarrow> string \<Rightarrow> nat" where
  "listed_count cl ns kind = (case listWorkloads cl ns kind of Inl _ \<Rightarrow> 0 | Inr ws \<Rightarrow> length ws)"

definition kinds_count :: "cluster \<Rightarrow> string list \<Rightarrow> string \<Rightarrow> nat" where
  "kinds_count cl kinds ns = sum_list (map (listed_count cl ns) kinds)"

definition workloads_of :: "('w, 's) all_env \<Rightarrow> cluster \<Rightarrow> string \<Rightarrow> nat" where
  "workloads_of ae cl = kinds_count cl (cfg_WorkloadKinds (re_cfg (ae_recon ae)))"

definition worker_left :: "cluster \<Rightarrow> ns_worker \<Rightarrow> nat" where
  "worker_left cl w = length (nw_workloads w) + kinds_count cl (nw_kinds w) (nw_namespace w)"

definition workloads_left :: "('w, 's) all_env \<Rightarrow> cluster \<Rightarrow> ('w, 's) reconcile_all \<Rightarrow> nat" where
  "workloads_left ae cl a = sum_list (map (worker_left cl) (ra_workers a))
     + sum_list (map (workloads_of ae cl) (namespaces_left ae (ra_pc a)))"

abbreviation workloads_done :: "('w, 's) recon \<Rightarrow> ('w, 's) recon \<Rightarrow> int" where
  "workloads_done r r' \<equiv> added (WorkloadsReconciledTotal ''success'') r r' + added (WorkloadsReconciledTotal ''error'') r r'"

definition work_inv :: "('w, 's) all_env \<Rightarrow> cluster \<Rightarrow> ('w, 's) recon \<Rightarrow> ('w, 's) reconcile_all \<Rightarrow> bool" where
  "work_inv ae cl r a \<longleftrightarrow> stopped (ra_pc a) \<or>
     workloads_done r (ra_recon a) + int (workloads_left ae cl a) =
       int (sum_list (map (workloads_of ae cl) (scanned_namespaces ae cl)))"

definition runs_inv :: "('w, 's) recon \<Rightarrow> ('w, 's) reconcile_all \<Rightarrow> bool" where
  "runs_inv r a \<longleftrightarrow>
     added NamespaceScanQueueDepth r (ra_recon a) = (case ra_pc a of AtNsSemaphore _ _ \<Rightarrow> 1 | _ \<Rightarrow> 0) \<and>
     added (ReconcileRunsTotal ''success'') r (ra_recon a) = (if ra_pc a = AllReturned None then 1 else 0) \<and>
     added (ReconcileRunsTotal ''error'') r (ra_recon a) = (case ra_pc a of AllReturned (Some _) \<Rightarrow> 1 | _ \<Rightarrow> 0) \<and>
     (\<forall>err. ra_pc a = AllReturned err \<longrightarrow> ra_workers a = [])"

definition namespaces_inv :: "('w, 's) all_env \<Rightarrow> cluster \<Rightarrow> ('w, 's) reconcile_all \<Rightarrow> bool" where
  "namespaces_inv ae cl a \<longleftrightarrow> set (namespaces_left ae (ra_pc a)) \<subseteq> set (scanned_namespaces ae cl) \<and>
     nw_namespace ` set (ra_workers a) \<subseteq> set (scanned_namespaces ae cl)"

lemma included_simps [simp]:
  "included ae [] = []"
  "isExcluded ns (Exclude (cfg_Namespaces (re_cfg (ae_recon ae)))) \<Longrightarrow> included ae (ns # nss) = included ae nss"
  "\<not> isExcluded ns (Exclude (cfg_Namespaces (re_cfg (ae_recon ae)))) \<Longrightarrow> included ae (ns # nss) = ns # included ae nss"
  by (simp_all add: included_def)

lemma kinds_count_simps [simp]:
  "kinds_count cl [] ns = 0" "kinds_count cl (k # ks) ns = listed_count cl ns k + kinds_count cl ks ns"
  by (simp_all add: kinds_count_def)

lemma worker_left_new [simp]: "worker_left cl (new_worker ae ns) = workloads_of ae cl ns"
  by (simp add: worker_left_def new_worker_def workloads_of_def)

lemma outer_metrics [simp]:
  "outer_metric NamespaceScanQueueDepth" "outer_metric (ReconcileRunsTotal x)" "outer_metric (WorkloadsReconciledTotal x)"
  by (simp_all add: outer_metric_def)

lemma reconcileWorkload_added:
  "reconcileWorkload env wait ns wl s err s' \<Longrightarrow> outer_metric m \<Longrightarrow> added m r s' = added m r s"
  using reconcileWorkload_outer by (simp add: added_def)

lemma worker_list_update:
  "i < length ws \<Longrightarrow> ws ! i = w \<Longrightarrow> sum_list (map g (ws[i := w'])) + g w = sum_list (map g ws) + (g w' :: nat)"
  using sum_list_map_update [of i ws g w'] by simp

lemma worker_list_remove:
  "i < length ws \<Longrightarrow> ws ! i = w \<Longrightarrow>
     sum_list (map g (take i ws)) + sum_list (map g (drop (Suc i) ws)) + g w = (sum_list (map g ws) :: nat)"
  using sum_list_map_remove [of i ws g] by simp

text \<open>What a worker's step does to the work that is left: it goes down with each workload.\<close>

lemma worker_step_left:
  assumes "worker_step ae i a a'" "\<And>w. ae_cluster ae w = cl"
    and "\<And>w. w \<in> set (ra_workers a) \<Longrightarrow> nw_phase w \<noteq> NsRunning \<Longrightarrow> worker_left cl w = 0"
  shows "workloads_done r (ra_recon a') + int (workloads_left ae cl a') = workloads_done r (ra_recon a) + int (workloads_left ae cl a)"
  using assms(1)
proof (cases rule: worker_step.cases)
  case (listed w kind kinds workloads)
  then have "listed_count cl (nw_namespace w) kind = length workloads"
    using assms(2) by (simp add: listed_count_def)
  then show ?thesis using listed
    worker_list_update [OF listed(2,3), of "worker_left cl" "w\<lparr>nw_kinds := kinds, nw_workloads := workloads,
      nw_count := nw_count w + length workloads\<rparr>"]
    by (simp add: workloads_left_def worker_left_def)
next
  case (not_listed w kind kinds err)
  then have "listed_count cl (nw_namespace w) kind = 0" using assms(2) by (simp add: listed_count_def)
  then show ?thesis using not_listed
    worker_list_update [OF not_listed(2,3), of "worker_left cl" "w\<lparr>nw_kinds := kinds\<rparr>"]
    by (simp add: workloads_left_def worker_left_def)
next
  case (reconciled w wl wls err s)
  then show ?thesis
    using worker_list_update [OF reconciled(2,3), of "worker_left cl" "w\<lparr>nw_workloads := wls\<rparr>"]
    by (simp add: workloads_left_def worker_left_def reconcileWorkload_added)
next
  case (finished w)
  then show ?thesis
    using worker_list_update [OF finished(2,3), of "worker_left cl" "w\<lparr>nw_phase := NsReleasing\<rparr>"]
    by (simp add: workloads_left_def worker_left_def)
next
  case (released w)
  then show ?thesis
    using worker_list_update [OF released(2,3), of "worker_left cl" "w\<lparr>nw_phase := NsLeaving\<rparr>"]
    by (simp add: workloads_left_def worker_left_def)
next
  case (left w)
  then have "worker_left cl w = 0" using assms(3) [of w] by auto
  then show ?thesis using left worker_list_remove [OF left(2,3), of "worker_left cl"] by (simp add: workloads_left_def)
qed

definition idle_inv :: "cluster \<Rightarrow> ('w, 's) reconcile_all \<Rightarrow> bool" where
  "idle_inv cl a \<longleftrightarrow> (\<forall>w \<in> set (ra_workers a). nw_phase w \<noteq> NsRunning \<longrightarrow> worker_left cl w = 0)"

lemma set_remove_nth: "set (take i xs @ drop (Suc i) xs) \<subseteq> set xs"
  by (auto dest: in_set_takeD in_set_dropD)

lemma all_worker_frame:
  assumes "worker_step ae i a a'"
  shows "ra_pc a' = ra_pc a" "ra_workers a \<noteq> []"
    "nw_namespace ` set (ra_workers a') \<subseteq> nw_namespace ` set (ra_workers a)"
proof -
  have upd: "nw_namespace ` set ((ra_workers a)[i := w']) \<subseteq> nw_namespace ` set (ra_workers a)"
    if "i < length (ra_workers a)" "nw_namespace w' = nw_namespace (ra_workers a ! i)" for w'
    using that set_update_subset_insert [of "ra_workers a" i w'] by auto
  have "ra_pc a' = ra_pc a \<and> ra_workers a \<noteq> [] \<and> nw_namespace ` set (ra_workers a') \<subseteq> nw_namespace ` set (ra_workers a)"
    using assms
  proof (cases rule: worker_step.cases)
    case (left w)
    then show ?thesis using set_remove_nth [of i "ra_workers a"] by auto
  qed (use upd in auto)
  then show "ra_pc a' = ra_pc a" "ra_workers a \<noteq> []"
    "nw_namespace ` set (ra_workers a') \<subseteq> nw_namespace ` set (ra_workers a)"
    by simp_all
qed

lemma idle_inv_step:
  assumes "all_step ae a a'" "idle_inv cl a"
  shows "idle_inv cl a'"
  using assms(1) unfolding all_step_def
proof (elim disjE exE)
  assume "loop_step ae a a'"
  then show ?thesis
    by (cases rule: loop_step.cases) (use assms(2) in \<open>auto simp: idle_inv_def new_worker_def\<close>)
next
  fix i assume "worker_step ae i a a'"
  then show ?thesis
  proof (cases rule: worker_step.cases)
    case (left w)
    then show ?thesis using assms(2) set_remove_nth [of i "ra_workers a"] by (auto simp: idle_inv_def)
  next
    case (released w)
    then show ?thesis using assms(2)
      by (auto simp: idle_inv_def worker_left_def dest!: set_update_subset_insert [THEN subsetD])
  qed (use assms(2) in \<open>auto simp: idle_inv_def worker_left_def dest!: set_update_subset_insert [THEN subsetD]\<close>)
qed

lemma work_inv_step:
  assumes "all_step ae a a'" "work_inv ae cl r a" "idle_inv cl a" "\<And>w. ae_cluster ae w = cl"
  shows "work_inv ae cl r a'"
  using assms(1) unfolding all_step_def
proof (elim disjE exE)
  assume "loop_step ae a a'"
  then show ?thesis
    by (cases rule: loop_step.cases) (use assms(2) in \<open>simp_all add: work_inv_def workloads_left_def\<close>)
next
  fix i assume w: "worker_step ae i a a'"
  then show ?thesis
    using worker_step_left [OF w assms(4), of r] assms(2,3) all_worker_frame(1) [OF w]
    by (auto simp: work_inv_def idle_inv_def)
qed

lemma namespaces_inv_step:
  assumes "all_step ae a a'" "namespaces_inv ae cl a"
  shows "namespaces_inv ae cl a'"
  using assms(1) unfolding all_step_def
proof (elim disjE exE)
  assume "loop_step ae a a'"
  then show ?thesis
    by (cases rule: loop_step.cases) (use assms(2) in \<open>auto simp: namespaces_inv_def new_worker_def\<close>)
next
  fix i assume w: "worker_step ae i a a'"
  then show ?thesis using all_worker_frame [OF w] assms(2) by (auto simp: namespaces_inv_def)
qed

lemma worker_step_outer:
  assumes "worker_step ae i a a'" "m = NamespaceScanQueueDepth \<or> (\<exists>x. m = ReconcileRunsTotal x)"
  shows "added m r (ra_recon a') = added m r (ra_recon a)"
  using assms(1)
proof (cases rule: worker_step.cases)
  case (reconciled w wl wls err s)
  then show ?thesis using assms(2) by (auto simp: reconcileWorkload_added)
qed simp_all

lemma runs_inv_step:
  assumes "all_step ae a a'" "runs_inv r a" "pool_inv cap (pool_of_all a)"
  shows "runs_inv r a'"
proof -
  have none: "ra_workers a = []" if "ra_wg a = 0"
    using assms(3) that by (intro workers_in_Nil) (auto simp: pool_inv_def pool_of_all_def)
  show ?thesis
    using assms(1) unfolding all_step_def
  proof (elim disjE exE)
    assume "loop_step ae a a'"
    then show ?thesis
      by (cases rule: loop_step.cases) (use assms(2) none in \<open>simp_all add: runs_inv_def\<close>)
  next
    fix i assume w: "worker_step ae i a a'"
    have "added m r (ra_recon a') = added m r (ra_recon a)"
      if "m = NamespaceScanQueueDepth \<or> (\<exists>x. m = ReconcileRunsTotal x)" for m
      by (rule worker_step_outer [OF w that])
    then show ?thesis using all_worker_frame(1,2) [OF w] assms(2) by (auto simp: runs_inv_def)
  qed
qed

definition all_inv :: "('w, 's) all_env \<Rightarrow> cluster \<Rightarrow> ('w, 's) recon \<Rightarrow> ('w, 's) reconcile_all \<Rightarrow> bool" where
  "all_inv ae cl r a \<longleftrightarrow> pool_inv (ns_semaphore_size ae) (pool_of_all a) \<and> idle_inv cl a \<and> work_inv ae cl r a \<and>
     namespaces_inv ae cl a \<and> runs_inv r a"

lemma all_inv_init:
  assumes "all_init ae r a" "\<And>w. ae_cluster ae w = cl"
  shows "all_inv ae cl r a"
  using pool_inv_init [OF all_pool_init [OF assms(1)]] assms
  by (auto simp: all_inv_def all_init_def start_all_def idle_inv_def work_inv_def workloads_left_def
      namespaces_inv_def runs_inv_def scanned_namespaces_def split: sum.splits)

lemma all_inv_step:
  assumes "all_inv ae cl r a" "all_step ae a a'" "\<And>w. ae_cluster ae w = cl"
  shows "all_inv ae cl r a'"
proof -
  have p: "pool_inv (ns_semaphore_size ae) (pool_of_all a)" using assms(1) by (simp add: all_inv_def)
  have "pool_inv (ns_semaphore_size ae) (pool_of_all a')" using all_pool_step [OF assms(2)] pool_inv_step p by metis
  then show ?thesis
    using assms(1) idle_inv_step [OF assms(2)] work_inv_step [OF assms(2) _ _ assms(3)] namespaces_inv_step [OF assms(2)]
      runs_inv_step [OF assms(2) _ p]
    by (simp add: all_inv_def)
qed

interpretation all_run: inductive_invariant "all_init ae r" "all_step ae"
    "\<lambda>a. (\<forall>w. ae_cluster ae w = cl) \<longrightarrow> all_inv ae cl r a" for ae r cl
  by unfold_locales (auto intro: all_inv_init all_inv_step)

section \<open>Every run ends\<close>

definition kinds_cost :: "cluster \<Rightarrow> string list \<Rightarrow> string \<Rightarrow> nat" where
  "kinds_cost cl kinds ns = sum_list (map (\<lambda>k. 1 + listed_count cl ns k) kinds)"

fun worker_cost :: "cluster \<Rightarrow> ns_worker \<Rightarrow> nat" where
  "worker_cost cl w = (case nw_phase w of
     NsRunning \<Rightarrow> 3 + length (nw_workloads w) + kinds_cost cl (nw_kinds w) (nw_namespace w)
   | NsReleasing \<Rightarrow> 2 | NsLeaving \<Rightarrow> 1)"

definition namespace_cost :: "('w, 's) all_env \<Rightarrow> cluster \<Rightarrow> string \<Rightarrow> nat" where
  "namespace_cost ae cl ns = 3 + kinds_cost cl (cfg_WorkloadKinds (re_cfg (ae_recon ae))) ns"

definition namespaces_cost :: "('w, 's) all_env \<Rightarrow> cluster \<Rightarrow> string list \<Rightarrow> nat" where
  "namespaces_cost ae cl nss = sum_list (map (\<lambda>ns. namespace_cost ae cl ns + 3) nss) + 2"

fun all_pc_cost :: "('w, 's) all_env \<Rightarrow> cluster \<Rightarrow> all_pc \<Rightarrow> nat" where
  "all_pc_cost ae cl (AtNamespaces nss) = namespaces_cost ae cl nss"
| "all_pc_cost ae cl (AtNsSemaphore ns nss) = namespace_cost ae cl ns + 2 + namespaces_cost ae cl nss"
| "all_pc_cost ae cl (AtSpawn ns nss) = namespace_cost ae cl ns + 1 + namespaces_cost ae cl nss"
| "all_pc_cost ae cl AtNsWaitGroup = 1"
| "all_pc_cost ae cl (AtCancelled err) = 1"
| "all_pc_cost ae cl (AllReturned err) = 0"

definition all_cost :: "('w, 's) all_env \<Rightarrow> cluster \<Rightarrow> ('w, 's) reconcile_all \<Rightarrow> nat" where
  "all_cost ae cl a = all_pc_cost ae cl (ra_pc a) + sum_list (map (worker_cost cl) (ra_workers a))"

lemma all_cost_step:
  assumes "all_step ae a a'" "\<And>w. ae_cluster ae w = cl"
  shows "all_cost ae cl a' < all_cost ae cl a"
  using assms(1) unfolding all_step_def
proof (elim disjE exE)
  assume "loop_step ae a a'"
  then show ?thesis
    by (cases rule: loop_step.cases)
      (simp_all add: all_cost_def namespaces_cost_def namespace_cost_def new_worker_def)
next
  fix i assume "worker_step ae i a a'"
  then show ?thesis
  proof (cases rule: worker_step.cases)
    case (listed w kind kinds workloads)
    then have "listed_count cl (nw_namespace w) kind = length workloads" using assms(2) by (simp add: listed_count_def)
    then show ?thesis using listed worker_list_update [OF listed(2,3), of "worker_cost cl"
        "w\<lparr>nw_kinds := kinds, nw_workloads := workloads, nw_count := nw_count w + length workloads\<rparr>"]
      by (simp add: all_cost_def kinds_cost_def)
  next
    case (not_listed w kind kinds err)
    then show ?thesis using worker_list_update [OF not_listed(2,3), of "worker_cost cl" "w\<lparr>nw_kinds := kinds\<rparr>"]
      by (simp add: all_cost_def kinds_cost_def)
  next
    case (reconciled w wl wls err s)
    then show ?thesis using worker_list_update [OF reconciled(2,3), of "worker_cost cl" "w\<lparr>nw_workloads := wls\<rparr>"]
      by (simp add: all_cost_def)
  next
    case (finished w)
    then show ?thesis using worker_list_update [OF finished(2,3), of "worker_cost cl" "w\<lparr>nw_phase := NsReleasing\<rparr>"]
      by (simp add: all_cost_def)
  next
    case (released w)
    then show ?thesis using worker_list_update [OF released(2,3), of "worker_cost cl" "w\<lparr>nw_phase := NsLeaving\<rparr>"]
      by (simp add: all_cost_def)
  next
    case (left w)
    then show ?thesis using worker_list_remove [OF left(2,3), of "worker_cost cl"] by (simp add: all_cost_def)
  qed
qed

lemma worker_goes_on:
  assumes "pool_inv cap (pool_of_all a)" "ra_workers a \<noteq> []" "0 < semaphore_size (ae_recon ae)"
  shows "\<exists>a'. worker_step ae 0 a a'"
proof -
  obtain w ws where w: "ra_workers a = w # ws" using assms(2) by (cases "ra_workers a") auto
  have i: "0 < length (ra_workers a)" "ra_workers a ! 0 = w" by (simp_all add: w)
  have n: "workers_in ps (ra_workers a) = (if nw_phase w \<in> ps then 1 else 0) + workers_in ps ws" for ps
    by (simp add: w workers_in_def)
  show ?thesis
  proof (cases "nw_phase w")
    case NsRunning
    show ?thesis
    proof (cases "nw_workloads w")
      case Nil
      show ?thesis
      proof (cases "nw_kinds w")
        case Nil
        then show ?thesis using worker_step.finished [OF i NsRunning \<open>nw_workloads w = []\<close>] by blast
      next
        case (Cons k ks)
        note c = i NsRunning \<open>nw_workloads w = []\<close> Cons
        show ?thesis
        proof (cases "listWorkloads (ae_cluster ae (world_of (ra_recon a))) (nw_namespace w) k")
          case (Inl err)
          from worker_step.not_listed [OF c this] show ?thesis by blast
        next
          case (Inr workloads)
          from worker_step.listed [OF c this] show ?thesis by blast
        qed
      qed
    next
      case (Cons wl wls)
      obtain err r where "reconcileWorkload (ae_recon ae) (ae_wait ae) (nw_namespace w) wl (ra_recon a) err r"
        using dispatch_terminates [OF assms(3)] by blast
      from worker_step.reconciled [OF i NsRunning Cons this] show ?thesis by blast
    qed
  next
    case NsReleasing
    then have "0 < ra_sem a" using assms(1) n [of "{NsRunning, NsReleasing}"] by (simp add: pool_inv_def pool_of_all_def)
    from worker_step.released [OF i NsReleasing this] show ?thesis by blast
  next
    case NsLeaving
    then have "0 < ra_wg a" using assms(1) n [of "{NsLeaving}"] by (simp add: pool_inv_def pool_of_all_def)
    from worker_step.left [OF i NsLeaving this] show ?thesis by blast
  qed
qed

lemma loop_goes_on:
  assumes "pool_inv (ns_semaphore_size ae) (pool_of_all a)" "ra_workers a = []" "0 < ns_semaphore_size ae"
    and "\<And>err. ra_pc a \<noteq> AllReturned err"
  shows "\<exists>a'. loop_step ae a a'"
proof -
  have z: "ra_wg a = (case ra_pc a of AtNsSemaphore _ _ \<Rightarrow> 1 | AtSpawn _ _ \<Rightarrow> 1 | _ \<Rightarrow> 0)"
      "ra_sem a = (case ra_pc a of AtSpawn _ _ \<Rightarrow> 1 | _ \<Rightarrow> 0)"
    using assms(1,2) by (auto simp: pool_inv_def pool_of_all_def split: all_pc.splits)
  show ?thesis
  proof (cases "ra_pc a")
    case (AtNamespaces nss)
    then show ?thesis by (cases nss) (blast intro: loop_step.loop_end loop_step.excluded loop_step.announced)+
  next
    case (AtNsSemaphore ns nss)
    then have "ra_sem a < ns_semaphore_size ae" using z assms(3) by simp
    from loop_step.acquired [OF AtNsSemaphore this] show ?thesis by blast
  next
    case (AtSpawn ns nss)
    then show ?thesis using loop_step.spawned by blast
  next
    case AtNsWaitGroup
    then have "ra_wg a = 0" using z by simp
    from loop_step.joined [OF AtNsWaitGroup this] show ?thesis by blast
  next
    case (AtCancelled err)
    then have "ra_wg a = 0" using z by simp
    from loop_step.cancel_joined [OF AtCancelled this] show ?thesis by blast
  next
    case (AllReturned err)
    then show ?thesis using assms(4) by blast
  qed
qed

section \<open>Properties\<close>

text \<open>The outcomes of a run.\<close>

definition ReconcileAll :: "('w, 's) all_env \<Rightarrow> ('w, 's) recon \<Rightarrow> go_error option \<Rightarrow> ('w, 's) recon \<Rightarrow> bool" where
  "ReconcileAll ae r err r' \<longleftrightarrow>
     (\<exists>a. reaches (all_init ae r) (all_step ae) a \<and> ra_pc a = AllReturned err \<and> ra_recon a = r')"

lemma reaches_all_inv:
  "reaches (all_init ae r) (all_step ae) a \<Longrightarrow> (\<And>w. ae_cluster ae w = cl) \<Longrightarrow> all_inv ae cl r a"
  using all_run.inv_reaches [of ae r a cl] by blast

lemma reaches_start_all: "reaches (all_init ae r) (all_step ae) (start_all ae r)"
  by (simp add: reaches_init all_init_def)

lemma Validate_semaphores:
  assumes "Validate (re_cfg (ae_recon ae)) = None"
  shows "0 < semaphore_size (ae_recon ae)" "0 < ns_semaphore_size ae"
  using Validate_None_parts(3) [OF assms]
  by (auto simp: validateScanners_def Let_def semaphore_size_def ns_semaphore_size_def EffectiveScannersConfig_def
      DefaultNamespaceConcurrency_def split: if_splits)

lemma all_terminates:
  assumes "0 < semaphore_size (ae_recon ae)" "0 < ns_semaphore_size ae" "\<And>w. ae_cluster ae w = cl"
    and "reaches (all_init ae r) (all_step ae) a"
  shows "\<exists>a' err. (all_step ae)\<^sup>*\<^sup>* a a' \<and> ra_pc a' = AllReturned err"
  using assms(4)
proof (induction "all_cost ae cl a" arbitrary: a rule: less_induct)
  case less
  have p: "pool_inv (ns_semaphore_size ae) (pool_of_all a)"
    using reaches_all_inv [OF less.prems assms(3)] by (simp add: all_inv_def)
  show ?case
  proof (cases "\<exists>err. ra_pc a = AllReturned err")
    case False
    then obtain a' where "all_step ae a a'"
      using worker_goes_on [OF p _ assms(1)] loop_goes_on [OF p _ assms(2)] unfolding all_step_def by blast
    then show ?thesis
      using less.hyps [OF all_cost_step [OF _ assms(3)]] less.prems reaches_step
      by (meson converse_rtranclp_into_rtranclp)
  qed blast
qed

text \<open>Without a cancelled context the run is not cut short.\<close>

lemma never_stopped:
  assumes "reaches (all_init ae r) (all_step ae) a" "\<And>w. ae_ctx_err ae w = None"
    and "resolveNamespaces (re_cfg (ae_recon ae)) (ae_cluster ae (world_of r)) = Inr nss"
  shows "\<not> stopped (ra_pc a)"
  using assms(1)
proof (induction rule: reaches.induct)
  case (reaches_init a)
  then show ?case using assms(3) by (simp add: all_init_def start_all_def)
next
  case (reaches_step a a')
  then show ?case
    unfolding all_step_def
  proof (elim disjE exE)
    assume "loop_step ae a a'"
    then show ?thesis using reaches_step.IH assms(2) by (cases rule: loop_step.cases) simp_all
  next
    fix i assume "worker_step ae i a a'"
    then show ?thesis using reaches_step.IH all_worker_frame(1) by metis
  qed
qed

lemma ReconcileAll_succeeds:
  assumes "Validate (re_cfg (ae_recon ae)) = None" "\<And>w. ae_cluster ae w = cl" "\<And>w. ae_ctx_err ae w = None"
    and "resolveNamespaces (re_cfg (ae_recon ae)) cl = Inr nss"
  shows "\<exists>r'. ReconcileAll ae r None r'"
proof -
  obtain a err where a: "(all_step ae)\<^sup>*\<^sup>* (start_all ae r) a" "ra_pc a = AllReturned err"
    using all_terminates [OF Validate_semaphores [OF assms(1)] assms(2) reaches_start_all] by blast
  then have reach: "reaches (all_init ae r) (all_step ae) a" using reaches_rtranclp reaches_start_all by metis
  then have "\<not> stopped (ra_pc a)" using never_stopped [OF reach assms(3)] assms(2,4) by simp
  then have "err = None" using a(2) by (cases err) simp_all
  then show ?thesis using reach a(2) unfolding ReconcileAll_def by blast
qed

text \<open>A cluster for the examples: one deployment in each of two namespaces, one of them excluded.\<close>

definition ex_cluster :: cluster where
  "ex_cluster = \<lparr>cl_Namespaces = Inr [''kube-system'', ''default''],
     cl_Deployments = (\<lambda>ns. Inr [\<lparr>kw_Name = ''web'', kw_UID = ''u1'', kw_PodSpec = wl_PodSpec ex_workload_info\<rparr>]),
     cl_StatefulSets = (\<lambda>ns. Inr []), cl_DaemonSets = (\<lambda>ns. Inr [])\<rparr>"

definition ex_all_env :: "string list \<Rightarrow> (nat, unit) all_env" where
  "ex_all_env kinds = \<lparr>ae_recon = ex_recon_env [''trivy'']\<lparr>re_cfg := ex_config\<lparr>cfg_WorkloadKinds := kinds\<rparr>\<rparr>,
     ae_wait = (\<lambda>a w. (None, w)), ae_cluster = (\<lambda>_. ex_cluster), ae_ctx_err = (\<lambda>_. None)\<rparr>"

lemma ex_all_env_simps [simp]:
  "ae_cluster (ex_all_env kinds) w = ex_cluster" "ae_ctx_err (ex_all_env kinds) w = None"
  "re_cfg (ae_recon (ex_all_env kinds)) = ex_config\<lparr>cfg_WorkloadKinds := kinds\<rparr>"
  by (simp_all add: ex_all_env_def)

lemma ex_kinds_valid:
  "Validate (ex_config\<lparr>cfg_WorkloadKinds := [''Deployment'', ''Job'']\<rparr>) = None"
  "Validate (ex_config\<lparr>cfg_WorkloadKinds := [''Job'']\<rparr>) = None"
  by code_simp+

lemma ex_namespaces: "resolveNamespaces (ex_config\<lparr>cfg_WorkloadKinds := kinds\<rparr>) ex_cluster = Inr [''default'', ''kube-system'']"
  by (simp add: resolveNamespaces_def ex_config_def ex_cluster_def)

lemma ex_scanned: "scanned_namespaces (ex_all_env kinds) ex_cluster = [''default'']"
  by (simp add: scanned_namespaces_def ex_namespaces) (simp add: included_def ex_config_def)

text \<open>C16: The namespaces are processed under their semaphore: in every reachable state the loop
  and its goroutines are an abstract pool of the effective namespace concurrency, so at most
  that many namespaces are being processed, none of them excluded, and every one is a
  namespace of the configuration or, where it names none, of the cluster.\<close>

theorem namespaces_bounded:
  assumes "reaches (all_init ae r) (all_step ae) a" and "\<And>w. ae_cluster ae w = cl"
  shows "reaches pool_init (pool_step (ns_semaphore_size ae)) (pool_of_all a) \<and>
    workers_in {NsRunning, NsReleasing} (ra_workers a) \<le> ns_semaphore_size ae \<and>
    nw_namespace ` set (ra_workers a) \<subseteq> set (scanned_namespaces ae cl) \<and>
    (\<forall>ns \<in> set (scanned_namespaces ae cl). \<not> isExcluded ns (Exclude (cfg_Namespaces (re_cfg (ae_recon ae)))))"
proof -
  note inv = reaches_all_inv [OF assms]
  have "workers_in {NsRunning, NsReleasing} (ra_workers a) \<le> ns_semaphore_size ae"
    using inv by (simp add: all_inv_def pool_inv_def pool_of_all_def)
  moreover have "nw_namespace ` set (ra_workers a) \<subseteq> set (scanned_namespaces ae cl)"
    using inv by (simp add: all_inv_def namespaces_inv_def)
  moreover have "\<forall>ns \<in> set (scanned_namespaces ae cl). \<not> isExcluded ns (Exclude (cfg_Namespaces (re_cfg (ae_recon ae))))"
    by (cases "resolveNamespaces (re_cfg (ae_recon ae)) cl") (simp_all add: scanned_namespaces_def included_def)
  ultimately show ?thesis using all_pool.client_reaches [OF assms(1)] by blast
qed

theorem namespaces_bounded_witness:
  "workers_in {NsRunning, NsReleasing} (ra_workers (start_all (ex_all_env []) ex_recon)) \<le> 4"
proof -
  have "ns_semaphore_size (ex_all_env []) = 4"
    by (simp add: ns_semaphore_size_def ex_config_def EffectiveScannersConfig_def DefaultNamespaceConcurrency_def Let_def)
  then show ?thesis using namespaces_bounded [OF reaches_start_all [of "ex_all_env []" ex_recon], of ex_cluster] by simp
qed

lemma all_accounts:
  assumes "ReconcileAll ae r err r'" "\<And>w. ae_cluster ae w = cl"
  shows "added NamespaceScanQueueDepth r r' = 0 \<and>
    added (ReconcileRunsTotal ''success'') r r' = count_if (err = None) \<and>
    added (ReconcileRunsTotal ''error'') r r' = count_if (err \<noteq> None) \<and>
    (err = None \<longrightarrow> workloads_done r r' = int (sum_list (map (workloads_of ae cl) (scanned_namespaces ae cl))))"
proof -
  obtain a where a: "reaches (all_init ae r) (all_step ae) a" "ra_pc a = AllReturned err" "ra_recon a = r'"
    using assms(1) unfolding ReconcileAll_def by blast
  have inv: "runs_inv r a" "work_inv ae cl r a" using reaches_all_inv [OF a(1) assms(2)] by (simp_all add: all_inv_def)
  then have "ra_workers a = []" using a(2) by (simp add: runs_inv_def)
  then show ?thesis
    using inv a(2,3) by (cases err) (simp_all add: runs_inv_def work_inv_def workloads_left_def count_if_def)
qed





text \<open>The kinds Job and CronJob pass validation and are never scanned: a run for these kinds
  alone succeeds without reconciling a single workload, whatever the cluster holds.\<close>

theorem job_kinds_never_scanned:
  assumes "set (cfg_WorkloadKinds (re_cfg (ae_recon ae))) \<subseteq> {''Job'', ''CronJob''}"
    and "cfg_WorkloadKinds (re_cfg (ae_recon ae)) \<noteq> []"
    and "\<And>w. ae_cluster ae w = cl" "ReconcileAll ae r None r'"
  shows "validateWorkloadKinds (cfg_WorkloadKinds (re_cfg (ae_recon ae))) = None \<and> workloads_done r r' = 0"
proof -
  have "listed_count cl ns k = 0" if "k \<in> {''Job'', ''CronJob''}" for ns k
    using that by (elim insertE emptyE) (simp_all add: listed_count_def listWorkloads_def)
  then have "\<forall>k \<in> set (cfg_WorkloadKinds (re_cfg (ae_recon ae))). listed_count cl ns k = 0" for ns
    using assms(1) by blast
  then have "workloads_of ae cl ns = 0" for ns by (simp add: workloads_of_def kinds_count_def)
  then have "sum_list (map (workloads_of ae cl) nss) = 0" for nss by simp
  moreover have "validate_kinds_loop (cfg_WorkloadKinds (re_cfg (ae_recon ae))) = None"
    unfolding validate_kinds_None by (rule subset_trans [OF assms(1)]) simp
  then have "validateWorkloadKinds (cfg_WorkloadKinds (re_cfg (ae_recon ae))) = None"
    using assms(2) by (simp add: validateWorkloadKinds_def)
  ultimately show ?thesis using all_accounts [OF assms(4,3)] by simp
qed

theorem job_kinds_never_scanned_witness:
  "\<exists>r'. ReconcileAll (ex_all_env [''Job'']) ex_recon None r' \<and> workloads_done ex_recon r' = 0"
proof -
  obtain r' where r: "ReconcileAll (ex_all_env [''Job'']) ex_recon None r'"
    using ReconcileAll_succeeds [of "ex_all_env [''Job'']" ex_cluster "[''default'', ''kube-system'']" ex_recon]
      ex_kinds_valid ex_namespaces by auto
  then show ?thesis using job_kinds_never_scanned [of "ex_all_env [''Job'']" ex_cluster ex_recon r'] by auto
qed

end
