(* ===== verification/Metrics_Registry.thy ===== *)
theory Metrics_Registry
  imports Reconciler
begin

text \<open>
  The metrics that \<open>internal/metrics/metrics.go\<close> registers: for each the field of the struct, its kind,
  name, help and labels. The counters of the reconciler's state are series of them.
\<close>

datatype collector = Counter | Gauge | Histogram

datatype metric_desc = metric_desc (md_Field: string) (md_Kind: collector) (md_Name: string) (md_Help: string) (md_Labels: "string list")

definition NewMetrics :: "metric_desc list" where
  "NewMetrics = [
     metric_desc ''ImagesObservedTotal'' Counter ''image_vuln_watcher_images_observed_total''
       ''Total number of container images observed'' [],
     metric_desc ''ImagesResolvedTotal'' Counter ''image_vuln_watcher_images_resolved_total''
       ''Total number of container images successfully resolved to digest'' [],
     metric_desc ''ImageResolutionErrorsTotal'' Counter ''image_vuln_watcher_image_resolution_errors_total''
       ''Total number of image resolution errors'' [],
     metric_desc ''ScansTotal'' Counter ''image_vuln_watcher_scans_total''
       ''Total number of vulnerability scans performed'' [],
     metric_desc ''ScanErrorsTotal'' Counter ''image_vuln_watcher_scan_errors_total''
       ''Total number of scan errors'' [],
     metric_desc ''ScanDurationSeconds'' Histogram ''image_vuln_watcher_scan_duration_seconds''
       ''Scan duration in seconds'' [],
     metric_desc ''ScansInFlight'' Gauge ''image_vuln_watcher_scans_in_flight''
       ''Current number of scans running'' [],
     metric_desc ''ScanQueueDepth'' Gauge ''image_vuln_watcher_scan_queue_depth''
       ''Current number of scans waiting for concurrency slots'' [],
     metric_desc ''ScanQueueWaitSeconds'' Histogram ''image_vuln_watcher_scan_queue_wait_seconds''
       ''Time a scan spent waiting to acquire a concurrency slot'' [],
     metric_desc ''NamespaceScanQueueDepth'' Gauge ''image_vuln_watcher_namespace_scan_queue_depth''
       ''Current number of namespaces waiting for a namespace concurrency slot'' [],
     metric_desc ''ScannerErrorClassTotal'' Counter ''image_vuln_watcher_scanner_error_class_total''
       ''Total number of scanner errors by scanner and class'' [''scanner'', ''class''],
     metric_desc ''ScannerCircuitState'' Gauge ''image_vuln_watcher_scanner_circuit_state''
       ''Scanner circuit state as numeric gauge (0=closed,1=open,2=half_open)'' [''scanner''],
     metric_desc ''ScannerSkippedTotal'' Counter ''image_vuln_watcher_scanner_skipped_total''
       ''Total number of scans skipped by scanner and reason'' [''scanner'', ''reason''],
     metric_desc ''EventsPublishedTotal'' Counter ''image_vuln_watcher_events_published_total''
       ''Total number of events published to Komodor'' [],
     metric_desc ''EventPublishErrorsTotal'' Counter ''image_vuln_watcher_event_publish_errors_total''
       ''Total number of event publishing errors'' [],
     metric_desc ''DedupeHitsTotal'' Counter ''image_vuln_watcher_dedupe_hits_total''
       ''Total number of events deduplicated'' [],
     metric_desc ''ReconcileRunsTotal'' Counter ''image_vuln_watcher_reconcile_runs_total''
       ''Total number of reconciliation runs by result'' [''result''],
     metric_desc ''WorkloadsReconciledTotal'' Counter ''image_vuln_watcher_workloads_reconciled_total''
       ''Total number of workload reconciliations by result'' [''result''],
     metric_desc ''StateLookupsTotal'' Counter ''image_vuln_watcher_state_lookups_total''
       ''Total number of state lookups by result'' [''result''],
     metric_desc ''StateUpdatesTotal'' Counter ''image_vuln_watcher_state_updates_total''
       ''Total number of state updates by result'' [''result''],
     metric_desc ''EventSkipsTotal'' Counter ''image_vuln_watcher_event_skips_total''
       ''Total number of event publication skips by reason'' [''reason''],
     metric_desc ''CacheHitsTotal'' Counter ''image_vuln_watcher_cache_hits_total''
       ''Total number of gocache hits by backend type'' [''backend''],
     metric_desc ''CacheMissesTotal'' Counter ''image_vuln_watcher_cache_misses_total''
       ''Total number of gocache misses by backend type'' [''backend''],
     metric_desc ''CacheEvictionsTotal'' Counter ''image_vuln_watcher_cache_evictions_total''
       ''Total number of gocache evictions by backend type'' [''backend'']]"

text \<open>The series that a counter of the reconciler is: a field and the values of its labels.\<close>

fun series :: "metric \<Rightarrow> string \<times> string list" where
  "series ImagesObservedTotal = (''ImagesObservedTotal'', [])"
| "series ImagesResolvedTotal = (''ImagesResolvedTotal'', [])"
| "series ImageResolutionErrorsTotal = (''ImageResolutionErrorsTotal'', [])"
| "series ScansTotal = (''ScansTotal'', [])"
| "series ScanErrorsTotal = (''ScanErrorsTotal'', [])"
| "series ScansInFlight = (''ScansInFlight'', [])"
| "series ScanQueueDepth = (''ScanQueueDepth'', [])"
| "series NamespaceScanQueueDepth = (''NamespaceScanQueueDepth'', [])"
| "series (ScannerErrorClassTotal scanner cls) = (''ScannerErrorClassTotal'', [scanner, cls])"
| "series (ScannerSkippedTotal scanner reason) = (''ScannerSkippedTotal'', [scanner, reason])"
| "series EventsPublishedTotal = (''EventsPublishedTotal'', [])"
| "series EventPublishErrorsTotal = (''EventPublishErrorsTotal'', [])"
| "series DedupeHitsTotal = (''DedupeHitsTotal'', [])"
| "series (ReconcileRunsTotal result) = (''ReconcileRunsTotal'', [result])"
| "series (WorkloadsReconciledTotal result) = (''WorkloadsReconciledTotal'', [result])"
| "series (StateLookupsTotal result) = (''StateLookupsTotal'', [result])"
| "series (StateUpdatesTotal result) = (''StateUpdatesTotal'', [result])"
| "series (EventSkipsTotal reason) = (''EventSkipsTotal'', [reason])"

lemma find_first: "list_ex P (x # xs) = (if P x then True else list_ex P xs)"
  by (simp split: if_splits)

section \<open>Properties\<close>

text \<open>Registration and use do not panic: no two metrics have a name, and every series that the
  reconciler counts is one of a registered metric with as many values as that metric has labels;
  two counters are never the same series.\<close>

theorem metrics_addressable:
  "distinct (map md_Name NewMetrics) \<and> inj series \<and>
   (\<forall>m. \<exists>d \<in> set NewMetrics. md_Field d = fst (series m) \<and> length (md_Labels d) = length (snd (series m)) \<and>
      md_Kind d \<noteq> Histogram)"
proof (intro conjI allI)
  show "distinct (map md_Name NewMetrics)" by (simp add: NewMetrics_def)
  show "inj series"
  proof (rule injI)
    fix m n assume "series m = series n"
    then show "m = n" by (cases m; cases n; simp)
  qed
  show "\<exists>d \<in> set NewMetrics. md_Field d = fst (series m) \<and> length (md_Labels d) = length (snd (series m)) \<and>
      md_Kind d \<noteq> Histogram" for m
    unfolding list_ex_iff [symmetric] NewMetrics_def
    by (cases m) (simp_all add: find_first del: list_ex_Cons_iff)
qed

end
