(* ===== verification/Startup.thy ===== *)
theory Startup
  imports Config_Loader State_Factory Komodor_Client Scanner_Registry Reconcile_All
begin

text \<open>
  The start of the program, \<open>cmd/komodor-security-reporter\<close>: flags, logging, configuration,
  Kubernetes access (\<open>internal/controller/kubernetes.go\<close>), the components and their wiring, and the
  one runnable that the manager is given. What the libraries and the environment contribute is
  the record \<open>platform\<close>.
\<close>

section \<open>Flags and logging\<close>

record flags =
  fl_configFile :: string
  fl_metricsAddr :: string
  fl_logLevel :: string
  fl_logFormat :: string
  fl_kubeconfig :: string
  fl_publishMode :: string
  fl_publishModeSet :: bool

text \<open>The flags of the command line, from those that were given.\<close>

definition newRootCommand :: "(string \<rightharpoonup> string) \<Rightarrow> flags" where
  "newRootCommand given =
     (let flag = (\<lambda>name dflt. case given name of None \<Rightarrow> dflt | Some v \<Rightarrow> v) in
      \<lparr>fl_configFile = flag ''config'' ''/etc/komodor-security-reporter/config.yaml'',
       fl_metricsAddr = flag ''metrics-bind-address'' '':8081'',
       fl_logLevel = flag ''log-level'' ''info'',
       fl_logFormat = flag ''log-format'' ''json'',
       fl_kubeconfig = flag ''kubeconfig'' [],
       fl_publishMode = flag ''publish-mode'' ''komodor'',
       fl_publishModeSet = (given ''publish-mode'' \<noteq> None)\<rparr>)"

datatype log_formatter = JSONFormatter | TextFormatter

record logger =
  lg_level :: string
  lg_formatter :: log_formatter

definition setupLogging :: "(string \<Rightarrow> string option) \<Rightarrow> string \<Rightarrow> string \<Rightarrow> logger result" where
  "setupLogging parseLevel level format =
     (let lvl = (case parseLevel level of None \<Rightarrow> ''info'' | Some l \<Rightarrow> l) in
      if format = [] \<or> format = ''json'' then Inr \<lparr>lg_level = lvl, lg_formatter = JSONFormatter\<rparr>
      else if format = ''text'' then Inr \<lparr>lg_level = lvl, lg_formatter = TextFormatter\<rparr>
      else Inl (ErrNew (''invalid log format '' @ Quote format @ '': supported values are json and text'')))"

section \<open>The platform\<close>

text \<open>
  \<open>'w\<close> is the world, \<open>'v\<close> a viper, \<open>'c\<close> the store of a state backend, \<open>'u\<close> the report
  objects of the operator, \<open>'k\<close> a Kubernetes client configuration.
\<close>

record ('w, 'v, 'c, 'u, 'k) platform =
  pf_ParseLevel :: "string \<Rightarrow> string option"
  pf_loader :: "'v config_source"
  pf_viper :: "'v viper"
  pf_scoped :: "'v \<Rightarrow> scopedConfig"
  pf_RecommendedHomeFile :: string
  pf_NewManager :: "'k \<Rightarrow> string \<Rightarrow> go_error option"
  pf_Add :: "go_error option"
  pf_NewForConfig :: "'k \<Rightarrow> go_error option"
  pf_drivers :: "('w, 'u, 'k) driver_env"
  pf_transport :: "'w transport"
  pf_clients :: "'c clients"
  pf_store :: 'c
  pf_oob :: "float64 \<Rightarrow> int"
  pf_now :: "'w \<Rightarrow> time"
  pf_sleep :: "'w \<Rightarrow> duration \<Rightarrow> go_error option \<times> 'w"
  pf_Digest :: "'w \<Rightarrow> string \<Rightarrow> string result"
  pf_create_event :: "'w \<Rightarrow> k8s_event \<Rightarrow> go_error option \<times> 'w"

text \<open>The environment and the cluster are those that the drivers see.\<close>

abbreviation pf_Getenv :: "('w, 'v, 'c, 'u, 'k) platform \<Rightarrow> string \<Rightarrow> string" where
  "pf_Getenv pf \<equiv> ka_Getenv (de_kube (pf_drivers pf))"

abbreviation pf_InClusterConfig :: "('w, 'v, 'c, 'u, 'k) platform \<Rightarrow> 'k result" where
  "pf_InClusterConfig pf \<equiv> ka_InClusterConfig (de_kube (pf_drivers pf))"

abbreviation pf_BuildConfigFromFlags :: "('w, 'v, 'c, 'u, 'k) platform \<Rightarrow> string \<Rightarrow> 'k result" where
  "pf_BuildConfigFromFlags pf \<equiv> ka_BuildConfigFromFlags (de_kube (pf_drivers pf))"

section \<open>Configuration and environment\<close>

definition loadAndValidateConfig :: "'v config_source \<Rightarrow> flags \<Rightarrow> 'v loaded result" where
  "loadAndValidateConfig ld fl =
     (case LoadFromFile ld (fl_configFile fl) of
        Inl err \<Rightarrow> Inl (ErrWrap ''load configuration: '' err [])
      | Inr c \<Rightarrow>
          (case Validate (lc_config c) of
             Some err \<Rightarrow> Inl (ErrWrap ''validate configuration: '' err [])
           | None \<Rightarrow>
               if fl_publishModeSet fl then
                 let cfg = lc_config c;
                     c = c\<lparr>lc_config := cfg\<lparr>cfg_Publishing := (cfg_Publishing cfg)\<lparr>Mode := fl_publishMode fl\<rparr>\<rparr>\<rparr>
                 in case Validate (lc_config c) of
                     Some err \<Rightarrow> Inl (ErrWrap ''validate configuration with publish mode override: '' err [])
                   | None \<Rightarrow> Inr c
               else Inr c))"

definition LoadKubernetesConfig :: "('w, 'v, 'c, 'u, 'k) platform \<Rightarrow> string \<Rightarrow> 'k result" where
  "LoadKubernetesConfig pf kubeconfigPath =
     (case pf_InClusterConfig pf of
        Inr cfg \<Rightarrow> Inr cfg
      | Inl err \<Rightarrow>
          if kubeconfigPath \<noteq> [] then
            (case pf_BuildConfigFromFlags pf kubeconfigPath of
               Inl err \<Rightarrow> Inl (ErrWrap ''build config from kubeconfig: '' err [])
             | Inr cfg \<Rightarrow> Inr cfg)
          else
            let kubeconfig = pf_Getenv pf ''KUBECONFIG'';
                kubeconfig = (if kubeconfig = [] then pf_RecommendedHomeFile pf else kubeconfig)
            in case pf_BuildConfigFromFlags pf kubeconfig of
                Inl err \<Rightarrow> Inl (ErrWrap ''build config from kubeconfig: '' err [])
              | Inr cfg \<Rightarrow> Inr cfg)"

definition createManager :: "('w, 'v, 'c, 'u, 'k) platform \<Rightarrow> 'k \<Rightarrow> string \<Rightarrow> go_error option" where
  "createManager pf k8sConfig addr =
     (case pf_NewManager pf k8sConfig addr of
        Some err \<Rightarrow> Some (ErrWrap ''create manager: '' err [])
      | None \<Rightarrow> None)"

definition stateStoreNamespace :: "(string \<Rightarrow> string) \<Rightarrow> string \<Rightarrow> string" where
  "stateStoreNamespace getenv configNamespace =
     (let envNamespace = TrimSpace (getenv ''POD_NAMESPACE'') in
      if envNamespace \<noteq> [] then envNamespace
      else if TrimSpace configNamespace \<noteq> [] then TrimSpace configNamespace
      else ''default'')"

definition loadKomodorAPIKey :: "(string \<Rightarrow> string) \<Rightarrow> string result" where
  "loadKomodorAPIKey getenv =
     (let apiKey = getenv ''KOMODOR_API_KEY'' in
      if apiKey = [] then Inl (ErrNew ''KOMODOR_API_KEY environment variable is required'') else Inr apiKey)"

section \<open>The components\<close>

record ('w, 'c) runtimeComponents =
  rc_scannerRegistry :: "string \<rightharpoonup> 'w scanner"
  rc_scannerTimeouts :: "string \<rightharpoonup> duration"
  rc_publisher :: "publisher option"
  rc_stateStore :: "'c backend"

definition buildStateStore ::
    "('w, 'v, 'c, 'u, 'k) platform \<Rightarrow> 'v loaded \<Rightarrow> string \<Rightarrow> 'c backend result" where
  "buildStateStore pf c namespace =
     New (pf_viper pf) (pf_clients pf) (cfg_State (lc_config c)) (SubConfig (vp_Sub (pf_viper pf)) (Some c) ''state'') namespace"

definition setupScanners :: "('w, 'v, 'c, 'u, 'k) platform \<Rightarrow> 'v loaded \<Rightarrow> 'w registry result" where
  "setupScanners pf c =
     (let cfgs = Scanners (cfg_Scanners (lc_config c));
          scopes = map (\<lambda>i. map_option (pf_scoped pf) (ScannerSubConfig (vp_Sub (pf_viper pf)) (Some c) (int i))) [0..<length cfgs]
      in case CreateScannerRegistry (scannerFactories (pf_drivers pf)) cfgs scopes of
          Inl err \<Rightarrow> Inl (ErrWrap ''create scanner registry: '' err [])
        | Inr reg \<Rightarrow> Inr reg)"

text \<open>The publisher, where the mode has one: the key is validated before anything else is built.\<close>

definition setupPublisher ::
    "('w, 'v, 'c, 'u, 'k) platform \<Rightarrow> config \<Rightarrow> 'w \<Rightarrow> publisher option result \<times> 'w" where
  "setupPublisher pf cfg w =
     (if PublishToKomodor (Mode (cfg_Publishing cfg)) then
        (case loadKomodorAPIKey (pf_Getenv pf) of
           Inl err \<Rightarrow> (Inl err, w)
         | Inr apiKey \<Rightarrow>
             let komodorClient = NewClient (cfg_KomodorBaseURL cfg) apiKey
             in case ValidateAPIKey (pf_transport pf) komodorClient w of
                 (Some err, w) \<Rightarrow> (Inl (ErrWrap ''validate Komodor API key: '' err []), w)
               | (None, w) \<Rightarrow> (Inr (Some (NewPublisher komodorClient)), w))
      else (Inr None, w))"

definition setupRuntimeComponents ::
    "('w, 'v, 'c, 'u, 'k) platform \<Rightarrow> 'v loaded \<Rightarrow> 'k \<Rightarrow> 'w \<Rightarrow> ('w, 'c) runtimeComponents result \<times> 'w" where
  "setupRuntimeComponents pf c k8sConfig w =
     (case setupScanners pf c of
        Inl err \<Rightarrow> (Inl err, w)
      | Inr (scannerRegistry, scannerTimeouts) \<Rightarrow>
     (case setupPublisher pf (lc_config c) w of
        (Inl err, w) \<Rightarrow> (Inl err, w)
      | (Inr publisher, w) \<Rightarrow>
     (case pf_NewForConfig pf k8sConfig of
        Some err \<Rightarrow> (Inl (ErrWrap ''create Kubernetes clientset: '' err []), w)
      | None \<Rightarrow>
     (case buildStateStore pf c (stateStoreNamespace (pf_Getenv pf) (sc_Namespace (cfg_State (lc_config c)))) of
        Inl err \<Rightarrow> (Inl (ErrWrap ''build state store: '' err []), w)
      | Inr stateStore \<Rightarrow>
          (Inr \<lparr>rc_scannerRegistry = scannerRegistry, rc_scannerTimeouts = scannerTimeouts, rc_publisher = publisher,
                rc_stateStore = stateStore\<rparr>, w)))))"

section \<open>The run\<close>

datatype runnable = InitialReconcile duration

record ('w, 'c) started =
  st_log :: logger
  st_env :: "('w, 'c) recon_env"
  st_recon :: "('w, 'c) recon"
  st_runnables :: "runnable list"

text \<open>The reconciler over its components: the environment, and with \<open>NewReconciler\<close> the state.\<close>

definition reconciler_env ::
    "('w, 'v, 'c, 'u, 'k) platform \<Rightarrow> config \<Rightarrow> ('w, 'c) runtimeComponents \<Rightarrow> ('w, 'c) recon_env" where
  "reconciler_env pf cfg rc =
     \<lparr>re_cfg = cfg,
      re_settings = \<lparr>rs_policy = newScannerRuntimePolicy (Runtime (cfg_Scanners cfg)),
        scannerTimeoutsByName = rc_scannerTimeouts rc, rs_metrics = True, rs_oob = pf_oob pf\<rparr>,
      re_scanners = List.map_filter (rc_scannerRegistry rc)
        (remdups (map s_Name (Scanners (cfg_Scanners cfg)))),
      re_backend = rc_stateStore rc, re_now = pf_now pf, re_sleep = pf_sleep pf, re_digest = pf_Digest pf,
      re_publish = map_option (\<lambda>p w ev. Publish (pf_transport pf) p ev w) (rc_publisher rc),
      re_create_event = Some (pf_create_event pf)\<rparr>"

text \<open>The reconciler of a workload kind is a placeholder: it adds nothing to the manager.\<close>

definition setupReconciler :: "string \<Rightarrow> config \<Rightarrow> runnable list \<Rightarrow> runnable list result" where
  "setupReconciler kind cfg runnables = Inr runnables"

fun setup_kinds :: "string list \<Rightarrow> config \<Rightarrow> runnable list \<Rightarrow> runnable list result" where
  "setup_kinds [] cfg runnables = Inr runnables"
| "setup_kinds (kind # kinds) cfg runnables =
     (case setupReconciler kind cfg runnables of
        Inl err \<Rightarrow> Inl (ErrWrap (''setup reconciler for '' @ kind @ '': '') err [])
      | Inr runnables \<Rightarrow> setup_kinds kinds cfg runnables)"

text \<open>\<open>run\<close> up to the start of the manager.\<close>

definition prepare ::
    "('w, 'v, 'c, 'u, 'k) platform \<Rightarrow> flags \<Rightarrow> 'w \<Rightarrow> ('w, 'c) started result \<times> 'w" where
  "prepare pf fl w =
     (case setupLogging (pf_ParseLevel pf) (fl_logLevel fl) (fl_logFormat fl) of Inl err \<Rightarrow> (Inl err, w)
      | Inr lg \<Rightarrow>
     (case loadAndValidateConfig (pf_loader pf) fl of Inl err \<Rightarrow> (Inl err, w)
      | Inr c \<Rightarrow>
     (case LoadKubernetesConfig pf (fl_kubeconfig fl) of
        Inl err \<Rightarrow> (Inl (ErrWrap ''load Kubernetes config: '' err []), w)
      | Inr k8sConfig \<Rightarrow>
     (case createManager pf k8sConfig (fl_metricsAddr fl) of Some err \<Rightarrow> (Inl err, w)
      | None \<Rightarrow>
     (case setupRuntimeComponents pf c k8sConfig w of (Inl err, w) \<Rightarrow> (Inl err, w)
      | (Inr components, w) \<Rightarrow>
     (case pf_Add pf of Some err \<Rightarrow> (Inl (ErrWrap ''register initial reconcile runnable: '' err []), w)
      | None \<Rightarrow>
     (case setup_kinds (cfg_WorkloadKinds (lc_config c)) (lc_config c) [InitialReconcile (5 * Minute)] of
        Inl err \<Rightarrow> (Inl err, w)
      | Inr runnables \<Rightarrow>
          (Inr \<lparr>st_log = lg, st_env = reconciler_env pf (lc_config c) components,
                st_recon = NewReconciler (lc_config c) w (pf_store pf), st_runnables = runnables\<rparr>, w))))))))"

text \<open>The program: the manager runs what it was given until it ends.\<close>

definition run ::
    "(('w, 'c) started \<Rightarrow> 'w \<Rightarrow> go_error option \<times> 'w) \<Rightarrow> ('w, 'v, 'c, 'u, 'k) platform \<Rightarrow> flags \<Rightarrow> 'w \<Rightarrow>
     go_error option \<times> 'w" where
  "run manager_Start pf fl w =
     (case prepare pf fl w of
        (Inl err, w) \<Rightarrow> (Some err, w)
      | (Inr st, w) \<Rightarrow>
          (case manager_Start st w of
             (Some err, w) \<Rightarrow> (Some (ErrWrap ''manager exited with error: '' err []), w)
           | (None, w) \<Rightarrow> (None, w)))"

definition exit_code :: "go_error option \<Rightarrow> int" where
  "exit_code err = (case err of None \<Rightarrow> 0 | Some _ \<Rightarrow> 1)"

text \<open>The runnable reconciles once and returns nil whatever came of it.\<close>

definition initialReconcile_Start ::
    "('w, 's) all_env \<Rightarrow> ('w, 's) recon \<Rightarrow> go_error option \<Rightarrow> ('w, 's) recon \<Rightarrow> bool" where
  "initialReconcile_Start ae r ret r' \<longleftrightarrow>
     (\<exists>err. ReconcileAll ae r err r' \<and> ret = (case err of Some _ \<Rightarrow> None | None \<Rightarrow> None))"

section \<open>Health and version\<close>

definition okHandler :: http_response where
  "okHandler = \<lparr>rp_StatusCode = 200, rp_Body = ''ok'', rp_BodyErr = None\<rparr>"

definition metricsExtraHandlers :: "string \<rightharpoonup> http_response" where
  "metricsExtraHandlers = [''/healthz'' \<mapsto> okHandler, ''/readyz'' \<mapsto> okHandler]"

definition newVersionCommand :: "string \<Rightarrow> string \<Rightarrow> string \<Rightarrow> string" where
  "newVersionCommand version commit date =
     ''version='' @ version @ '' commit='' @ commit @ '' date='' @ date @ [CHR 0x0A]"

section \<open>Lemmas\<close>

lemma loadAndValidateConfig_Inr:
  assumes "loadAndValidateConfig ld fl = Inr c"
  obtains v base where "ld_ReadInConfig ld newLoader (fl_configFile fl) = Inr v" "ld_Unmarshal ld v = Inr base"
    "Validate base = None" "Validate (lc_config c) = None" "lc_source c = Some v"
    "lc_config c = (if fl_publishModeSet fl
       then base\<lparr>cfg_Publishing := (cfg_Publishing base)\<lparr>Mode := fl_publishMode fl\<rparr>\<rparr> else base)"
  using assms
  by (auto simp: loadAndValidateConfig_def LoadFromFile_Inr Let_def split: sum.splits option.splits if_splits)

lemma setupPublisher_Inr:
  assumes "setupPublisher pf cfg w = (Inr p, w')"
  shows "(p \<noteq> None \<longleftrightarrow> PublishToKomodor (Mode (cfg_Publishing cfg))) \<and>
    (\<forall>q. p = Some q \<longrightarrow> pf_Getenv pf ''KOMODOR_API_KEY'' \<noteq> [] \<and>
       q = NewPublisher (NewClient (cfg_KomodorBaseURL cfg) (pf_Getenv pf ''KOMODOR_API_KEY'')) \<and>
       ValidateAPIKey (pf_transport pf) (pb_client q) w = (None, w')) \<and>
    (p = None \<longrightarrow> w' = w)"
  using assms
  by (auto simp: setupPublisher_def loadKomodorAPIKey_def NewPublisher_def Let_def
      split: sum.splits option.splits if_splits prod.splits)

lemma setup_kinds_placeholder: "setup_kinds kinds cfg runnables = Inr runnables"
  by (induction kinds) (simp_all add: setupReconciler_def)

text \<open>What a start that succeeds went through.\<close>

lemma prepare_Inr:
  assumes "prepare pf fl w = (Inr st, w')"
  obtains c k reg timeouts p be where "loadAndValidateConfig (pf_loader pf) fl = Inr c"
    "setupScanners pf c = Inr (reg, timeouts)" "setupPublisher pf (lc_config c) w = (Inr p, w')"
    "buildStateStore pf c (stateStoreNamespace (pf_Getenv pf) (sc_Namespace (cfg_State (lc_config c)))) = Inr be"
    "LoadKubernetesConfig pf (fl_kubeconfig fl) = Inr k"
    "st_env st = reconciler_env pf (lc_config c) \<lparr>rc_scannerRegistry = reg, rc_scannerTimeouts = timeouts,
       rc_publisher = p, rc_stateStore = be\<rparr>"
    "st_recon st = NewReconciler (lc_config c) w' (pf_store pf)" "st_runnables st = [InitialReconcile (5 * Minute)]"
  using assms unfolding prepare_def setupRuntimeComponents_def setup_kinds_placeholder
  by (auto split: sum.splits option.splits prod.splits)

lemma env_parts [simp]:
  "re_cfg (reconciler_env pf cfg rc) = cfg"
  "re_publish (reconciler_env pf cfg rc) = map_option (\<lambda>p w ev. Publish (pf_transport pf) p ev w) (rc_publisher rc)"
  "re_backend (reconciler_env pf cfg rc) = rc_stateStore rc"
  "re_scanners (reconciler_env pf cfg rc) = List.map_filter (rc_scannerRegistry rc)
    (remdups (map s_Name (Scanners (cfg_Scanners cfg))))"
  by (simp_all add: reconciler_env_def)

section \<open>Properties\<close>

text \<open>C10: A start that succeeds has a valid configuration: the one of the file, valid itself, with the publishing
  mode of the flag where the flag was given. The Komodor publisher exists exactly where the mode
  asks for it, and then one request has validated the key of the environment; without it no
  request was sent. The manager gets one runnable.\<close>

theorem started_sound:
  assumes "prepare pf fl w = (Inr st, w')" and "cfg = re_cfg (st_env st)"
  shows "Validate cfg = None \<and>
    (\<exists>v base. ld_ReadInConfig (pf_loader pf) newLoader (fl_configFile fl) = Inr v \<and> ld_Unmarshal (pf_loader pf) v = Inr base \<and>
       Validate base = None \<and>
       cfg = (if fl_publishModeSet fl
         then base\<lparr>cfg_Publishing := (cfg_Publishing base)\<lparr>Mode := fl_publishMode fl\<rparr>\<rparr> else base)) \<and>
    (re_publish (st_env st) \<noteq> None \<longleftrightarrow> PublishToKomodor (Mode (cfg_Publishing cfg))) \<and>
    (if PublishToKomodor (Mode (cfg_Publishing cfg))
     then pf_Getenv pf ''KOMODOR_API_KEY'' \<noteq> [] \<and>
       ValidateAPIKey (pf_transport pf) (NewClient (cfg_KomodorBaseURL cfg) (pf_Getenv pf ''KOMODOR_API_KEY'')) w = (None, w')
     else w' = w) \<and>
    world_of (st_recon st) = w' \<and> st_runnables st = [InitialReconcile (5 * Minute)]"
proof -
  from assms(1) obtain c reg timeouts p be where c: "loadAndValidateConfig (pf_loader pf) fl = Inr c"
    and p: "setupPublisher pf (lc_config c) w = (Inr p, w')"
    and e: "st_env st = reconciler_env pf (lc_config c) \<lparr>rc_scannerRegistry = reg, rc_scannerTimeouts = timeouts,
       rc_publisher = p, rc_stateStore = be\<rparr>"
    and r: "st_recon st = NewReconciler (lc_config c) w' (pf_store pf)" "st_runnables st = [InitialReconcile (5 * Minute)]"
    by (rule prepare_Inr)
  have cfg: "cfg = lc_config c" by (simp add: assms(2) e)
  from c obtain v base where parts: "ld_ReadInConfig (pf_loader pf) newLoader (fl_configFile fl) = Inr v"
    "ld_Unmarshal (pf_loader pf) v = Inr base" "Validate base = None" "Validate (lc_config c) = None"
    "lc_config c = (if fl_publishModeSet fl
       then base\<lparr>cfg_Publishing := (cfg_Publishing base)\<lparr>Mode := fl_publishMode fl\<rparr>\<rparr> else base)"
    by (rule loadAndValidateConfig_Inr)
  have w: "world_of (st_recon st) = w'" by (simp add: r NewReconciler_def Let_def)
  have pub: "re_publish (st_env st) \<noteq> None \<longleftrightarrow> p \<noteq> None" by (simp add: e)
  from setupPublisher_Inr [OF p] have "if PublishToKomodor (Mode (cfg_Publishing cfg))
     then pf_Getenv pf ''KOMODOR_API_KEY'' \<noteq> [] \<and>
       ValidateAPIKey (pf_transport pf) (NewClient (cfg_KomodorBaseURL cfg) (pf_Getenv pf ''KOMODOR_API_KEY'')) w = (None, w')
     else w' = w"
    by (auto simp: cfg NewPublisher_def)
  moreover have "re_publish (st_env st) \<noteq> None \<longleftrightarrow> PublishToKomodor (Mode (cfg_Publishing cfg))"
    using setupPublisher_Inr [OF p] unfolding pub cfg by blast
  ultimately show ?thesis using parts w r(2) unfolding cfg by blast
qed


lemma map_filter_length: "length (List.map_filter f xs) = length (filter (\<lambda>x. f x \<noteq> None) xs)"
  by (simp add: map_filter_def)

text \<open>C17: The started reconciler runs one scanner for each configured name that has an enabled
  configuration of a known type. Each is the driver
  of such a configuration, carries the name of the type, not the configured one, and delivers
  normalised results for the image it was given.\<close>

theorem started_scanners:
  assumes "prepare pf fl w = (Inr st, w')"
    and "cfgs = filter (\<lambda>s. s_Enabled s \<and> scannerFactories (pf_drivers pf) (s_Type s) \<noteq> None)
      (Scanners (cfg_Scanners (re_cfg (st_env st))))"
  shows "length (re_scanners (st_env st)) = card (s_Name ` set cfgs) \<and>
    (\<forall>sc \<in> set (re_scanners (st_env st)). sc_Name sc \<in> s_Type ` set cfgs \<and>
      (\<forall>w timeout img r w'. sc_Scan sc w timeout img = (Inr r, w') \<longrightarrow>
         normalised (sc_Name sc) r \<and> sr_Scanner r = sc_Name sc \<and> sr_Image r = img))"
proof -
  from assms(1) obtain c reg timeouts p be where s: "setupScanners pf c = Inr (reg, timeouts)"
    and e: "st_env st = reconciler_env pf (lc_config c) \<lparr>rc_scannerRegistry = reg, rc_scannerTimeouts = timeouts,
       rc_publisher = p, rc_stateStore = be\<rparr>"
    by (rule prepare_Inr)
  let ?all = "Scanners (cfg_Scanners (lc_config c))"
  let ?names = "remdups (map s_Name ?all)"
  have all: "cfgs = filter (\<lambda>s. s_Enabled s \<and> scannerFactories (pf_drivers pf) (s_Type s) \<noteq> None) ?all"
    by (simp add: assms(2) e)
  from s obtain scopes where r: "CreateScannerRegistry (scannerFactories (pf_drivers pf)) ?all scopes = Inr (reg, timeouts)"
    by (auto simp: setupScanners_def Let_def split: sum.splits)
  note cfg = fst_with_scopes [of ?all scopes]
  have "dom reg = s_Name ` fst ` {c \<in> set (with_scopes ?all scopes). built (scannerFactories (pf_drivers pf)) c \<noteq> None}"
    using create_loop_complete [OF r [unfolded CreateScannerRegistry_def]]
    by (simp only: dom_empty Un_empty_left setcompr_eq_image image_image)
  also have "fst ` {c \<in> set (with_scopes ?all scopes). built (scannerFactories (pf_drivers pf)) c \<noteq> None} = set cfgs"
    unfolding all by (subst set_filter, subst cfg [symmetric]) (auto simp: built_def image_iff)
  finally have dom: "dom reg = s_Name ` set cfgs" .
  have set_names: "set ?names = s_Name ` set ?all" "distinct ?names" by simp_all
  have "length (re_scanners (st_env st)) = length (filter (\<lambda>n. reg n \<noteq> None) ?names)"
    by (simp add: e map_filter_length)
  also have "\<dots> = card (set (filter (\<lambda>n. reg n \<noteq> None) ?names))"
    using set_names(2) by (simp only: distinct_card distinct_filter)
  also have "set (filter (\<lambda>n. reg n \<noteq> None) ?names) = dom reg"
    using dom all by (auto simp: set_names(1))
  finally have len: "length (re_scanners (st_env st)) = card (s_Name ` set cfgs)" by (simp only: dom)
  have "sc_Name sc \<in> s_Type ` set cfgs \<and> delivers sc" if "sc \<in> set (re_scanners (st_env st))" for sc
  proof -
    from that obtain n where "reg n = Some sc" by (auto simp: e map_filter_def)
    then obtain x ov where x: "x \<in> set (with_scopes ?all scopes)" "built (scannerFactories (pf_drivers pf)) x = Some (Inr (sc, ov))"
      using registry_sound(1) [OF r] by blast
    have "fst x \<in> set ?all" unfolding cfg [symmetric] using x(1) by (rule imageI)
    then have "fst x \<in> set cfgs" using x(2) by (auto simp: all built_def split: if_splits)
    then show ?thesis using built_delivers [OF x(2)] by auto
  qed
  then show ?thesis using len unfolding delivers_def by blast
qed

text \<open>The validation and the factory agree on the backends: with a configuration that was loaded, the
  state store never fails for want of a backend of the configured name.\<close>

theorem loaded_backend_supported:
  assumes "loadAndValidateConfig (pf_loader pf) fl = Inr c" and "buildStateStore pf c ns = Inl err"
  shows "err \<noteq> ErrNew (''unsupported state backend: '' @ sc_Backend (cfg_State (lc_config c)))"
proof -
  from assms(1) have "Validate (lc_config c) = None" by (rule loadAndValidateConfig_Inr)
  from validated_backend_supported [OF Validate_None_parts(5) [OF this]] show ?thesis
    using assms(2) by (simp add: buildStateStore_def)
qed

text \<open>The program and the operator's driver look for the cluster in opposite orders. Inside a cluster and with
  \<open>KUBECONFIG\<close> set, the workloads are those of the surrounding cluster and the reports those of the other one; without
  it, both use the surrounding cluster.\<close>

theorem cluster_of_reports:
  assumes "pf_InClusterConfig pf = Inr here"
  shows "LoadKubernetesConfig pf path = Inr here \<and>
    operator_loadKubernetesConfig (de_kube (pf_drivers pf)) =
      (if pf_Getenv pf ''KUBECONFIG'' = [] then Inr here
       else case pf_BuildConfigFromFlags pf (pf_Getenv pf ''KUBECONFIG'') of
          Inl err \<Rightarrow> Inl (ErrWrap ''build config from KUBECONFIG: '' err [])
        | Inr there \<Rightarrow> Inr there)"
  using assms by (simp add: LoadKubernetesConfig_def operator_loadKubernetesConfig_def)

section \<open>A start\<close>

text \<open>A platform on which everything answers, with a redis in memory; the world counts the requests.\<close>

definition empty_kv :: "('c, 'v) kv" where
  "empty_kv = \<lparr>kv_Get = (\<lambda>t k c. (Inr None, c)), kv_Set = (\<lambda>t k v x c. (None, c)), kv_Delete = (\<lambda>t k c. (Inr False, c))\<rparr>"

definition ex_clients :: "(string \<rightharpoonup> string fakeItem) clients" where
  "ex_clients = \<lparr>cl_redis = (\<lambda>_. fake_kv 1), cl_memcache = (\<lambda>_ _ _. empty_kv), cl_gocache = (\<lambda>_ _. empty_kv),
     cl_api = \<lparr>ca_Get = (\<lambda>ns n c. (Inr None, c)), ca_Create = (\<lambda>cm c. (None, c)), ca_Update = (\<lambda>cm c. (None, c)),
       ca_RetryOnConflict = (\<lambda>f c. f c)\<rparr>\<rparr>"

definition ex_viper :: "unit viper" where
  "ex_viper = \<lparr>vp_Sub = (\<lambda>v path. Some ()), vp_GetString = (\<lambda>v path. []),
     vp_redis = (\<lambda>v. Inr \<lparr>rc_Address = ''redis:6379'', rc_Password = [], rc_DB = 0, rc_TLSEnabled = False,
       rc_KeyPrefix = ''komodor'', rc_DialTimeout = 5 * Second, rc_ReadTimeout = 3 * Second, rc_WriteTimeout = 3 * Second\<rparr>),
     vp_memcache = (\<lambda>v. Inl ErrCanceled), vp_maxEntries = (\<lambda>v. Inr 1000), vp_configMapName = (\<lambda>v. Inr [])\<rparr>"

definition counting_transport :: "nat transport" where
  "counting_transport = \<lparr>tp_MarshalTime = (\<lambda>t. Inr ex_stamp), tp_JoinPath = (\<lambda>base p. Inr (base @ p)),
     tp_NewRequest = (\<lambda>_ _. None), tp_Do = (\<lambda>req w. (Inr (ex_answer req), w + 1)), tp_json_err = (\<lambda>_. ErrNew ''json'')\<rparr>"

definition ex_platform :: "(nat, unit, string \<rightharpoonup> string fakeItem, json, unit) platform" where
  "ex_platform = \<lparr>pf_ParseLevel = Some,
     pf_loader = \<lparr>ld_ReadInConfig = (\<lambda>ds path. Inr ()), ld_ReadConfig = (\<lambda>ds bytes. Inr ()),
       ld_Unmarshal = (\<lambda>v. Inr ex_config)\<rparr>,
     pf_viper = ex_viper, pf_scoped = (\<lambda>v. ex_scope), pf_RecommendedHomeFile = [], pf_NewManager = (\<lambda>k addr. None),
     pf_Add = None, pf_NewForConfig = (\<lambda>k. None), pf_drivers = ex_driver_env [],
     pf_transport = counting_transport, pf_clients = ex_clients, pf_store = Map.empty, pf_oob = (\<lambda>_. 0), pf_now = (\<lambda>w. 0),
     pf_sleep = (\<lambda>w d. (None, w)), pf_Digest = (\<lambda>w s. Inr s), pf_create_event = (\<lambda>w e. (None, w))\<rparr>"

definition ex_flags :: flags where
  "ex_flags = newRootCommand [''publish-mode'' \<mapsto> '' Komodor '']"

definition ex_loaded :: "unit loaded" where
  "ex_loaded = \<lparr>lc_config = ex_config\<lparr>cfg_Publishing := (cfg_Publishing ex_config)\<lparr>Mode := '' Komodor ''\<rparr>\<rparr>, lc_source = Some ()\<rparr>"

lemma ex_loaded_valid: "Validate (lc_config ex_loaded) = None"
  by code_simp

lemma ex_loads: "loadAndValidateConfig (pf_loader ex_platform) ex_flags = Inr ex_loaded"
proof -
  have "LoadFromFile (pf_loader ex_platform) path = Inr \<lparr>lc_config = ex_config, lc_source = Some ()\<rparr>" for path
    by (simp add: LoadFromFile_Inr ex_platform_def ex_config_valid)
  then show ?thesis
    using ex_loaded_valid
    by (simp add: loadAndValidateConfig_def ex_config_valid ex_flags_def newRootCommand_def Let_def ex_loaded_def)
qed

lemma ex_key_validated: "ValidateAPIKey counting_transport (NewClient url ''key'') w = (None, w + 1)"
proof -
  have "parseAPIKeyValidationResponse err (ex_answer req) = Inr (rp_Body (ex_answer req), \<lparr>Valid = True, Status = []\<rparr>)"
    for err req unfolding ex_answer_def http_response.simps by code_simp
  moreover have "rp_StatusCode (ex_answer (Header_Set k v r)) = (if rq_Method r = ''GET'' then 200 else 202)" for k v r
    by (simp add: ex_answer_def Header_Set_def)
  ultimately show ?thesis
    by (simp add: ValidateAPIKey_def counting_transport_def setAuthHeaders_def evaluateAPIKeyValidation_def EqualFold_def
        ToLower_def)
qed

lemma ex_started: "\<exists>st. prepare ex_platform ex_flags 0 = (Inr st, 1)"
proof -
  have lg: "setupLogging (pf_ParseLevel ex_platform) (fl_logLevel ex_flags) (fl_logFormat ex_flags) =
      Inr \<lparr>lg_level = ''info'', lg_formatter = JSONFormatter\<rparr>"
    by (simp add: setupLogging_def ex_platform_def ex_flags_def newRootCommand_def)
  have k: "LoadKubernetesConfig ex_platform path = Inr ()" "createManager ex_platform () addr = None"
    "pf_Add ex_platform = None" "pf_NewForConfig ex_platform () = None" for path addr
    by (simp_all add: LoadKubernetesConfig_def createManager_def ex_platform_def)
  have cfgs: "Scanners (cfg_Scanners (lc_config ex_loaded)) = [\<lparr>s_Name = ''trivy'', s_Type = ''trivy'', s_Enabled = True\<rparr>]"
    by (simp add: ex_loaded_def ex_config_def)
  obtain reg timeouts where scanners: "setupScanners ex_platform ex_loaded = Inr (reg, timeouts)"
    unfolding setupScanners_def cfgs Let_def
    by (auto simp: CreateScannerRegistry_def scannerFactories_def trivy_factory_def trivy_parseConfig_def
        command_parseConfig_def ex_scope_def ex_platform_def ScannerSubConfig_def SubConfig_def ex_loaded_def ex_viper_def
        Let_def)
  have "PublishToKomodor (Mode (cfg_Publishing (lc_config ex_loaded)))" by code_simp
  then have p: "setupPublisher ex_platform (lc_config ex_loaded) 0 =
      (Inr (Some (NewPublisher (NewClient (cfg_KomodorBaseURL (lc_config ex_loaded)) ''key''))), 1)"
    by (simp add: setupPublisher_def loadKomodorAPIKey_def ex_platform_def ex_key_validated)
  have "NormalizeStateBackend (sc_Backend (cfg_State (lc_config ex_loaded))) = StateBackendRedis" by code_simp
  then obtain be where "buildStateStore ex_platform ex_loaded ns = Inr be" for ns
    by (simp add: buildStateStore_def New_def backend_defs redis_ParseConfig_def decode_scope_def ex_platform_def
        ex_loaded_def SubConfig_def ex_viper_def redis_NewBackend_def TrimSpace_def is_space_def)
  then show ?thesis
    by (simp add: prepare_def lg ex_loads k setupRuntimeComponents_def scanners p setup_kinds_placeholder)
qed

theorem started_sound_witness:
  "\<exists>st w'. prepare ex_platform ex_flags 0 = (Inr st, w') \<and> re_publish (st_env st) \<noteq> None \<and>
     ValidateAPIKey counting_transport (NewClient ''https://app.komodor.io'' ''key'') 0 = (None, w') \<and>
     st_runnables st = [InitialReconcile (5 * Minute)]"
proof -
  obtain st where st: "prepare ex_platform ex_flags 0 = (Inr st, 1)" using ex_started by blast
  have "pf_Getenv ex_platform ''KOMODOR_API_KEY'' = ''key''" "pf_transport ex_platform = counting_transport"
    "ld_Unmarshal (pf_loader ex_platform) v = Inr ex_config" "fl_publishModeSet ex_flags" for v
    by (simp_all add: ex_platform_def ex_flags_def newRootCommand_def)
  moreover have "PublishToKomodor '' Komodor ''" by code_simp
  moreover have "fl_publishMode ex_flags = '' Komodor ''" "cfg_KomodorBaseURL ex_config = ''https://app.komodor.io''"
    by (simp_all add: ex_flags_def newRootCommand_def ex_config_def)
  ultimately show ?thesis
    using started_sound [OF st refl] st by auto
qed


text \<open>A redis state without an address: the factory fails, but not for want of the backend.\<close>

theorem loaded_backend_supported_witness:
  "\<exists>err. buildStateStore (ex_platform\<lparr>pf_viper := ex_viper\<lparr>vp_redis := \<lambda>v. Inl ErrCanceled\<rparr>\<rparr>) ex_loaded ''default'' = Inl err \<and>
     err \<noteq> ErrNew ''unsupported state backend:  External''"
proof -
  let ?pf = "ex_platform\<lparr>pf_viper := ex_viper\<lparr>vp_redis := \<lambda>v. Inl ErrCanceled\<rparr>\<rparr>"
  have "NormalizeStateBackend (sc_Backend (cfg_State (lc_config ex_loaded))) = StateBackendRedis" by code_simp
  then obtain err where e: "buildStateStore ?pf ex_loaded ''default'' = Inl err"
    by (simp add: buildStateStore_def New_def backend_defs redis_ParseConfig_def decode_scope_def ex_platform_def
        ex_loaded_def SubConfig_def ex_viper_def)
  have "loadAndValidateConfig (pf_loader ?pf) ex_flags = Inr ex_loaded" using ex_loads by simp
  from loaded_backend_supported [OF this e] show ?thesis
    using e by (simp add: ex_loaded_def ex_config_def)
qed

theorem started_scanners_witness:
  "\<exists>st. prepare ex_platform ex_flags 0 = (Inr st, 1) \<and> length (re_scanners (st_env st)) = 1"
proof -
  obtain st where st: "prepare ex_platform ex_flags 0 = (Inr st, 1)" using ex_started by blast
  from this obtain c rc where c: "loadAndValidateConfig (pf_loader ex_platform) ex_flags = Inr c"
    and e: "st_env st = reconciler_env ex_platform (lc_config c) rc"
    by (rule prepare_Inr)
  have "c = ex_loaded" using c ex_loads by simp
  then have "Scanners (cfg_Scanners (re_cfg (st_env st))) = [\<lparr>s_Name = ''trivy'', s_Type = ''trivy'', s_Enabled = True\<rparr>]"
    by (simp add: e ex_loaded_def ex_config_def)
  then show ?thesis using started_scanners [OF st refl] st by (simp add: scannerFactories_def)
qed

end
