(* ===== verification/End_To_End.thy ===== *)
theory End_To_End
  imports Startup
begin

text \<open>
  Properties that span the components: from the configuration that the program was started with to the
  requests that the Komodor server receives.
\<close>

lemma record_publication_world: "r_scan (record_publication env k now res r) = r_scan r"
  by (auto simp: record_publication_def Let_def dest: same_but_storeD [OF store_calls_same(2)] split: prod.split option.split)

lemma publish_to_events_off:
  "\<not> PublishToEvents (Mode (cfg_Publishing (re_cfg env))) \<Longrightarrow> publish_to_events env n res wctx r = (False, r)"
  by (simp add: publish_to_events_def)

text \<open>A result in komodor mode, over an environment whose publisher is the client.\<close>

lemma handled_with_client:
  assumes "re_publish env = Some (\<lambda>w ev. Publish tp (NewPublisher c) ev w)"
    and "PublishToKomodor (Mode (cfg_Publishing (re_cfg env)))" "\<not> PublishToEvents (Mode (cfg_Publishing (re_cfg env)))"
    and "Event_json (tp_MarshalTime tp) (EventFromScanResult res wctx opts) = Inr v"
    and "tp_JoinPath tp (kc_baseURL c) ''/mgmt/v1/events'' = Inr url" "tp_NewRequest tp ''POST'' url = None"
    and "tp_Do tp (event_request c url (Marshal_json v)) (world_of r) = (answer, w')"
    and "r' = handleScanResultStateAndPublish env n resolved res wctx opts r"
  shows "world_of r' = (if ShouldPublish res opts then w' else world_of r) \<and>
    added EventsPublishedTotal r r' = count_if (ShouldPublish res opts \<and> accepted answer) \<and>
    added EventPublishErrorsTotal r r' = count_if (ShouldPublish res opts \<and> \<not> accepted answer)"
proof -
  let ?r1 = "snd (after_latest env n resolved r)"
  obtain l where l: "lookup_outcome l" "r_metrics ?r1 = (r_metrics r)(l := r_metrics r l + 1)"
    using after_latest_metrics(1) by blast
  note ln = lookup_outcome_other [OF l(1)] and w = after_latest_metrics(2) [of env n resolved r]
  show ?thesis
  proof (cases "ShouldPublish res opts")
    case False
    then show ?thesis
      by (simp add: assms(8) handle_eq Let_def added_def count_if_def l(2) ln w Inc_def metric_Add_def)
  next
    case True
    obtain ok r2 where k: "publish_to_komodor env res wctx opts ?r1 = (ok, r2)"
      by (cases "publish_to_komodor env res wctx opts ?r1") auto
    have a: "tp_Do tp (event_request c url (Marshal_json v)) (world_of ?r1) = (answer, w')"
      using assms(7) by (simp add: w)
    note p = publish_to_komodor_accepted [OF assms(1) k assms(4-6) a] and m = publish_to_komodor_metrics [OF k]
    have r': "r' = (if ok then record_publication env (state_key resolved n) (r_now env r) res r2 else r2)"
      by (simp add: assms(8) handle_eq Let_def True publish_result_def k publish_to_events_off [OF assms(3)])
    have ok: "ok \<longleftrightarrow> accepted answer" "world_of r2 = w'" using p assms(2) by simp_all
    have r2: "r_metrics r2 EventsPublishedTotal = r_metrics r EventsPublishedTotal"
      "r_metrics r2 EventPublishErrorsTotal = r_metrics r EventPublishErrorsTotal + count_if (\<not> ok)"
      using m by (simp_all add: assms(2) count_if_def l(2) ln)
    show ?thesis
    proof (cases ok)
      case ok_case: True
      obtain x where x: "x \<in> {StateUpdatesTotal ''success'', StateUpdatesTotal ''error''}"
        "r_metrics r' = (r_metrics r2)(EventsPublishedTotal := r_metrics r2 EventsPublishedTotal + 1, x := r_metrics r2 x + 1)"
        using record_publication_metrics [of env "state_key resolved n" "r_now env r" res r2] r' ok_case by auto
      have "r_metrics r' EventsPublishedTotal = r_metrics r EventsPublishedTotal + 1"
        "r_metrics r' EventPublishErrorsTotal = r_metrics r EventPublishErrorsTotal"
        using x r2 ok_case by (auto simp: count_if_def)
      moreover have "world_of r' = w'" using r' ok_case ok(2) by (simp add: record_publication_world)
      ultimately show ?thesis using True ok_case ok(1) by (simp add: added_def count_if_def)
    next
      case False
      then show ?thesis using r' ok r2 True by (simp add: added_def count_if_def)
    qed
  qed
qed

section \<open>Properties\<close>

text \<open>C11: From the start to the server. In a program that was started in a mode that publishes to Komodor only, with
  the key of the environment, a result is posted exactly when the policy asks for it, once, to the endpoint
  under the configured base URL; it counts as published when the server accepts it and as an error when
  not, whatever the state backend holds or does.\<close>

theorem started_result_posted:
  assumes "prepare pf fl w0 = (Inr st, w1)" and "cfg = re_cfg (st_env st)" "tp = pf_transport pf"
    and "c = NewClient (cfg_KomodorBaseURL cfg) (pf_Getenv pf ''KOMODOR_API_KEY'')"
    and "PublishToKomodor (Mode (cfg_Publishing cfg))" "\<not> PublishToEvents (Mode (cfg_Publishing cfg))"
    and "Event_json (tp_MarshalTime tp) (EventFromScanResult res wctx opts) = Inr v"
    and "tp_JoinPath tp (cfg_KomodorBaseURL cfg) ''/mgmt/v1/events'' = Inr url" "tp_NewRequest tp ''POST'' url = None"
    and "tp_Do tp (event_request c url (Marshal_json v)) (world_of r) = (answer, w')"
    and "r' = handleScanResultStateAndPublish (st_env st) n resolved res wctx opts r"
  shows "world_of r' = (if ShouldPublish res opts then w' else world_of r) \<and>
    added EventsPublishedTotal r r' = count_if (ShouldPublish res opts \<and> accepted answer) \<and>
    added EventPublishErrorsTotal r r' = count_if (ShouldPublish res opts \<and> \<not> accepted answer)"
proof -
  from assms(1) obtain lc reg timeouts p be where "loadAndValidateConfig (pf_loader pf) fl = Inr lc"
    and p: "setupPublisher pf (lc_config lc) w0 = (Inr p, w1)"
    and e: "st_env st = reconciler_env pf (lc_config lc) \<lparr>rc_scannerRegistry = reg, rc_scannerTimeouts = timeouts,
       rc_publisher = p, rc_stateStore = be\<rparr>"
    by (rule prepare_Inr)
  have cfg: "cfg = lc_config lc" by (simp add: assms(2) e)
  have "p = Some (NewPublisher c)"
    using setupPublisher_Inr [OF p] assms(4,5) unfolding cfg by (cases p) auto
  then have "re_publish (st_env st) = Some (\<lambda>w ev. Publish tp (NewPublisher c) ev w)" by (simp add: e assms(3))
  moreover have "kc_baseURL c = cfg_KomodorBaseURL cfg" by (simp add: assms(4) NewClient_def)
  ultimately show ?thesis
    using handled_with_client [where tp = tp and c = c and env = "st_env st" and v = v and url = url, OF _ _ _ assms(7) _ assms(9,10,11)]
      assms(2,5,6,8) by simp
qed

theorem started_result_posted_witness:
  "\<exists>st. prepare ex_platform ex_flags 0 = (Inr st, 1) \<and>
    (\<forall>im. let r' = handleScanResultStateAndPublish (st_env st) ''trivy'' im ex_posted_result ex_posted_workload ex_posted_options
        (st_recon st)
     in world_of r' = 2 \<and> added EventsPublishedTotal (st_recon st) r' = 1)"
proof -
  from ex_started obtain st where st: "prepare ex_platform ex_flags 0 = (Inr st, 1)" by blast
  from st obtain c rc where c: "loadAndValidateConfig (pf_loader ex_platform) ex_flags = Inr c"
    and e: "st_env st = reconciler_env ex_platform (lc_config c) rc"
    and r: "st_recon st = NewReconciler (lc_config c) 1 (pf_store ex_platform)"
    by (rule prepare_Inr)
  have cfg: "re_cfg (st_env st) = lc_config ex_loaded" using c ex_loads by (simp add: e)
  have w: "world_of (st_recon st) = 1" by (simp add: r NewReconciler_def Let_def)
  have mode: "PublishToKomodor (Mode (cfg_Publishing (lc_config ex_loaded)))"
    "\<not> PublishToEvents (Mode (cfg_Publishing (lc_config ex_loaded)))" by code_simp+
  have tp: "tp_MarshalTime (pf_transport ex_platform) t = Inr ex_stamp"
    "tp_JoinPath (pf_transport ex_platform) base q = Inr (base @ q)" "tp_NewRequest (pf_transport ex_platform) m url = None"
    "tp_Do (pf_transport ex_platform) req (world_of (st_recon st)) = (Inr (ex_answer req), 2)" for t base q m url req
    by (simp_all add: ex_platform_def counting_transport_def w)
  have "wf_event (tp_MarshalTime (pf_transport ex_platform))
      (EventFromScanResult ex_posted_result ex_posted_workload ex_posted_options)"
    by (rule wf_event_of_result [OF ex_posted_ascii tp(1) ex_stamp_ascii])
  then obtain ms where v: "Event_json (tp_MarshalTime (pf_transport ex_platform))
      (EventFromScanResult ex_posted_result ex_posted_workload ex_posted_options) = Inr (JObj ms)"
    by (rule Event_json_wf)
  have "ShouldPublish ex_posted_result ex_posted_options"
    by (simp add: ex_posted_defs ShouldPublish_def hasRiskAtLevel_def severityRank_def ToLower_def lower_char_def Total_def
        zero_summary_def i64_id in_i64_def min_int64_def max_int64_def Let_def)
  then show ?thesis
    using started_result_posted [OF st refl refl refl _ _ v tp(2,3,4) refl] mode ex_answer_accepted st
    unfolding cfg by (auto simp: count_if_def Let_def)
qed

section \<open>The state of a started program\<close>



end
