(* ===== verification/Spec2Isabelle.thy ===== *)
theory Spec2Isabelle
  imports Go_Prelude Go_Float64 Go_Time Go_Sort Go_Sha256 Go_Json Go_Json_Bound Go_Rfc3339 Go_Decode
    Transition Worker_Pool
    Scan_Model Image_Ref Policy Publisher Komodor_Client Config Config_Loader
    Adaptive_Limiter Circuit_Breaker Scanner_Runtime
    Command_Runner Scanner_Driver Scanner_Trivy Scanner_Snyk Scanner_Wiz Scanner_Clair Scanner_Trivy_Operator Scanner_Registry
    State_Backend State_Codec State_Keys State_Kv State_Configmap State_Factory
    Reconciler Reconciler_State Dispatch Reconcile_All Metrics_Registry Startup End_To_End
begin

text \<open>
  \<^bold>\<open>The program.\<close> The Komodor security reporter is a Go program that runs in a Kubernetes cluster. It lists
  the workloads of the configured namespaces, takes the container images out of their pod
  specifications, resolves each image to a digest, has every configured scanner scan it, and
  publishes a result that is worth it as an event to the Komodor API, as a Kubernetes event, or both. What
  was published is remembered in a state backend. The parts, from the outside in:

  \<^item> \<open>cmd/komodor-security-reporter\<close> reads flags and configuration (\<open>internal/config\<close>), builds the scanner
    registry (\<open>internal/scanners/registry.go\<close> and the drivers under \<open>internal/scanners\<close>), the Komodor
    client (\<open>internal/komodor\<close>) and the state backend (\<open>internal/state/backends\<close>), and gives the
    manager one runnable, the initial reconciliation.
  \<^item> \<open>internal/reconciler/reconcile.go\<close> runs over the namespaces under one semaphore and over the
    images and scanners of a workload under another, with the adaptive rate limiter
    (\<open>internal/concurrency\<close>) in front of every scan.
  \<^item> \<open>internal/reconciler/scanner_runtime.go\<close> executes a scan: circuit breaker, timeout, retries, backoff.
  \<^item> \<open>internal/policy\<close> gives a result its fingerprint, \<open>internal/registry\<close> parses and resolves
    image references, \<open>internal/controller\<close> extracts images and finds the Kubernetes configuration,
    \<open>internal/metrics\<close> declares the metrics.

  \<^bold>\<open>The theories and the code.\<close> Names of definitions are those of the Go functions and types; where one name
  is used by several packages the package comes first (\<open>redis_Get\<close>, \<open>clair_parseResult\<close>), and a part of
  a long function that has its own definition says so in its theory.

  \<^item> Go itself: \<open>Go_Prelude\<close> (int64 and int32 with their wrap-around, byte strings, packages strings and
    strconv, error values and their chains), \<open>Go_Float64\<close> (binary64 with rounding, \<open>math.Pow\<close>),
    \<open>Go_Time\<close>, \<open>Go_Rfc3339\<close>, \<open>Go_Sort\<close> (the promise of \<open>sort.Slice\<close>, which is not stable), \<open>Go_Sha256\<close>,
    \<open>Go_Json\<close>, \<open>Go_Json_Bound\<close> and \<open>Go_Decode\<close> (encoding/json on bytes, into trees and into structs).
  \<^item> Interleaving: \<open>Transition\<close> (reachable states, the interface of an inductive invariant) and \<open>Worker_Pool\<close>
    (the abstract pool of workers behind a semaphore and a wait group, with its invariant).
  \<^item> Data: \<open>Scan_Model\<close> (\<open>scanners/scanner.go\<close>, \<open>severity.go\<close>), \<open>Image_Ref\<close>
    (\<open>registry/image_ref.go\<close>, \<open>resolver.go\<close>, \<open>controller/image_extractor.go\<close>), \<open>Policy\<close>
    (\<open>policy/evaluator.go\<close>), \<open>Publisher\<close> and \<open>Komodor_Client\<close> (\<open>komodor/publisher.go\<close>, \<open>client.go\<close>), \<open>Config\<close>
    and \<open>Config_Loader\<close> (\<open>config/config.go\<close>, \<open>loader.go\<close>), \<open>Metrics_Registry\<close> (\<open>metrics/metrics.go\<close>).
  \<^item> Execution of a scan: \<open>Adaptive_Limiter\<close> (\<open>concurrency/adaptive_limiter.go\<close>), \<open>Circuit_Breaker\<close> and
    \<open>Scanner_Runtime\<close> (\<open>reconciler/scanner_runtime.go\<close>).
  \<^item> Scanners: \<open>Command_Runner\<close> (\<open>scanners/command/runner.go\<close>), \<open>Scanner_Driver\<close> (what the drivers each
    carry a copy of), one theory per driver, and \<open>Scanner_Registry\<close> (the \<open>config.go\<close> and factories of the
    drivers and \<open>scanners/registry.go\<close>).
  \<^item> State: \<open>State_Backend\<close> (\<open>state/backend.go\<close> and the contract), \<open>State_Codec\<close> (\<open>state/entry.go\<close>),
    \<open>State_Keys\<close> (keys and expirations), \<open>State_Kv\<close> (memcache, redis, memory), \<open>State_Configmap\<close>, and
    \<open>State_Factory\<close> (\<open>backends/factory.go\<close> and the settings of each backend).
  \<^item> \<open>reconciler/reconcile.go\<close>: \<open>Reconciler\<close> (one image, one result), \<open>Reconciler_State\<close> (on the contract
    of the backends), \<open>Dispatch\<close> (the scans of a workload), \<open>Reconcile_All\<close> (a run over the cluster).
  \<^item> \<open>Startup\<close>: \<open>main.go\<close>, \<open>health.go\<close>, \<open>version.go\<close>, \<open>controller/kubernetes.go\<close>; \<open>End_To_End\<close>: what holds
    from the configuration of a start to the requests that the server receives.

  \<^bold>\<open>State and effects.\<close> A function that changes something takes the state and returns it: the breaker is a
  map of circuits, the limiter a record, the counters of a reconciler a function on \<open>metric\<close>. Everything outside the
  program is a world \<open>'w\<close> that external calls take and return (the clock, the registry, the scanner
  processes, the Komodor API), or a store \<open>'c\<close> behind a backend. Errors are values: \<open>result\<close> is
  \<open>go_error + 'a\<close>, and a function that returns only an error gives a \<open>go_error option\<close>. A panic is a
  branch of its own (\<open>cveFromLinks\<close>). The two loops with goroutines are step relations (\<open>dispatcher_step\<close>,
  \<open>goroutine_step\<close>; \<open>loop_step\<close>, \<open>worker_step\<close>) whose steps are the operations on the semaphore, the wait group,
  the gauges and the limiter, in the order of the code.

  \<^bold>\<open>Interfaces.\<close> \<open>state_backend\<close> is what the reconciler relies on: a working store reads as a map at
  every instant. It is proved of the code of all four backends from the laws of their clients (\<open>kv_client\<close>,
  \<open>configmap_client\<close>), which are documented behaviour and are shown to be satisfiable by
  stores that compute. \<open>output_parser\<close> is what the scan of a command driver needs of its parser, interpreted for
  the four drivers; \<open>keyed_less\<close> is a comparison that a key determines, interpreted for both sorts of findings;
  \<open>inductive_invariant\<close>, \<open>pool_client\<close> and \<open>measured\<close> carry the proofs about step relations.

  \<^bold>\<open>What is shown.\<close> Each property is a theorem that follows a text with its number.

  \<^item> The runs: every interleaving of the dispatch of a workload, and of a run over the namespaces, is one of
    the abstract pool, so the configured concurrency is never exceeded; every run ends, with a bound on its
    steps; gauges return to where they were, and the counters count what was done. One exception is proved
    too: an error of the limiter leaves scans running.
  \<^item> The breaker refines a specification of three states per scanner, admits no more probes than configured,
    and trips after the configured number of failures. A probe whose backoff is interrupted can lock a scanner
    out for ever. The retry loop makes at most the configured attempts and reports each scan once.
  \<^item> A result: which counters, events and state entries one result leads to, on every branch; what the store
    holds afterwards, for any backend that keeps the contract; the storage keys of different state keys never collide; an
    entry reads back as it was written, up to the fraction of a second.
  \<^item> The drivers deliver normalised results whatever the tools print: the counts are those of the findings. For Clair the
    counts do not depend on the order in which a map is visited; for Wiz they do, and so does publication.
    Reports of the operator are no older than the cache allows.
  \<^item> The event that is posted reads back as the event of the result, and a publication counts only if the server
    accepted it; from the start on, a result is posted exactly when the policy asks for it, and once. The API key is accepted on one condition only.
  \<^item> A start that succeeds has a valid configuration, a validated key exactly where the mode needs one, one scanner
    per enabled name, a reconciliation that ends, and a state backend, chosen by the configuration, that keeps
    the contract with the configured time to live, prefix and namespace.
  \<^item> Bounds: the rate stays between its limits, the backoff within its maximum up to the attempt at which
    it overflows, expirations within 32 bits, the output of a command within its limit.

  \<^bold>\<open>Bounds of the definitions.\<close> The JSON reader takes a number that bounds its calls, one more than the length
  of the text; \<open>json_Unmarshal_bound\<close> shows that no larger number reads more. The nesting limit of ten
  thousand is that of encoding/json. The retry loop ends by a measure, the attempts left. The loop of redis' \<open>Clear\<close> is a
  partial function, because the server decides when the cursor comes back to zero; \<open>redis_Clear_returns\<close>
  shows that it returns where the cursors run out. The
  dispatch loops need no bound: their relations have a cost that every step lowers.

  \<^bold>\<open>Simplifications.\<close>

  \<^item> The body of a scan goroutine between its two bookkeeping steps is one step, and in a run over the namespaces the
    reconciliation of one workload is one step. Logs and histograms are left out.
  \<^item> A map that is ranged over is a list whose order is arbitrary: any order at each range over the scanners, a
    parameter or a hypothesis elsewhere.
  \<^item> \<open>ToLower\<close>, \<open>ToUpper\<close>, \<open>TrimSpace\<close> and \<open>EqualFold\<close> are those of ASCII; where the difference matters
    (\<open>cveFromLinks\<close>) the function is a parameter.
  \<^item> The sign of a zero float is not represented; what a conversion to an integer out of range gives depends on
    the processor and is a parameter, with the two common processors as instances.
  \<^item> A slice field of a struct that a JSON text gives twice is decoded afresh the second time.
  \<^item> A time has no location; its text in an event is a parameter.

  \<^bold>\<open>Not modelled.\<close> The libraries, which are parameters with what the code relies on: cobra, viper and
  mapstructure (what a file decodes to), logrus, controller-runtime and client-go, net/http and URL parsing,
  the Redis and Memcache protocols, go-cache, gocache (which hands its calls to the store), crane, the Prometheus
  registry, the token bucket of golang.org/x/time/rate (its limit is the field \<open>rps\<close>), timers and
  signals. The constructors that only copy their arguments (\<open>NewStore\<close>, \<open>NewResolver\<close>) and
  the methods of the memory store that hand their arguments to go-cache have no definition of their own; the
  not-found error of gocache, which the backends test for and turn into no entry, is a read without a value.
  \<open>sleepWithContext\<close> waits on a timer and a context and is the environment's sleep. Races on
  the error of a workload and on the rate (\<open>SetLimit\<close> after the lock is released) are
  reported, not modelled: each locked section is one step.
\<close>

end
